theory Spec2Isabelle
  imports Main "HOL-Library.Word" "HOL-Library.AList"
begin

unbundle bit_operations_syntax

section \<open>Values, errors and external collaborators\<close>

text \<open>
  The embedded file is \<^verbatim>\<open>fblualib/thrift/LuaSerialization.cpp\<close>, the Lua binding of the
  serialization library. Byte buffers (Lua strings, \<^verbatim>\<open>std::string\<close>, \<^verbatim>\<open>folly::StringPiece\<close>)
  are lists of 8-bit characters.
\<close>

type_synonym bytes = string

datatype lua_type =
    LUA_TNONE
  | LUA_TNIL
  | LUA_TBOOLEAN
  | LUA_TNUMBER
  | LUA_TSTRING
  | LUA_TTABLE
  | LUA_TFUNCTION
  | LUA_TUSERDATA

text \<open>
  Every \<^verbatim>\<open>luaL_error\<close>, \<^verbatim>\<open>luaL_argerror\<close> and \<^verbatim>\<open>luaL_typerror\<close> is a value of
  \<open>error\<close>; the last group is the taxonomy of the serialization core. A read
  past the end of a buffer (undefined behaviour in C++) is the value \<open>OutOfBoundsRead\<close>,
  the use of a \<^verbatim>\<open>FILE*\<close> that names no open stream is \<open>InvalidFilePointer\<close>.
\<close>

datatype error =
    LuaError string
  | ArgError nat string
  | TypeError nat lua_type
  | OutOfBoundsRead
  | InvalidFilePointer
  | FormatError
  | CodecError
  | TruncatedInputError
  | DanglingReferenceError
  | UnsupportedValueError

text \<open>
  The value graph of the host runtime. A table or a function is a referenceable object:
  its first field is the identity (address) of the object, so that a shared object is a
  node that occurs several times under one identity. The first node met under an
  identity (parent before children, left to right) holds the content of the object; a
  later node under that identity is a handle on the same object. A handle met inside the
  object itself closes a cycle: it has no content of its own to show, and is written as
  the object's empty shell (a table without entries, a function without captured
  variables). A function carries a flag telling whether its bytecode may be executed by
  the runtime that holds it. A floating-point number is its IEEE-754 binary64 bit
  pattern. The constructors are prefixed with \<open>V\<close> (\<open>Nil\<close> and \<open>Int\<close> are taken in HOL).
\<close>

datatype Value =
    VNil
  | VBool bool
  | VInt int
  | VFloat "64 word"
  | VByteString bytes
  | VTable nat "Value list" "(Value \<times> Value) list"
  | VFunction nat bool bytes "Value list"
  | VOpaque nat

record Codec =
  compress :: "bytes \<Rightarrow> bytes"
  uncompress :: "bytes \<Rightarrow> bytes option"

datatype getCodec_result =
    Returns Codec
  | Throws_invalid_argument

type_synonym CodecType = int

text \<open>
  What the file takes from outside this repository: the enumerators of
  \<^verbatim>\<open>folly::io::CodecType\<close> and the codecs the library was built with (a codec that was
  compiled out has no factory), and from the LuaJIT runtime the coercions between numbers
  and strings and the call of a Lua function with one argument and one result.
\<close>

record extern =
  NO_COMPRESSION :: CodecType
  LZ4 :: CodecType
  SNAPPY :: CodecType
  ZLIB :: CodecType
  LZMA2 :: CodecType
  codecFactories :: "CodecType \<Rightarrow> Codec option"
  lua_number2integer :: "64 word \<Rightarrow> int"
  lua_number2str :: "64 word \<Rightarrow> string"
  lua_str2number :: "string \<Rightarrow> (int + 64 word) option"
  lua_call :: "Value \<Rightarrow> Value \<Rightarrow> error + Value"

definition NoCompressionCodec :: Codec where
  "NoCompressionCodec = \<lparr>compress = (\<lambda>bs. bs), uncompress = (\<lambda>bs. Some bs)\<rparr>"

text \<open>
  Modelled from the spec: \<^verbatim>\<open>folly::io::getCodec\<close> (folly/io/Compression.h is absent), the
  codec registry of section 4.2: the codec \<^verbatim>\<open>NO_COMPRESSION\<close> is always available and is the
  identity transform; any other id gives the codec the library was built with, and
  throws \<^verbatim>\<open>std::invalid_argument\<close> when there is none.
\<close>

definition getCodec :: "extern \<Rightarrow> CodecType \<Rightarrow> getCodec_result" where
  "getCodec ext c =
     (if c = NO_COMPRESSION ext then Returns NoCompressionCodec
      else case codecFactories ext c of
             None \<Rightarrow> Throws_invalid_argument
           | Some cdc \<Rightarrow> Returns cdc)"

section \<open>The Lua state\<close>

type_synonym FILE_ptr = bytes

record FILE =
  contents :: bytes
  position :: nat

text \<open>
  The part of \<^verbatim>\<open>lua_State\<close> the binding reads and writes: the arguments of the running
  C function (index 1 is the first), the globals, the two registry slots of the custom
  type hooks, and the open C streams by the object representation of their pointer.
\<close>

record lua_State =
  stack :: "Value list"
  globals :: "string \<rightharpoonup> Value"
  serializationCallback :: "Value option"
  deserializationCallback :: "Value option"
  files :: "FILE_ptr \<rightharpoonup> FILE"

definition lua_index :: "lua_State \<Rightarrow> nat \<Rightarrow> Value option" where
  "lua_index L idx =
     (if 1 \<le> idx \<and> idx \<le> length (stack L) then Some (stack L ! (idx - 1)) else None)"

fun lua_typeof :: "Value option \<Rightarrow> lua_type" where
  "lua_typeof None = LUA_TNONE"
| "lua_typeof (Some VNil) = LUA_TNIL"
| "lua_typeof (Some (VBool b)) = LUA_TBOOLEAN"
| "lua_typeof (Some (VInt i)) = LUA_TNUMBER"
| "lua_typeof (Some (VFloat d)) = LUA_TNUMBER"
| "lua_typeof (Some (VByteString s)) = LUA_TSTRING"
| "lua_typeof (Some (VTable a arr kv)) = LUA_TTABLE"
| "lua_typeof (Some (VFunction a u bc ups)) = LUA_TFUNCTION"
| "lua_typeof (Some (VOpaque h)) = LUA_TUSERDATA"

definition lua_type :: "lua_State \<Rightarrow> nat \<Rightarrow> lua_type" where
  "lua_type L idx = lua_typeof (lua_index L idx)"

definition lua_getglobal :: "lua_State \<Rightarrow> string \<Rightarrow> Value" where
  "lua_getglobal L k = (case globals L k of None \<Rightarrow> VNil | Some v \<Rightarrow> v)"

fun rawget :: "(Value \<times> Value) list \<Rightarrow> Value \<Rightarrow> Value" where
  "rawget [] k = VNil"
| "rawget ((k', v) # kv) k = (if k' = k then v else rawget kv k)"

text \<open>\<^verbatim>\<open>lua_getfield\<close>: indexing a value that is not a table raises.\<close>

fun lua_getfield :: "Value \<Rightarrow> string \<Rightarrow> error + Value" where
  "lua_getfield (VTable a arr kv) k = Inr (rawget kv (VByteString k))"
| "lua_getfield v k = Inl (LuaError ''attempt to index a non-table value'')"

text \<open>
  \<^verbatim>\<open>lua_tointeger\<close>: a number is converted, a string that reads as a number is
  converted, anything else is 0.
\<close>

fun tointeger :: "extern \<Rightarrow> Value option \<Rightarrow> int option" where
  "tointeger ext (Some (VInt i)) = Some i"
| "tointeger ext (Some (VFloat d)) = Some (lua_number2integer ext d)"
| "tointeger ext (Some (VByteString s)) =
     (case lua_str2number ext s of
        None \<Rightarrow> None
      | Some (Inl i) \<Rightarrow> Some i
      | Some (Inr d) \<Rightarrow> Some (lua_number2integer ext d))"
| "tointeger ext v = None"

definition lua_tointeger :: "extern \<Rightarrow> Value option \<Rightarrow> int" where
  "lua_tointeger ext v = (case tointeger ext v of None \<Rightarrow> 0 | Some i \<Rightarrow> i)"

definition luaL_checkinteger :: "extern \<Rightarrow> lua_State \<Rightarrow> nat \<Rightarrow> error + int" where
  "luaL_checkinteger ext L idx =
     (case tointeger ext (lua_index L idx) of
        None \<Rightarrow> Inl (TypeError idx LUA_TNUMBER)
      | Some i \<Rightarrow> Inr i)"

definition luaL_checktype :: "lua_State \<Rightarrow> nat \<Rightarrow> lua_type \<Rightarrow> error + unit" where
  "luaL_checktype L idx t = (if lua_type L idx \<noteq> t then Inl (TypeError idx t) else Inr ())"

definition digit :: "nat \<Rightarrow> char" where
  "digit n = ''0123456789'' ! n"

fun decimal :: "nat \<Rightarrow> string" where
  "decimal n = (if n < 10 then [digit n] else decimal (n div 10) @ [digit (n mod 10)])"

declare decimal.simps [simp del]

definition show_int :: "int \<Rightarrow> string" where
  "show_int i = (if i < 0 then ''-'' @ decimal (nat (- i)) else decimal (nat i))"

text \<open>
  Modelled from the spec: \<^verbatim>\<open>luaGetStringChecked\<close> of fblualib/LuaUtils.h, which is
  absent: the string at the index, or an error when the value there is not a string. In
  strict mode only a string is accepted; otherwise a number is accepted too and read as
  its text, as \<^verbatim>\<open>lua_tolstring\<close> does.
\<close>

fun luaGetStringChecked :: "extern \<Rightarrow> Value option \<Rightarrow> bool \<Rightarrow> error + bytes" where
  "luaGetStringChecked ext (Some (VByteString s)) strict = Inr s"
| "luaGetStringChecked ext (Some (VInt i)) strict =
     (if strict then Inl (LuaError ''not a string'') else Inr (show_int i))"
| "luaGetStringChecked ext (Some (VFloat d)) strict =
     (if strict then Inl (LuaError ''not a string'') else Inr (lua_number2str ext d))"
| "luaGetStringChecked ext v strict = Inl (LuaError ''not a string'')"

text \<open>
  Modelled from the spec: \<^verbatim>\<open>luaGetNumber<uint64_t>\<close> of fblualib/LuaUtils.h, which is
  absent: the number at the index converted to \<^verbatim>\<open>uint64_t\<close>, or nothing when the value
  there is not a number (in particular when the argument is nil or missing).
\<close>

fun luaGetNumber :: "extern \<Rightarrow> Value option \<Rightarrow> 64 word option" where
  "luaGetNumber ext (Some (VInt i)) = Some (word_of_int i)"
| "luaGetNumber ext (Some (VFloat d)) = Some (word_of_int (lua_number2integer ext d))"
| "luaGetNumber ext v = None"

section \<open>The codec table and module initialisation\<close>

record CodecInfo =
  name :: string
  type :: CodecType

definition gCodecs :: "extern \<Rightarrow> CodecInfo list" where
  "gCodecs ext =
     [\<lparr>name = ''NONE'', type = NO_COMPRESSION ext\<rparr>,
      \<lparr>name = ''LZ4'', type = LZ4 ext\<rparr>,
      \<lparr>name = ''SNAPPY'', type = SNAPPY ext\<rparr>,
      \<lparr>name = ''ZLIB'', type = ZLIB ext\<rparr>,
      \<lparr>name = ''LZMA2'', type = LZMA2 ext\<rparr>]"

definition kCodecCount :: "extern \<Rightarrow> nat" where
  "kCodecCount ext = length (gCodecs ext)"

definition gFuncs :: "string list" where
  "gFuncs = [''to_string'', ''_to_file'', ''from_string'', ''_from_file'', ''_set_callbacks'']"

text \<open>
  The module table returned by \<^verbatim>\<open>LUAOPEN\<close>: the registered function names and the
  \<^verbatim>\<open>codec\<close> table (a Lua table from codec name to codec id, kept in insertion order).
\<close>

record module_table =
  registered :: "string list"
  codec_table :: "(string \<times> int) list"

text \<open>
  The loop of \<^verbatim>\<open>LUAOPEN\<close> over \<^verbatim>\<open>gCodecs[i]\<close>, \<^verbatim>\<open>i < kCodecCount\<close>: a codec whose
  probe throws \<^verbatim>\<open>std::invalid_argument\<close> is skipped.
\<close>

fun LUAOPEN_loop :: "extern \<Rightarrow> CodecInfo list \<Rightarrow> (string \<times> int) list \<Rightarrow> error + (string \<times> int) list"
  where
  "LUAOPEN_loop ext [] tbl = Inr tbl"
| "LUAOPEN_loop ext (c # cs) tbl =
     (case getCodec ext (type c) of
        Throws_invalid_argument \<Rightarrow> LUAOPEN_loop ext cs tbl
      | Returns cdc \<Rightarrow> LUAOPEN_loop ext cs (AList.update (name c) (type c) tbl))"

definition LUAOPEN :: "extern \<Rightarrow> error + module_table" where
  "LUAOPEN ext =
     (case LUAOPEN_loop ext (take (kCodecCount ext) (gCodecs ext)) [] of
        Inl e \<Rightarrow> Inl e
      | Inr tbl \<Rightarrow> Inr \<lparr>registered = gFuncs, codec_table = tbl\<rparr>)"

section \<open>The version of the running interpreter\<close>

record LuaVersionInfo =
  interpreterVersion :: string
  bytecodeVersion :: string

definition startsWith :: "string \<Rightarrow> string \<Rightarrow> bool" where
  "startsWith s p = (take (length p) s = p)"

text \<open>Division of C++ on \<^verbatim>\<open>long\<close>: the quotient is truncated towards zero.\<close>

definition c_div :: "int \<Rightarrow> int \<Rightarrow> int" where
  "c_div a b = sgn a * sgn b * (\<bar>a\<bar> div \<bar>b\<bar>)"

text \<open>
  \<^verbatim>\<open>folly::sformat("{:04d}", n)\<close>: the decimal digits of \<open>n\<close>, padded with zeros on the
  left to a width of four characters, the sign included.
\<close>

definition sformat_04d :: "int \<Rightarrow> string" where
  "sformat_04d n =
     (if n < 0 then ''-'' @ replicate (3 - length (decimal (nat (- n)))) (CHR ''0'') @ decimal (nat (- n))
      else replicate (4 - length (decimal (nat n))) (CHR ''0'') @ decimal (nat n))"

definition getVersion :: "extern \<Rightarrow> lua_State \<Rightarrow> error + LuaVersionInfo" where
  "getVersion ext L =
     (let jit = lua_getglobal L ''jit'' in
      if jit = VNil then
        Inl (LuaError (''Cannot find global '' @ [CHR 0x22] @ ''jit'' @ [CHR 0x22]
                       @ '', cannot determine version''))
      else
        case lua_getfield jit ''version'' of
          Inl e \<Rightarrow> Inl e
        | Inr v \<Rightarrow>
            (case luaGetStringChecked ext (Some v) False of
               Inl e \<Rightarrow> Inl e
             | Inr ver \<Rightarrow>
                 if \<not> startsWith ver ''LuaJIT'' then
                   Inl (LuaError (''Invalid jit.version, expecting LuaJIT: '' @ ver))
                 else
                   case lua_getfield jit ''version_num'' of
                     Inl e \<Rightarrow> Inl e
                   | Inr vn \<Rightarrow>
                       (let verNum = lua_tointeger ext (Some vn) in
                        if verNum < 2 * 100 * 100 then
                          Inl (LuaError (''Invalid LuaJIT version, expected >= 20000: ''
                                         @ show_int verNum))
                        else
                          Inr \<lparr>interpreterVersion = ver,
                               bytecodeVersion = ''LuaJIT:'' @ sformat_04d (c_div verNum 100)\<rparr>)))"

section \<open>The serialization core\<close>

text \<open>
  Encoding.h and Serialization.h of this repository are absent: \<^verbatim>\<open>Serializer\<close>,
  \<^verbatim>\<open>Deserializer\<close>, \<^verbatim>\<open>encode\<close>, \<^verbatim>\<open>decode\<close> and the writers and readers are modelled
  from the specification (sections 3, 4.1 and 4.3 to 4.7). The layout is conceptual there,
  so the bytes chosen here are one layout that satisfies it.
\<close>

subsection \<open>Integers and strings on the wire\<close>

text \<open>
  Modelled from the spec: the length prefixes and integers of the wire envelope
  (Encoding.h is absent). A natural number is written in base 128, low digit first, the
  high bit of a byte telling that another byte follows; a signed integer is folded onto
  the naturals first; a string is its length followed by its bytes.
\<close>

fun put_varint :: "nat \<Rightarrow> bytes" where
  "put_varint n =
     (if n < 128 then [char_of n] else char_of (128 + n mod 128) # put_varint (n div 128))"

declare put_varint.simps [simp del]

fun get_varint :: "bytes \<Rightarrow> (nat \<times> bytes) option" where
  "get_varint [] = None"
| "get_varint (c # cs) =
     (if of_char c < (128::nat) then Some (of_char c, cs)
      else (case get_varint cs of
              None \<Rightarrow> None
            | Some (n, rest) \<Rightarrow> Some (of_char c - 128 + 128 * n, rest)))"

definition put_string :: "bytes \<Rightarrow> bytes" where
  "put_string s = put_varint (length s) @ s"

definition get_string :: "bytes \<Rightarrow> (bytes \<times> bytes) option" where
  "get_string bs =
     (case get_varint bs of
        None \<Rightarrow> None
      | Some (n, rest) \<Rightarrow> if length rest < n then None else Some (take n rest, drop n rest))"

definition zigzag :: "int \<Rightarrow> nat" where
  "zigzag i = (if 0 \<le> i then nat (2 * i) else nat (- 2 * i - 1))"

definition unzigzag :: "nat \<Rightarrow> int" where
  "unzigzag n = (if even n then int (n div 2) else - int (Suc n div 2))"

definition tag_nil :: char where "tag_nil = CHR 0x00"
definition tag_bool :: char where "tag_bool = CHR 0x01"
definition tag_int :: char where "tag_int = CHR 0x02"
definition tag_float :: char where "tag_float = CHR 0x03"
definition tag_string :: char where "tag_string = CHR 0x04"
definition tag_table :: char where "tag_table = CHR 0x05"
definition tag_function :: char where "tag_function = CHR 0x06"
definition tag_backref :: char where "tag_backref = CHR 0x07"
definition tag_opaque :: char where "tag_opaque = CHR 0x08"

subsection \<open>The token stream of a value graph\<close>

text \<open>
  Modelled from the spec: \<^verbatim>\<open>Serializer::toThrift\<close> of Serialization.h, which is absent.
  The walk of section 4.1 and the token stream of section 4.4: a type tag and a payload
  per node. The state \<open>(m, n)\<close> maps the identity of every table and function met so far
  to its id, and \<open>n\<close> is the next id; an object is given its id on the first encounter and
  every later encounter emits a back-reference token. A function always carries its
  bytecode. An opaque value goes through the serialization hook, and fails with
  \<open>UnsupportedValueError\<close> when none is installed.
\<close>

type_synonym LuaObject = bytes
type_synonym refs = "(nat \<rightharpoonup> nat) \<times> nat"

function (sequential) serialize :: "extern \<Rightarrow> Value option \<Rightarrow> refs \<Rightarrow> Value \<Rightarrow> error + (refs \<times> bytes)"
  and serialize_list :: "extern \<Rightarrow> Value option \<Rightarrow> refs \<Rightarrow> Value list \<Rightarrow> error + (refs \<times> bytes)"
  and serialize_map ::
    "extern \<Rightarrow> Value option \<Rightarrow> refs \<Rightarrow> (Value \<times> Value) list \<Rightarrow> error + (refs \<times> bytes)"
  where
  "serialize ext hook r VNil = Inr (r, [tag_nil])"
| "serialize ext hook r (VBool b) = Inr (r, [tag_bool, if b then CHR 0x01 else CHR 0x00])"
| "serialize ext hook r (VInt i) = Inr (r, tag_int # put_varint (zigzag i))"
| "serialize ext hook r (VFloat d) = Inr (r, tag_float # put_varint (unat d))"
| "serialize ext hook r (VByteString s) = Inr (r, tag_string # put_string s)"
| "serialize ext hook (m, n) (VTable a arr kv) =
     (case m a of
        Some i \<Rightarrow> Inr ((m, n), tag_backref # put_varint i)
      | None \<Rightarrow>
          (case serialize_list ext hook (m(a \<mapsto> n), Suc n) arr of
             Inl e \<Rightarrow> Inl e
           | Inr (r1, bs1) \<Rightarrow>
               (case serialize_map ext hook r1 kv of
                  Inl e \<Rightarrow> Inl e
                | Inr (r2, bs2) \<Rightarrow>
                    Inr (r2, tag_table # put_varint (length arr) @ bs1
                             @ put_varint (length kv) @ bs2))))"
| "serialize ext hook (m, n) (VFunction a u bc ups) =
     (case m a of
        Some i \<Rightarrow> Inr ((m, n), tag_backref # put_varint i)
      | None \<Rightarrow>
          (case serialize_list ext hook (m(a \<mapsto> n), Suc n) ups of
             Inl e \<Rightarrow> Inl e
           | Inr (r1, bs1) \<Rightarrow>
               Inr (r1, tag_function # put_string bc @ put_varint (length ups) @ bs1)))"
| "serialize ext hook r (VOpaque h) =
     (case hook of
        None \<Rightarrow> Inl UnsupportedValueError
      | Some f \<Rightarrow>
          (case lua_call ext f (VOpaque h) of
             Inl e \<Rightarrow> Inl e
           | Inr (VByteString s) \<Rightarrow> Inr (r, tag_opaque # put_string s)
           | Inr v \<Rightarrow> Inl UnsupportedValueError))"
| "serialize_list ext hook r [] = Inr (r, [])"
| "serialize_list ext hook r (x # xs) =
     (case serialize ext hook r x of
        Inl e \<Rightarrow> Inl e
      | Inr (r1, bs1) \<Rightarrow>
          (case serialize_list ext hook r1 xs of
             Inl e \<Rightarrow> Inl e
           | Inr (r2, bs2) \<Rightarrow> Inr (r2, bs1 @ bs2)))"
| "serialize_map ext hook r [] = Inr (r, [])"
| "serialize_map ext hook r ((k, v) # kv) =
     (case serialize ext hook r k of
        Inl e \<Rightarrow> Inl e
      | Inr (r1, bs1) \<Rightarrow>
          (case serialize ext hook r1 v of
             Inl e \<Rightarrow> Inl e
           | Inr (r2, bs2) \<Rightarrow>
               (case serialize_map ext hook r2 kv of
                  Inl e \<Rightarrow> Inl e
                | Inr (r3, bs3) \<Rightarrow> Inr (r3, bs1 @ bs2 @ bs3))))"
  by pat_completeness auto
termination
  by (relation "measure (case_sum (\<lambda>(e, h, r, v). size v)
         (case_sum (\<lambda>(e, h, r, xs). size_list size xs)
                   (\<lambda>(e, h, r, kv). size_list (size_prod size size) kv)))") auto

text \<open>
  Modelled from the spec: \<^verbatim>\<open>Deserializer::fromThrift\<close> of Serialization.h, which is
  absent. The replay of section 4.5. The state \<open>(n, d)\<close> holds the next id and the objects
  materialized so far. An object takes the next id when its token is met: it is
  allocated under a fresh identity (its id) and entered in \<open>d\<close> at once, as an empty shell,
  before its content is read, and the entry is replaced by the complete object after
  the content. A back-reference gives what \<open>d\<close> holds under the id: the complete object, or
  the shell of an object still under construction, which closes a cycle (a table that
  holds itself is rebuilt as a table whose field has the identity of the table). A
  back-reference to an id not yet seen is \<open>DanglingReferenceError\<close>. A function is
  rebuilt with its bytecode and flagged by \<open>usable\<close>; the flag decides no branch of the
  replay. An unknown tag goes through the deserialization hook. The first argument
  bounds the depth of the recursion: every call reads at least one byte before it
  recurses, and \<open>Deserializer_fromThrift\<close> passes the length of the token stream.
\<close>

type_synonym objs = "nat \<times> (nat \<rightharpoonup> Value)"

function (sequential)
  deserialize ::
    "nat \<Rightarrow> extern \<Rightarrow> Value option \<Rightarrow> bool \<Rightarrow> objs \<Rightarrow> bytes \<Rightarrow> error + (Value \<times> objs \<times> bytes)"
  and deserialize_list ::
    "nat \<Rightarrow> extern \<Rightarrow> Value option \<Rightarrow> bool \<Rightarrow> objs \<Rightarrow> nat \<Rightarrow> bytes
       \<Rightarrow> error + (Value list \<times> objs \<times> bytes)"
  and deserialize_map ::
    "nat \<Rightarrow> extern \<Rightarrow> Value option \<Rightarrow> bool \<Rightarrow> objs \<Rightarrow> nat \<Rightarrow> bytes
       \<Rightarrow> error + ((Value \<times> Value) list \<times> objs \<times> bytes)"
  where
  "deserialize 0 ext hook usable r bs = Inl TruncatedInputError"
| "deserialize (Suc f) ext hook usable r [] = Inl TruncatedInputError"
| "deserialize (Suc f) ext hook usable (n, d) (t # bs) =
     (if t = tag_nil then Inr (VNil, (n, d), bs)
      else if t = tag_bool then
        (case bs of
           [] \<Rightarrow> Inl TruncatedInputError
         | b # rest \<Rightarrow> Inr (VBool (b \<noteq> CHR 0x00), (n, d), rest))
      else if t = tag_int then
        (case get_varint bs of
           None \<Rightarrow> Inl TruncatedInputError
         | Some (k, rest) \<Rightarrow> Inr (VInt (unzigzag k), (n, d), rest))
      else if t = tag_float then
        (case get_varint bs of
           None \<Rightarrow> Inl TruncatedInputError
         | Some (k, rest) \<Rightarrow> Inr (VFloat (word_of_nat k), (n, d), rest))
      else if t = tag_string then
        (case get_string bs of
           None \<Rightarrow> Inl TruncatedInputError
         | Some (s, rest) \<Rightarrow> Inr (VByteString s, (n, d), rest))
      else if t = tag_table then
        (case get_varint bs of
           None \<Rightarrow> Inl TruncatedInputError
         | Some (k1, rest1) \<Rightarrow>
             (case deserialize_list f ext hook usable (Suc n, d(n \<mapsto> VTable n [] [])) k1 rest1 of
                Inl e \<Rightarrow> Inl e
              | Inr (arr, r2, rest2) \<Rightarrow>
                  (case get_varint rest2 of
                     None \<Rightarrow> Inl TruncatedInputError
                   | Some (k2, rest3) \<Rightarrow>
                       (case deserialize_map f ext hook usable r2 k2 rest3 of
                          Inl e \<Rightarrow> Inl e
                        | Inr (kv, (n4, d4), rest4) \<Rightarrow>
                            Inr (VTable n arr kv, (n4, d4(n \<mapsto> VTable n arr kv)), rest4)))))
      else if t = tag_function then
        (case get_string bs of
           None \<Rightarrow> Inl TruncatedInputError
         | Some (bc, rest1) \<Rightarrow>
             (case get_varint rest1 of
                None \<Rightarrow> Inl TruncatedInputError
              | Some (k, rest2) \<Rightarrow>
                  (case deserialize_list f ext hook usable
                           (Suc n, d(n \<mapsto> VFunction n usable bc [])) k rest2 of
                     Inl e \<Rightarrow> Inl e
                   | Inr (ups, (n3, d3), rest3) \<Rightarrow>
                       Inr (VFunction n usable bc ups,
                            (n3, d3(n \<mapsto> VFunction n usable bc ups)), rest3))))
      else if t = tag_backref then
        (case get_varint bs of
           None \<Rightarrow> Inl TruncatedInputError
         | Some (i, rest) \<Rightarrow>
             (case d i of
                Some v \<Rightarrow> Inr (v, (n, d), rest)
              | None \<Rightarrow> Inl DanglingReferenceError))
      else
        (case hook of
           None \<Rightarrow> Inl UnsupportedValueError
         | Some g \<Rightarrow>
             (case get_string bs of
                None \<Rightarrow> Inl TruncatedInputError
              | Some (s, rest) \<Rightarrow>
                  (case lua_call ext g (VByteString s) of
                     Inl e \<Rightarrow> Inl e
                   | Inr v \<Rightarrow> Inr (v, (n, d), rest)))))"
| "deserialize_list f ext hook usable r 0 bs = Inr ([], r, bs)"
| "deserialize_list 0 ext hook usable r (Suc k) bs = Inl TruncatedInputError"
| "deserialize_list (Suc f) ext hook usable r (Suc k) bs =
     (case deserialize f ext hook usable r bs of
        Inl e \<Rightarrow> Inl e
      | Inr (x, r1, rest1) \<Rightarrow>
          (case deserialize_list f ext hook usable r1 k rest1 of
             Inl e \<Rightarrow> Inl e
           | Inr (xs, r2, rest2) \<Rightarrow> Inr (x # xs, r2, rest2)))"
| "deserialize_map f ext hook usable r 0 bs = Inr ([], r, bs)"
| "deserialize_map 0 ext hook usable r (Suc k) bs = Inl TruncatedInputError"
| "deserialize_map (Suc f) ext hook usable r (Suc k) bs =
     (case deserialize f ext hook usable r bs of
        Inl e \<Rightarrow> Inl e
      | Inr (key, r1, rest1) \<Rightarrow>
          (case deserialize f ext hook usable r1 rest1 of
             Inl e \<Rightarrow> Inl e
           | Inr (val, r2, rest2) \<Rightarrow>
               (case deserialize_map f ext hook usable r2 k rest2 of
                  Inl e \<Rightarrow> Inl e
                | Inr (kv, r3, rest3) \<Rightarrow> Inr ((key, val) # kv, r3, rest3))))"
  by pat_completeness auto
termination
  by (relation "measure (case_sum (\<lambda>(f, x). f) (case_sum (\<lambda>(f, x). f) (\<lambda>(f, x). f)))") auto

definition Serializer_toThrift :: "extern \<Rightarrow> lua_State \<Rightarrow> nat \<Rightarrow> error + LuaObject" where
  "Serializer_toThrift ext L idx =
     (case lua_index L idx of
        None \<Rightarrow> Inl UnsupportedValueError
      | Some v \<Rightarrow>
          (case serialize ext (serializationCallback L) (Map.empty, 0) v of
             Inl e \<Rightarrow> Inl e
           | Inr (r, bs) \<Rightarrow> Inr bs))"

text \<open>
  Modelled from the spec: the option \<^verbatim>\<open>Deserializer::NO_BYTECODE\<close> of Serialization.h,
  which is absent: a bit of the options word. With the bit set the functions are
  rebuilt flagged as not executable.
\<close>

definition NO_BYTECODE :: "32 word" where
  "NO_BYTECODE = 1"

definition Deserializer_fromThrift ::
  "extern \<Rightarrow> 32 word \<Rightarrow> lua_State \<Rightarrow> LuaObject \<Rightarrow> error + Value" where
  "Deserializer_fromThrift ext options L obj =
     (case deserialize (length obj) ext (deserializationCallback L)
             (options AND NO_BYTECODE = 0) (0, Map.empty) obj of
        Inl e \<Rightarrow> Inl e
      | Inr (v, r, rest) \<Rightarrow> Inr v)"

subsection \<open>The wire envelope\<close>

text \<open>
  Modelled from the spec: the envelope of sections 3 and 4.3 (Encoding.h is absent):
  magic token, format version, the version strings of the producer, codec id, chunk size
  limit and the chunks, each length-prefixed. Reading validates the magic token and the
  format version (\<open>FormatError\<close>), then the codec id (\<open>CodecError\<close>), then reads the chunks
  (\<open>TruncatedInputError\<close> when the source ends early).
\<close>

record Envelope =
  magic :: bytes
  formatVersion :: nat
  producer :: LuaVersionInfo
  codecId :: CodecType
  chunkSizeLimit :: "64 word"
  chunks :: "bytes list"

definition kMagic :: bytes where
  "kMagic = ''LUAT''"

definition kFormatVersion :: nat where
  "kFormatVersion = 1"

definition kAnyVersion :: nat where
  "kAnyVersion = 2147483647"

definition put_envelope :: "Envelope \<Rightarrow> bytes" where
  "put_envelope e =
     magic e @ put_varint (formatVersion e)
     @ put_string (interpreterVersion (producer e)) @ put_string (bytecodeVersion (producer e))
     @ put_varint (zigzag (codecId e)) @ put_varint (unat (chunkSizeLimit e))
     @ put_varint (length (chunks e)) @ concat (map put_string (chunks e))"

fun get_chunks :: "nat \<Rightarrow> bytes \<Rightarrow> (bytes list \<times> bytes) option" where
  "get_chunks 0 bs = Some ([], bs)"
| "get_chunks (Suc k) bs =
     (case get_string bs of
        None \<Rightarrow> None
      | Some (c, rest) \<Rightarrow>
          (case get_chunks k rest of
             None \<Rightarrow> None
           | Some (cs, rest') \<Rightarrow> Some (c # cs, rest')))"

definition get_envelope :: "extern \<Rightarrow> bytes \<Rightarrow> error + (Envelope \<times> Codec \<times> bytes)" where
  "get_envelope ext bs =
     (if length bs < length kMagic then Inl TruncatedInputError
      else if take (length kMagic) bs \<noteq> kMagic then Inl FormatError
      else
        case get_varint (drop (length kMagic) bs) of
          None \<Rightarrow> Inl TruncatedInputError
        | Some (ver, r1) \<Rightarrow>
            if ver = 0 \<or> kFormatVersion < ver then Inl FormatError
            else
              (case get_string r1 of
                 None \<Rightarrow> Inl TruncatedInputError
               | Some (iv, r2) \<Rightarrow>
                   (case get_string r2 of
                      None \<Rightarrow> Inl TruncatedInputError
                    | Some (bv, r3) \<Rightarrow>
                        (case get_varint r3 of
                           None \<Rightarrow> Inl TruncatedInputError
                         | Some (cid, r4) \<Rightarrow>
                             (case getCodec ext (unzigzag cid) of
                                Returns cdc \<Rightarrow>
                                  (case get_varint r4 of
                                     None \<Rightarrow> Inl TruncatedInputError
                                   | Some (lim, r5) \<Rightarrow>
                                       (case get_varint r5 of
                                          None \<Rightarrow> Inl TruncatedInputError
                                        | Some (cnt, r6) \<Rightarrow>
                                            (case get_chunks cnt r6 of
                                               None \<Rightarrow> Inl TruncatedInputError
                                             | Some (cs, r7) \<Rightarrow>
                                                 Inr (\<lparr>magic = kMagic, formatVersion = ver,
                                                       producer = \<lparr>interpreterVersion = iv,
                                                                   bytecodeVersion = bv\<rparr>,
                                                       codecId = unzigzag cid,
                                                       chunkSizeLimit = word_of_nat lim,
                                                       chunks = cs\<rparr>, cdc, r7))))
                              | Throws_invalid_argument \<Rightarrow> Inl CodecError)))))"

text \<open>
  Modelled from the spec: the split of the token stream into segments of at most
  \<open>k\<close> bytes (section 4.4); \<open>k = 0\<close> is unbounded, a single chunk (section 4.3).
\<close>

function split_chunks :: "nat \<Rightarrow> bytes \<Rightarrow> bytes list" where
  "split_chunks k bs =
     (if bs = [] then [] else if k = 0 then [bs] else take k bs # split_chunks k (drop k bs))"
  by pat_completeness auto
termination
  by (relation "measure (\<lambda>(k, bs). length bs)") auto

declare split_chunks.simps [simp del]

text \<open>
  Modelled from the spec: the sinks of section 4.7 (\<^verbatim>\<open>StringWriter\<close> and \<^verbatim>\<open>FILEWriter\<close> of
  Encoding.h, which is absent): a growable buffer in memory, and an open C stream that
  is written through at its position and neither opened nor closed.
\<close>

record 'w Writer =
  sink :: 'w
  write_to :: "'w \<Rightarrow> bytes \<Rightarrow> error + 'w"

definition StringWriter :: "bytes Writer" where
  "StringWriter = \<lparr>sink = [], write_to = (\<lambda>w bs. Inr (w @ bs))\<rparr>"

definition finish :: "bytes Writer \<Rightarrow> bytes" where
  "finish writer = sink writer"

definition fwrite :: "FILE \<Rightarrow> bytes \<Rightarrow> FILE" where
  "fwrite f bs =
     f\<lparr>contents := take (position f) (contents f) @ bs
                     @ drop (position f + length bs) (contents f),
       position := position f + length bs\<rparr>"

definition FILEWriter :: "FILE_ptr \<Rightarrow> (FILE_ptr \<rightharpoonup> FILE) \<Rightarrow> (FILE_ptr \<rightharpoonup> FILE) Writer" where
  "FILEWriter fp fs =
     \<lparr>sink = fs,
      write_to = (\<lambda>w bs. case w fp of
                         None \<Rightarrow> Inl InvalidFilePointer
                       | Some f \<Rightarrow> Inr (w(fp \<mapsto> fwrite f bs)))\<rparr>"

text \<open>
  Modelled from the spec: \<^verbatim>\<open>encode\<close> of Encoding.h, which is absent (section 4.4): the
  token stream is split into segments, every segment is compressed on its own with the
  requested codec, and the envelope is written to the sink in one piece. An id that names
  no codec is \<open>CodecError\<close>. The format version written is the current one, bounded by
  \<open>maxVersion\<close>; \<open>kAnyVersion\<close> is no bound.
\<close>

definition encode ::
  "extern \<Rightarrow> LuaObject \<Rightarrow> CodecType \<Rightarrow> LuaVersionInfo \<Rightarrow> 'w Writer \<Rightarrow> nat \<Rightarrow> 64 word
     \<Rightarrow> error + 'w Writer" where
  "encode ext obj codecType versionInfo writer maxVersion chunkLength =
     (case getCodec ext codecType of
        Returns cdc \<Rightarrow>
          (case write_to writer (sink writer)
                  (put_envelope
                     \<lparr>magic = kMagic, formatVersion = min kFormatVersion maxVersion,
                      producer = versionInfo, codecId = codecType,
                      chunkSizeLimit = chunkLength,
                      chunks = map (compress cdc) (split_chunks (unat chunkLength) obj)\<rparr>) of
             Inl e \<Rightarrow> Inl e
           | Inr w \<Rightarrow> Inr (writer\<lparr>sink := w\<rparr>))
      | Throws_invalid_argument \<Rightarrow> Inl CodecError)"

text \<open>
  Modelled from the spec: \<^verbatim>\<open>decode\<close> of Encoding.h, which is absent (section 4.5): the
  envelope is read from the source, every chunk is decompressed and the segments are
  concatenated. The result comes with the unread rest of the source.
\<close>

record DecodedObject =
  outputObject :: LuaObject
  luaVersionInfo :: LuaVersionInfo

fun uncompress_all :: "Codec \<Rightarrow> bytes list \<Rightarrow> bytes list option" where
  "uncompress_all cdc [] = Some []"
| "uncompress_all cdc (c # cs) =
     (case uncompress cdc c of
        None \<Rightarrow> None
      | Some s \<Rightarrow>
          (case uncompress_all cdc cs of
             None \<Rightarrow> None
           | Some ss \<Rightarrow> Some (s # ss)))"

definition decode :: "extern \<Rightarrow> bytes \<Rightarrow> error + (DecodedObject \<times> bytes)" where
  "decode ext reader =
     (case get_envelope ext reader of
        Inl e \<Rightarrow> Inl e
      | Inr (env, cdc, rest) \<Rightarrow>
          (case uncompress_all cdc (chunks env) of
             None \<Rightarrow> Inl CodecError
           | Some segs \<Rightarrow>
               Inr (\<lparr>outputObject = concat segs, luaVersionInfo = producer env\<rparr>, rest)))"

section \<open>The bindings\<close>

text \<open>\<^verbatim>\<open>static_cast<CodecType>\<close> of a \<^verbatim>\<open>lua_Integer\<close>: the low 32 bits, signed.\<close>

definition static_cast_CodecType :: "int \<Rightarrow> CodecType" where
  "static_cast_CodecType i = (i + 2 ^ 31) mod 2 ^ 32 - 2 ^ 31"

definition serializeToString :: "extern \<Rightarrow> lua_State \<Rightarrow> error + bytes" where
  "serializeToString ext L =
     (case (if lua_type L 2 \<noteq> LUA_TNIL \<and> lua_type L 2 \<noteq> LUA_TNONE
            then (case luaL_checkinteger ext L 2 of
                    Inl e \<Rightarrow> Inl e
                  | Inr i \<Rightarrow> Inr (static_cast_CodecType i))
            else Inr (NO_COMPRESSION ext)) of
        Inl e \<Rightarrow> Inl e
      | Inr codecType \<Rightarrow>
          (let luaChunkSize = luaGetNumber ext (lua_index L 3);
               chunkSize = (case luaChunkSize of Some c \<Rightarrow> c | None \<Rightarrow> - 1)
           in case Serializer_toThrift ext L 1 of
                Inl e \<Rightarrow> Inl e
              | Inr obj \<Rightarrow>
                  (case getVersion ext L of
                     Inl e \<Rightarrow> Inl e
                   | Inr version \<Rightarrow>
                       (case encode ext obj codecType version StringWriter kAnyVersion chunkSize of
                          Inl e \<Rightarrow> Inl e
                        | Inr writer \<Rightarrow> Inr (finish writer)))))"

text \<open>
  LuaJIT converts between Lua files and \<^verbatim>\<open>FILE*\<close> only through the FFI, so the Lua code
  passes the pointer encoded as a Lua string.
\<close>

definition sizeof_voidp :: nat where
  "sizeof_voidp = 8"

text \<open>
  \<^verbatim>\<open>memcpy(&fp, src, n)\<close> reads \<open>n\<close> bytes from the buffer \<open>src\<close>; reading more bytes than
  the buffer holds is the error \<open>OutOfBoundsRead\<close>.
\<close>

definition memcpy :: "bytes \<Rightarrow> nat \<Rightarrow> error + bytes" where
  "memcpy src n = (if n \<le> length src then Inr (take n src) else Inl OutOfBoundsRead)"

definition getFP :: "extern \<Rightarrow> lua_State \<Rightarrow> nat \<Rightarrow> error + FILE_ptr" where
  "getFP ext L index =
     (case luaGetStringChecked ext (lua_index L index) True of
        Inl e \<Rightarrow> Inl e
      | Inr filePtrData \<Rightarrow>
          if \<not> (length filePtrData = sizeof_voidp) then
            Inl (ArgError index ''expected FILE* encoded as string'')
          else memcpy filePtrData sizeof_voidp)"

definition serializeToFile :: "extern \<Rightarrow> lua_State \<Rightarrow> (error + nat) \<times> lua_State" where
  "serializeToFile ext L =
     (case (if lua_type L 3 \<noteq> LUA_TNIL \<and> lua_type L 3 \<noteq> LUA_TNONE
            then (case luaL_checkinteger ext L 3 of
                    Inl e \<Rightarrow> Inl e
                  | Inr i \<Rightarrow> Inr (static_cast_CodecType i))
            else Inr (NO_COMPRESSION ext)) of
        Inl e \<Rightarrow> (Inl e, L)
      | Inr codecType \<Rightarrow>
          (let luaChunkSize = luaGetNumber ext (lua_index L 4);
               chunkSize = (case luaChunkSize of Some c \<Rightarrow> c | None \<Rightarrow> - 1)
           in case getFP ext L 2 of
                Inl e \<Rightarrow> (Inl e, L)
              | Inr fp \<Rightarrow>
                  (case Serializer_toThrift ext L 1 of
                     Inl e \<Rightarrow> (Inl e, L)
                   | Inr obj \<Rightarrow>
                       (case getVersion ext L of
                          Inl e \<Rightarrow> (Inl e, L)
                        | Inr version \<Rightarrow>
                            (case encode ext obj codecType version (FILEWriter fp (files L))
                                    kAnyVersion chunkSize of
                               Inl e \<Rightarrow> (Inl e, L)
                             | Inr writer \<Rightarrow> (Inr 0, L\<lparr>files := sink writer\<rparr>))))))"

definition doDeserialize :: "extern \<Rightarrow> lua_State \<Rightarrow> DecodedObject \<Rightarrow> error + Value" where
  "doDeserialize ext L decodedObject =
     (case getVersion ext L of
        Inl e \<Rightarrow> Inl e
      | Inr version \<Rightarrow>
          (let options = (0 :: 32 word);
               decodedBytecodeVersion = bytecodeVersion (luaVersionInfo decodedObject);
               options = (if decodedBytecodeVersion = [] \<or>
                             decodedBytecodeVersion \<noteq> bytecodeVersion version
                          then options OR NO_BYTECODE else options)
           in Deserializer_fromThrift ext options L (outputObject decodedObject)))"

definition deserializeFromString :: "extern \<Rightarrow> lua_State \<Rightarrow> error + Value" where
  "deserializeFromString ext L =
     (case luaGetStringChecked ext (lua_index L 1) False of
        Inl e \<Rightarrow> Inl e
      | Inr br \<Rightarrow>
          (case decode ext br of
             Inl e \<Rightarrow> Inl e
           | Inr (decodedObject, rest) \<Rightarrow> doDeserialize ext L decodedObject))"

text \<open>
  The stream is read from its position; after a decode that succeeds the position is
  behind the envelope. The position left by a decode that fails is not modelled.
\<close>

definition deserializeFromFile :: "extern \<Rightarrow> lua_State \<Rightarrow> (error + Value) \<times> lua_State" where
  "deserializeFromFile ext L =
     (case getFP ext L 1 of
        Inl e \<Rightarrow> (Inl e, L)
      | Inr fp \<Rightarrow>
          (case files L fp of
             None \<Rightarrow> (Inl InvalidFilePointer, L)
           | Some f \<Rightarrow>
               (case decode ext (drop (position f) (contents f)) of
                  Inl e \<Rightarrow> (Inl e, L)
                | Inr (decodedObject, rest) \<Rightarrow>
                    (doDeserialize ext L decodedObject,
                     L\<lparr>files := (files L)(fp \<mapsto>
                          f\<lparr>position := length (contents f) - length rest\<rparr>)\<rparr>))))"

text \<open>
  Modelled from the spec: \<^verbatim>\<open>setSpecialSerializationCallback\<close> and
  \<^verbatim>\<open>setSpecialDeserializationCallback\<close> of Serialization.h, which is absent: each stores
  the value at the index in its slot of the process-wide hook registry, overwriting what
  the slot held.
\<close>

definition setSpecialSerializationCallback :: "lua_State \<Rightarrow> nat \<Rightarrow> lua_State" where
  "setSpecialSerializationCallback L idx = L\<lparr>serializationCallback := lua_index L idx\<rparr>"

definition setSpecialDeserializationCallback :: "lua_State \<Rightarrow> nat \<Rightarrow> lua_State" where
  "setSpecialDeserializationCallback L idx = L\<lparr>deserializationCallback := lua_index L idx\<rparr>"

text \<open>
  A binding that changes the state returns its outcome (the number of results, or the
  error raised) together with the state it leaves.
\<close>

definition setCallbacks :: "lua_State \<Rightarrow> (error + nat) \<times> lua_State" where
  "setCallbacks L =
     (case luaL_checktype L 1 LUA_TFUNCTION of
        Inl e \<Rightarrow> (Inl e, L)
      | Inr u \<Rightarrow>
          (case luaL_checktype L 2 LUA_TFUNCTION of
             Inl e \<Rightarrow> (Inl e, L)
           | Inr u' \<Rightarrow>
               (Inr 0,
                setSpecialDeserializationCallback (setSpecialSerializationCallback L 1) 2)))"

section \<open>A sample environment\<close>

text \<open>
  A concrete environment on which the theorems below are exercised: the enumerators as
  folly numbers them, a library built with ZLIB only (stood in for by a codec that
  reverses the buffer), and a LuaJIT state whose global \<^verbatim>\<open>jit\<close> is the given table.
\<close>

definition sample_extern :: extern where
  "sample_extern =
     \<lparr>NO_COMPRESSION = 1, LZ4 = 2, SNAPPY = 3, ZLIB = 4, LZMA2 = 6,
      codecFactories =
        (\<lambda>c. if c = 4 then Some \<lparr>compress = rev, uncompress = (\<lambda>bs. Some (rev bs))\<rparr>
             else None),
      lua_number2integer = (\<lambda>d. 0),
      lua_number2str = (\<lambda>d. ''0''),
      lua_str2number = (\<lambda>s. None),
      lua_call = (\<lambda>f x. Inl (LuaError ''no interpreter''))\<rparr>"

definition sample_jit :: "string \<Rightarrow> int \<Rightarrow> Value" where
  "sample_jit ver verNum =
     VTable 1 []
       [(VByteString ''version'', VByteString ver), (VByteString ''version_num'', VInt verNum)]"

definition sample_State :: "Value \<Rightarrow> Value list \<Rightarrow> lua_State" where
  "sample_State jit args =
     \<lparr>stack = args, globals = [''jit'' \<mapsto> jit], serializationCallback = None,
      deserializationCallback = None, files = Map.empty\<rparr>"

section \<open>Value graphs and running interpreters\<close>

text \<open>
  The notions the properties below are stated with. \<open>idents\<close> lists the identities of the
  tables and functions of a value, \<open>objects\<close> the objects themselves. A value is an acyclic
  graph when every node under an identity is the object first met under that identity
  (two nodes with one identity are one shared object) and no object lies inside itself.
  A value is a value graph, cycles allowed, when every node under an identity is the
  object first met under that identity, except that a node inside the object of its own
  identity is the \<open>shell\<close> of that object; \<open>graph_in obj A\<close> is that property relative to the
  objects \<open>obj\<close> and to the identities \<open>A\<close> of the enclosing objects. Every acyclic graph is
  a value graph, and so is a table that holds itself; a graph in which an object that
  refers back to an enclosing object is met once more outside that object is not
  described by this notion. \<open>erase_identity\<close> forgets the identities, so that two values
  are equal as data when their erasures are equal; \<open>mark_bytecode u\<close> sets the bytecode
  flag of every function to \<open>u\<close>.
\<close>

fun idents :: "Value \<Rightarrow> nat list" where
  "idents (VTable a arr kv) =
     a # concat (map idents arr) @ concat (map (\<lambda>(k, v). idents k @ idents v) kv)"
| "idents (VFunction a u bc ups) = a # concat (map idents ups)"
| "idents v = []"

fun objects :: "Value \<Rightarrow> (nat \<times> Value) list" where
  "objects (VTable a arr kv) =
     (a, VTable a arr kv) # concat (map objects arr)
       @ concat (map (\<lambda>(k, v). objects k @ objects v) kv)"
| "objects (VFunction a u bc ups) = (a, VFunction a u bc ups) # concat (map objects ups)"
| "objects v = []"

fun wf_in :: "(nat \<rightharpoonup> Value) \<Rightarrow> Value \<Rightarrow> bool" where
  "wf_in obj (VTable a arr kv) =
     (obj a = Some (VTable a arr kv)
      \<and> (\<forall>x \<in> set arr. a \<notin> set (idents x) \<and> wf_in obj x)
      \<and> (\<forall>(k, v) \<in> set kv. a \<notin> set (idents k) \<and> a \<notin> set (idents v)
                             \<and> wf_in obj k \<and> wf_in obj v))"
| "wf_in obj (VFunction a u bc ups) =
     (obj a = Some (VFunction a u bc ups)
      \<and> (\<forall>x \<in> set ups. a \<notin> set (idents x) \<and> wf_in obj x))"
| "wf_in obj v = True"

definition acyclic_graph :: "Value \<Rightarrow> bool" where
  "acyclic_graph v = wf_in (map_of (objects v)) v"

fun shell :: "Value \<Rightarrow> Value" where
  "shell (VTable a arr kv) = VTable a [] []"
| "shell (VFunction a u bc ups) = VFunction a u bc []"
| "shell v = v"

fun graph_in :: "(nat \<rightharpoonup> Value) \<Rightarrow> nat set \<Rightarrow> Value \<Rightarrow> bool" where
  "graph_in obj A (VTable a arr kv) =
     (if a \<in> A then map_option shell (obj a) = Some (VTable a arr kv)
      else obj a = Some (VTable a arr kv)
        \<and> (\<forall>x \<in> set arr. graph_in obj (insert a A) x)
        \<and> (\<forall>(k, v) \<in> set kv. graph_in obj (insert a A) k \<and> graph_in obj (insert a A) v))"
| "graph_in obj A (VFunction a u bc ups) =
     (if a \<in> A then map_option shell (obj a) = Some (VFunction a u bc ups)
      else obj a = Some (VFunction a u bc ups)
        \<and> (\<forall>x \<in> set ups. graph_in obj (insert a A) x))"
| "graph_in obj A v = True"

definition value_graph :: "Value \<Rightarrow> bool" where
  "value_graph v = graph_in (map_of (objects v)) {} v"

fun opaque_free :: "Value \<Rightarrow> bool" where
  "opaque_free (VTable a arr kv) =
     ((\<forall>x \<in> set arr. opaque_free x) \<and> (\<forall>(k, v) \<in> set kv. opaque_free k \<and> opaque_free v))"
| "opaque_free (VFunction a u bc ups) = (\<forall>x \<in> set ups. opaque_free x)"
| "opaque_free (VOpaque h) = False"
| "opaque_free v = True"

fun function_free :: "Value \<Rightarrow> bool" where
  "function_free (VTable a arr kv) =
     ((\<forall>x \<in> set arr. function_free x) \<and> (\<forall>(k, v) \<in> set kv. function_free k \<and> function_free v))"
| "function_free (VFunction a u bc ups) = False"
| "function_free v = True"

fun erase_identity :: "Value \<Rightarrow> Value" where
  "erase_identity (VTable a arr kv) =
     VTable 0 (map erase_identity arr) (map (\<lambda>(k, v). (erase_identity k, erase_identity v)) kv)"
| "erase_identity (VFunction a u bc ups) = VFunction 0 u bc (map erase_identity ups)"
| "erase_identity v = v"

fun mark_bytecode :: "bool \<Rightarrow> Value \<Rightarrow> Value" where
  "mark_bytecode u (VTable a arr kv) =
     VTable a (map (mark_bytecode u) arr) (map (\<lambda>(k, v). (mark_bytecode u k, mark_bytecode u v)) kv)"
| "mark_bytecode u (VFunction a u' bc ups) = VFunction a u bc (map (mark_bytecode u) ups)"
| "mark_bytecode u v = v"

text \<open>
  An interpreter that presents itself as LuaJIT: the global \<^verbatim>\<open>jit\<close> is a table whose
  \<^verbatim>\<open>version\<close> reads as a string that starts with \<^verbatim>\<open>LuaJIT\<close> and whose \<^verbatim>\<open>version_num\<close>
  converts to the given integer.
\<close>

definition runs_LuaJIT :: "extern \<Rightarrow> lua_State \<Rightarrow> string \<Rightarrow> int \<Rightarrow> bool" where
  "runs_LuaJIT ext L ver verNum =
     (case lua_getglobal L ''jit'' of
        VTable a arr kv \<Rightarrow>
          luaGetStringChecked ext (Some (rawget kv (VByteString ''version''))) False = Inr ver
          \<and> startsWith ver ''LuaJIT''
          \<and> lua_tointeger ext (Some (rawget kv (VByteString ''version_num''))) = verNum
      | _ \<Rightarrow> False)"

text \<open>
  More of the sample environment: a table that holds one shared table twice, LuaJIT
  2.0.3 and LuaJIT 2.1.0 states, a state with one open stream, a table that holds
  itself and a function that captures the table, the token stream of that table, a
  decoded payload carrying that token stream under a given producer bytecode version,
  and the envelope of the integer 5 encoded without compression.
\<close>

definition sample_value :: Value where
  "sample_value =
     VTable 7 [VTable 9 [VInt (- 5)] [], VTable 9 [VInt (- 5)] [], VBool True]
       [(VByteString ''k'', VFloat 300)]"

definition sample_LuaJIT_20 :: "Value list \<Rightarrow> lua_State" where
  "sample_LuaJIT_20 args = sample_State (sample_jit ''LuaJIT 2.0.3'' 20003) args"

definition sample_LuaJIT_21 :: "Value list \<Rightarrow> lua_State" where
  "sample_LuaJIT_21 args = sample_State (sample_jit ''LuaJIT 2.1.0'' 20100) args"

definition sample_fp :: FILE_ptr where
  "sample_fp = ''FILEPTR0''"

definition sample_file_State :: "Value list \<Rightarrow> lua_State" where
  "sample_file_State args =
     (sample_LuaJIT_20 args)\<lparr>files := [sample_fp \<mapsto> \<lparr>contents = [], position = 0\<rparr>]\<rparr>"

definition sample_cycle :: Value where
  "sample_cycle =
     VTable 7 [VTable 7 [] [], VFunction 3 True ''bytecode'' [VTable 7 [] []], VInt 1] []"

definition sample_tokens :: LuaObject where
  "sample_tokens =
     tag_table # put_varint 3
       @ (tag_backref # put_varint 0)
       @ (tag_function # put_string ''bytecode'' @ put_varint 1 @ (tag_backref # put_varint 0))
       @ (tag_int # put_varint (zigzag 1))
       @ put_varint 0"

definition sample_payload :: "string \<Rightarrow> DecodedObject" where
  "sample_payload bv =
     \<lparr>outputObject = sample_tokens,
      luaVersionInfo = \<lparr>interpreterVersion = ''LuaJIT 2.0.3'', bytecodeVersion = bv\<rparr>\<rparr>"

definition sample_envelope :: bytes where
  "sample_envelope =
     put_envelope
       \<lparr>magic = kMagic, formatVersion = kFormatVersion,
        producer = \<lparr>interpreterVersion = ''LuaJIT 2.0.3'', bytecodeVersion = ''LuaJIT:0200''\<rparr>,
        codecId = NO_COMPRESSION sample_extern, chunkSizeLimit = - 1,
        chunks = [tag_int # put_varint 10]\<rparr>"

section \<open>The invariant of the round trip\<close>

text \<open>
  \<open>refs_inv\<close> relates the state of the serializer (identity to id) with the state of the
  deserializer (id to materialized object): ids are below the next id, two identities
  never share an id, the objects still under construction (the set \<open>P\<close>) have an id, and
  every identity with an id has been materialized, up to identities and bytecode flags,
  as the object it names, or as the shell of that object while it is under construction.
  \<open>value_ok\<close>, \<open>list_ok\<close> and \<open>map_ok\<close> state that replaying the token stream of a value, of
  an array part and of a map part rebuilds it and keeps the invariant.
\<close>

definition refs_inv ::
  "(nat \<rightharpoonup> Value) \<Rightarrow> bool \<Rightarrow> nat set \<Rightarrow> (nat \<rightharpoonup> nat) \<Rightarrow> nat \<Rightarrow> (nat \<rightharpoonup> Value) \<Rightarrow> bool" where
  "refs_inv obj u P m n d =
     ((\<forall>a i. m a = Some i \<longrightarrow> i < n)
      \<and> (\<forall>a b i. m a = Some i \<longrightarrow> m b = Some i \<longrightarrow> a = b)
      \<and> P \<subseteq> dom m
      \<and> (\<forall>a i. m a = Some i \<longrightarrow>
            (\<exists>x w. obj a = Some x \<and> d i = Some w
                   \<and> erase_identity w
                       = erase_identity (mark_bytecode u (if a \<in> P then shell x else x)))))"

definition value_ok ::
  "extern \<Rightarrow> Value option \<Rightarrow> Value option \<Rightarrow> bool \<Rightarrow> (nat \<rightharpoonup> Value) \<Rightarrow> Value \<Rightarrow> bool" where
  "value_ok ext hs hk u obj x =
     (\<forall>m n d P f rest m' n' bs.
        serialize ext hs (m, n) x = Inr ((m', n'), bs) \<longrightarrow> graph_in obj P x \<longrightarrow> opaque_free x \<longrightarrow>
        refs_inv obj u P m n d \<longrightarrow> length bs \<le> f \<longrightarrow>
        (\<exists>w d'. deserialize f ext hk u (n, d) (bs @ rest) = Inr (w, (n', d'), rest)
                \<and> erase_identity w = erase_identity (mark_bytecode u x)
                \<and> refs_inv obj u P m' n' d' \<and> m \<subseteq>\<^sub>m m'))"

definition list_ok ::
  "extern \<Rightarrow> Value option \<Rightarrow> Value option \<Rightarrow> bool \<Rightarrow> (nat \<rightharpoonup> Value) \<Rightarrow> Value list \<Rightarrow> bool" where
  "list_ok ext hs hk u obj xs =
     (\<forall>m n d P f rest m' n' bs.
        serialize_list ext hs (m, n) xs = Inr ((m', n'), bs) \<longrightarrow>
        (\<forall>x \<in> set xs. graph_in obj P x \<and> opaque_free x) \<longrightarrow>
        refs_inv obj u P m n d \<longrightarrow> length bs < f \<longrightarrow>
        (\<exists>ws d'. deserialize_list f ext hk u (n, d) (length xs) (bs @ rest)
                    = Inr (ws, (n', d'), rest)
                \<and> map erase_identity ws = map (\<lambda>x. erase_identity (mark_bytecode u x)) xs
                \<and> refs_inv obj u P m' n' d' \<and> m \<subseteq>\<^sub>m m'))"

definition map_ok ::
  "extern \<Rightarrow> Value option \<Rightarrow> Value option \<Rightarrow> bool \<Rightarrow> (nat \<rightharpoonup> Value) \<Rightarrow> (Value \<times> Value) list \<Rightarrow> bool"
  where
  "map_ok ext hs hk u obj kv =
     (\<forall>m n d P f rest m' n' bs.
        serialize_map ext hs (m, n) kv = Inr ((m', n'), bs) \<longrightarrow>
        (\<forall>(k, v) \<in> set kv. graph_in obj P k \<and> opaque_free k
                            \<and> graph_in obj P v \<and> opaque_free v) \<longrightarrow>
        refs_inv obj u P m n d \<longrightarrow> length bs < f \<longrightarrow>
        (\<exists>ws d'. deserialize_map f ext hk u (n, d) (length kv) (bs @ rest)
                    = Inr (ws, (n', d'), rest)
                \<and> map (\<lambda>(k, v). (erase_identity k, erase_identity v)) ws
                    = map (\<lambda>(k, v). (erase_identity (mark_bytecode u k),
                                      erase_identity (mark_bytecode u v))) kv
                \<and> refs_inv obj u P m' n' d' \<and> m \<subseteq>\<^sub>m m'))"

text \<open>
  Two runs of the replay are compared up to the bytecode flags: \<open>flags_off\<close> clears the
  flags in the table of materialized objects, and \<open>outcome\<close>, \<open>outcome_list\<close> and
  \<open>outcome_map\<close> keep the error of a run that fails and clear the flags in the result of a
  run that returns.
\<close>

definition flags_off :: "(nat \<rightharpoonup> Value) \<Rightarrow> (nat \<rightharpoonup> Value)" where
  "flags_off d = (\<lambda>i. map_option (mark_bytecode False) (d i))"

definition outcome ::
  "error + (Value \<times> objs \<times> bytes) \<Rightarrow> error + (Value \<times> objs \<times> bytes)" where
  "outcome r =
     (case r of
        Inl e \<Rightarrow> Inl e
      | Inr (w, (n, d), rest) \<Rightarrow> Inr (mark_bytecode False w, (n, flags_off d), rest))"

definition outcome_list ::
  "error + (Value list \<times> objs \<times> bytes) \<Rightarrow> error + (Value list \<times> objs \<times> bytes)" where
  "outcome_list r =
     (case r of
        Inl e \<Rightarrow> Inl e
      | Inr (ws, (n, d), rest) \<Rightarrow> Inr (map (mark_bytecode False) ws, (n, flags_off d), rest))"

definition outcome_map ::
  "error + ((Value \<times> Value) list \<times> objs \<times> bytes)
     \<Rightarrow> error + ((Value \<times> Value) list \<times> objs \<times> bytes)" where
  "outcome_map r =
     (case r of
        Inl e \<Rightarrow> Inl e
      | Inr (kv, (n, d), rest) \<Rightarrow>
          Inr (map (\<lambda>(k, v). (mark_bytecode False k, mark_bytecode False v)) kv,
               (n, flags_off d), rest))"

section \<open>Reading back what was written\<close>

lemma get_put_varint: "get_varint (put_varint n @ rest) = Some (n, rest)"
proof (induction n rule: put_varint.induct)
  case (1 n)
  show ?case
  proof (cases "n < 128")
    case True
    then show ?thesis by (subst put_varint.simps) (simp add: of_char_of)
  next
    case False
    have m: "(128 + n mod 128) mod 256 = 128 + n mod 128"
      by (rule mod_less) (simp add: less_le_trans [OF add_strict_left_mono [OF mod_less_divisor]])
    from False 1 have ih: "get_varint (put_varint (n div 128) @ rest) = Some (n div 128, rest)"
      by simp
    have "put_varint n = char_of (128 + n mod 128) # put_varint (n div 128)"
      using False by (subst put_varint.simps) simp
    then show ?thesis using ih m by (simp add: of_char_of)
  qed
qed

lemma put_varint_nonempty: "put_varint n \<noteq> []"
  by (subst put_varint.simps) simp

lemma length_put_varint: "0 < length (put_varint n)"
  using put_varint_nonempty [of n] by simp

lemma get_put_string: "get_string (put_string s @ rest) = Some (s, rest)"
  by (simp add: get_string_def put_string_def get_put_varint)

lemma unzigzag_zigzag: "unzigzag (zigzag i) = i"
  by (auto simp: unzigzag_def zigzag_def nat_mult_distrib even_nat_iff nat_div_distrib)

lemma get_put_chunks:
  "get_chunks (length cs) (concat (map put_string cs) @ rest) = Some (cs, rest)"
  by (induction cs) (simp_all add: get_put_string)

lemma concat_split_chunks: "concat (split_chunks k bs) = bs"
proof (induction k bs rule: split_chunks.induct)
  case (1 k bs)
  show ?case
  proof (cases "bs = [] \<or> k = 0")
    case True
    then show ?thesis by (subst split_chunks.simps) auto
  next
    case False
    with 1 have "concat (split_chunks k (drop k bs)) = drop k bs" by simp
    then show ?thesis using False by (subst split_chunks.simps) simp
  qed
qed

lemma split_chunks_single: "bs \<noteq> [] \<Longrightarrow> length bs \<le> k \<Longrightarrow> split_chunks k bs = [bs]"
  by (subst split_chunks.simps, subst split_chunks.simps) simp

lemma uncompress_all_compress:
  "(\<And>bs. uncompress cdc (compress cdc bs) = Some bs) \<Longrightarrow>
   uncompress_all cdc (map (compress cdc) segs) = Some segs"
  by (induction segs) simp_all

lemma get_put_envelope:
  assumes "magic e = kMagic" and "0 < formatVersion e" and "formatVersion e \<le> kFormatVersion"
    and "getCodec ext (codecId e) = Returns cdc"
  shows "get_envelope ext (put_envelope e @ rest) = Inr (e, cdc, rest)"
proof -
  have len: "length kMagic = 4" by (simp add: kMagic_def)
  show ?thesis
    using assms
    by (simp add: get_envelope_def put_envelope_def len get_put_varint get_put_string
          unzigzag_zigzag get_put_chunks)
qed

section \<open>Module initialisation\<close>

lemma update_fresh: "k \<notin> fst ` set tbl \<Longrightarrow> AList.update k v tbl = tbl @ [(k, v)]"
  by (induction tbl) auto

lemma LUAOPEN_loop_filter:
  "distinct (map name cs) \<Longrightarrow> set (map name cs) \<inter> fst ` set tbl = {} \<Longrightarrow>
   LUAOPEN_loop ext cs tbl =
     Inr (tbl @ map (\<lambda>c. (name c, type c))
                   (filter (\<lambda>c. getCodec ext (type c) \<noteq> Throws_invalid_argument) cs))"
proof (induction cs arbitrary: tbl)
  case Nil
  then show ?case by simp
next
  case (Cons c cs)
  show ?case
  proof (cases "getCodec ext (type c)")
    case (Returns cdc)
    from Cons.prems have fresh: "name c \<notin> fst ` set tbl" by auto
    have d: "distinct (map name cs)" using Cons.prems by simp
    have i: "set (map name cs) \<inter> fst ` set (tbl @ [(name c, type c)]) = {}"
      using Cons.prems by auto
    show ?thesis
      using Returns Cons.IH [OF d i] by (simp add: update_fresh [OF fresh])
  next
    case Throws_invalid_argument
    have d: "distinct (map name cs)" using Cons.prems by simp
    have i: "set (map name cs) \<inter> fst ` set tbl = {}" using Cons.prems by auto
    show ?thesis using Throws_invalid_argument Cons.IH [OF d i] by simp
  qed
qed

lemma LUAOPEN_loop_gCodecs:
  "LUAOPEN_loop ext (take (kCodecCount ext) (gCodecs ext)) [] =
     Inr (map (\<lambda>c. (name c, type c))
            (filter (\<lambda>c. getCodec ext (type c) \<noteq> Throws_invalid_argument) (gCodecs ext)))"
proof -
  have "distinct (map name (gCodecs ext))" by (simp add: gCodecs_def)
  then show ?thesis
    using LUAOPEN_loop_filter [of "gCodecs ext" "[]" ext] by (simp add: kCodecCount_def)
qed


text \<open>
  Claim C4. The codec \<^verbatim>\<open>NO_COMPRESSION\<close> is in the codec table exposed by module
  initialisation, under the name NONE, whatever the library was built with, and
  compressing then decompressing a buffer with it gives the buffer back (compressing
  alone already leaves it unchanged).
\<close>

theorem NO_COMPRESSION_available_identity:
  "\<exists>m cdc. LUAOPEN ext = Inr m \<and> (''NONE'', NO_COMPRESSION ext) \<in> set (codec_table m)
     \<and> getCodec ext (NO_COMPRESSION ext) = Returns cdc
     \<and> compress cdc bs = bs \<and> uncompress cdc (compress cdc bs) = Some bs"
proof -
  have g: "getCodec ext (NO_COMPRESSION ext) = Returns NoCompressionCodec"
    by (simp add: getCodec_def)
  have "(''NONE'', NO_COMPRESSION ext) \<in> set (map (\<lambda>c. (name c, type c))
            (filter (\<lambda>c. getCodec ext (type c) \<noteq> Throws_invalid_argument) (gCodecs ext)))"
    using g by (simp add: gCodecs_def)
  then show ?thesis
    using g by (simp add: LUAOPEN_def LUAOPEN_loop_gCodecs NoCompressionCodec_def)
qed

section \<open>The hooks\<close>

text \<open>
  Claim C7. \<^verbatim>\<open>setCallbacks\<close> installs the serialization and the deserialization callback
  together, overwriting the pair installed before, when both arguments are functions;
  otherwise it raises a type error for the first argument that is not a function and
  leaves the state, and so the installed pair, as it was.
\<close>

theorem setCallbacks_installs_both_or_nothing:
  "setCallbacks L =
     (if lua_type L 1 = LUA_TFUNCTION \<and> lua_type L 2 = LUA_TFUNCTION
      then (Inr 0, L\<lparr>serializationCallback := lua_index L 1,
                      deserializationCallback := lua_index L 2\<rparr>)
      else (Inl (TypeError (if lua_type L 1 = LUA_TFUNCTION then 2 else 1) LUA_TFUNCTION), L))"
  by (simp add: setCallbacks_def luaL_checktype_def setSpecialSerializationCallback_def
        setSpecialDeserializationCallback_def lua_index_def)

section \<open>The interpreter version and file handles\<close>

lemma c_div_nonneg: "0 \<le> a \<Longrightarrow> 0 < b \<Longrightarrow> c_div a b = a div b"
  by (cases "a = 0") (simp_all add: c_div_def)

lemma getVersion_LuaJIT:
  assumes "runs_LuaJIT ext L ver n" and "20000 \<le> n"
  shows "getVersion ext L =
    Inr \<lparr>interpreterVersion = ver, bytecodeVersion = ''LuaJIT:'' @ sformat_04d (n div 100)\<rparr>"
proof -
  obtain a arr kv where j: "lua_getglobal L ''jit'' = VTable a arr kv"
    and v: "luaGetStringChecked ext (Some (rawget kv (VByteString ''version''))) False = Inr ver"
    and s: "startsWith ver ''LuaJIT''"
    and k: "lua_tointeger ext (Some (rawget kv (VByteString ''version_num''))) = n"
    using assms(1) by (auto simp: runs_LuaJIT_def split: Value.splits)
  have "c_div n 100 = n div 100" using assms(2) by (simp add: c_div_nonneg)
  then show ?thesis
    using j v s k assms(2) by (simp add: getVersion_def)
qed

lemma version_num_div:
  "0 \<le> patch \<Longrightarrow> patch < 100 \<Longrightarrow> (major * 10000 + minor * 100 + patch) div 100 = major * 100 + (minor :: int)"
  by simp

lemma sformat_0200: "sformat_04d 200 = ''0200''"
  by (simp add: sformat_04d_def decimal.simps digit_def)

lemma sformat_0201: "sformat_04d 201 = ''0201''"
  by (simp add: sformat_04d_def decimal.simps digit_def)

lemma getVersion_sample_20:
  "getVersion sample_extern (sample_LuaJIT_20 args)
     = Inr \<lparr>interpreterVersion = ''LuaJIT 2.0.3'', bytecodeVersion = ''LuaJIT:0200''\<rparr>"
proof -
  have "runs_LuaJIT sample_extern (sample_LuaJIT_20 args) ''LuaJIT 2.0.3'' 20003"
    by (simp add: runs_LuaJIT_def sample_LuaJIT_20_def sample_State_def sample_jit_def
          lua_getglobal_def startsWith_def lua_tointeger_def)
  from getVersion_LuaJIT [OF this] show ?thesis by (simp add: sformat_0200)
qed

lemma getVersion_sample_21:
  "getVersion sample_extern (sample_LuaJIT_21 args)
     = Inr \<lparr>interpreterVersion = ''LuaJIT 2.1.0'', bytecodeVersion = ''LuaJIT:0201''\<rparr>"
proof -
  have "runs_LuaJIT sample_extern (sample_LuaJIT_21 args) ''LuaJIT 2.1.0'' 20100"
    by (simp add: runs_LuaJIT_def sample_LuaJIT_21_def sample_State_def sample_jit_def
          lua_getglobal_def startsWith_def lua_tointeger_def)
  from getVersion_LuaJIT [OF this] show ?thesis by (simp add: sformat_0201)
qed

lemma getVersion_files [simp]: "getVersion ext (L\<lparr>files := fs\<rparr>) = getVersion ext L"
  by (simp add: getVersion_def lua_getglobal_def)

lemma sample_codec_ZLIB:
  "getCodec sample_extern (static_cast_CodecType 4)
       = Returns \<lparr>compress = rev, uncompress = (\<lambda>bs. Some (rev bs))\<rparr>"
  by (simp add: getCodec_def sample_extern_def static_cast_CodecType_def)

text \<open>
  Claim C10. \<^verbatim>\<open>getFP\<close> returns the pointer exactly when the argument is a string of
  \<^verbatim>\<open>sizeof(void*)\<close> bytes, raises the argument error when the string has another length
  and a plain error when the argument is not a string; it never reads past the end of the
  argument string. A string of the wrong length makes \<^verbatim>\<open>deserializeFromFile\<close> raise that
  argument error, and makes \<^verbatim>\<open>serializeToFile\<close> raise it unless the codec argument was
  rejected first; both leave the state unchanged.
\<close>

theorem getFP_length_checked:
  "getFP ext L index =
     (case lua_index L index of
        Some (VByteString s) \<Rightarrow>
          if length s = sizeof_voidp then Inr s
          else Inl (ArgError index ''expected FILE* encoded as string'')
      | _ \<Rightarrow> Inl (LuaError ''not a string''))
   \<and> getFP ext L index \<noteq> Inl OutOfBoundsRead
   \<and> (lua_index L 1 = Some (VByteString s) \<and> length s \<noteq> sizeof_voidp \<longrightarrow>
        deserializeFromFile ext L = (Inl (ArgError 1 ''expected FILE* encoded as string''), L))
   \<and> (lua_index L 2 = Some (VByteString s) \<and> length s \<noteq> sizeof_voidp \<longrightarrow>
        snd (serializeToFile ext L) = L
        \<and> (fst (serializeToFile ext L) = Inl (ArgError 2 ''expected FILE* encoded as string'')
            \<or> fst (serializeToFile ext L) = Inl (TypeError 3 LUA_TNUMBER)))"
proof -
  have a: "getFP ext L index =
     (case lua_index L index of
        Some (VByteString s) \<Rightarrow>
          if length s = sizeof_voidp then Inr s
          else Inl (ArgError index ''expected FILE* encoded as string'')
      | _ \<Rightarrow> Inl (LuaError ''not a string''))" for index
  proof (cases "lua_index L index")
    case None
    then show ?thesis by (simp add: getFP_def)
  next
    case (Some v)
    then show ?thesis by (cases v) (simp_all add: getFP_def memcpy_def)
  qed
  have b: "getFP ext L index \<noteq> Inl OutOfBoundsRead"
    unfolding a by (simp split: option.splits Value.splits)
  have c: "lua_index L 1 = Some (VByteString s) \<and> length s \<noteq> sizeof_voidp \<longrightarrow>
        deserializeFromFile ext L = (Inl (ArgError 1 ''expected FILE* encoded as string''), L)"
    by (simp add: deserializeFromFile_def a)
  have d: "lua_index L 2 = Some (VByteString s) \<and> length s \<noteq> sizeof_voidp \<longrightarrow>
        snd (serializeToFile ext L) = L
        \<and> (fst (serializeToFile ext L) = Inl (ArgError 2 ''expected FILE* encoded as string'')
            \<or> fst (serializeToFile ext L) = Inl (TypeError 3 LUA_TNUMBER))"
    by (auto simp: serializeToFile_def a Let_def luaL_checkinteger_def
          split: sum.splits option.splits)
  show ?thesis using a b c d by blast
qed

theorem getFP_length_checked_witness:
  "getFP sample_extern (sample_LuaJIT_20 [VNil, VByteString ''abc'']) 2
     = Inl (ArgError 2 ''expected FILE* encoded as string'')
   \<and> getFP sample_extern (sample_LuaJIT_20 [VNil, VByteString ''abc'']) 2 \<noteq> Inl OutOfBoundsRead
   \<and> getFP sample_extern (sample_LuaJIT_20 [VNil, VByteString ''FILEPTR0'']) 2 = Inr ''FILEPTR0''
   \<and> lua_index (sample_LuaJIT_20 [VByteString ''abc'']) 1 = Some (VByteString ''abc'')
   \<and> length ''abc'' \<noteq> sizeof_voidp
   \<and> deserializeFromFile sample_extern (sample_LuaJIT_20 [VByteString ''abc''])
       = (Inl (ArgError 1 ''expected FILE* encoded as string''),
          sample_LuaJIT_20 [VByteString ''abc''])
   \<and> lua_index (sample_LuaJIT_20 [VNil, VByteString ''abc'']) 2 = Some (VByteString ''abc'')
   \<and> serializeToFile sample_extern (sample_LuaJIT_20 [VNil, VByteString ''abc''])
       = (Inl (ArgError 2 ''expected FILE* encoded as string''),
          sample_LuaJIT_20 [VNil, VByteString ''abc''])"
proof -
  have i1: "lua_index (sample_LuaJIT_20 [VByteString ''abc'']) 1 = Some (VByteString ''abc'')"
    by (simp add: lua_index_def sample_LuaJIT_20_def sample_State_def)
  have i2: "lua_index (sample_LuaJIT_20 [VNil, VByteString ''abc'']) 2 = Some (VByteString ''abc'')"
    by (simp add: lua_index_def sample_LuaJIT_20_def sample_State_def)
  have i3: "lua_index (sample_LuaJIT_20 [VNil, VByteString ''FILEPTR0'']) 2
              = Some (VByteString ''FILEPTR0'')"
    by (simp add: lua_index_def sample_LuaJIT_20_def sample_State_def)
  have i4: "lua_index (sample_LuaJIT_20 [VNil, VByteString ''abc'']) 3 = None"
    by (simp add: lua_index_def sample_LuaJIT_20_def sample_State_def)
  have l: "length ''abc'' \<noteq> sizeof_voidp" by (simp add: sizeof_voidp_def)
  have g: "getFP sample_extern (sample_LuaJIT_20 [VNil, VByteString ''abc'']) 2
             = Inl (ArgError 2 ''expected FILE* encoded as string'')"
    by (simp add: getFP_def i2 sizeof_voidp_def)
  have t: "fst (serializeToFile sample_extern (sample_LuaJIT_20 [VNil, VByteString ''abc'']))
             \<noteq> Inl (TypeError 3 LUA_TNUMBER)"
    by (simp add: serializeToFile_def lua_type_def i4 Let_def g)
  show ?thesis
    using i1 i2 l t
      getFP_length_checked [of sample_extern "sample_LuaJIT_20 [VNil, VByteString ''abc'']" 2 "''abc''"]
      getFP_length_checked [of sample_extern "sample_LuaJIT_20 [VByteString ''abc'']" 2 "''abc''"]
      getFP_length_checked [of sample_extern "sample_LuaJIT_20 [VNil, VByteString ''FILEPTR0'']" 2 "''abc''"]
    by (auto simp: i3 sizeof_voidp_def prod_eq_iff)
qed

text \<open>
  Claim C9. For an interpreter whose \<^verbatim>\<open>version_num\<close> is
  \<open>major * 10000 + minor * 100 + patch\<close> with \<open>2 \<le> major\<close> and \<open>patch < 100\<close>, the bytecode
  version is \<^verbatim>\<open>LuaJIT:\<close> followed by the zero-padded \<open>major * 100 + minor\<close>: it does not
  depend on the patch level. Two interpreters that differ in the patch level only have
  equal bytecode versions, and a payload of the one is deserialized by the other with no
  option set, that is, with its bytecode usable.
\<close>

theorem bytecodeVersion_ignores_patch_level:
  assumes "runs_LuaJIT ext L1 ver1 (major * 10000 + minor * 100 + patch1)"
    and "runs_LuaJIT ext L2 ver2 (major * 10000 + minor * 100 + patch2)"
    and "2 \<le> major" and "0 \<le> minor"
    and "0 \<le> patch1" and "patch1 < 100" and "0 \<le> patch2" and "patch2 < 100"
  shows "\<exists>v1 v2. getVersion ext L1 = Inr v1 \<and> getVersion ext L2 = Inr v2
     \<and> bytecodeVersion v1 = ''LuaJIT:'' @ sformat_04d (major * 100 + minor)
     \<and> bytecodeVersion v2 = bytecodeVersion v1
     \<and> doDeserialize ext L2 \<lparr>outputObject = obj, luaVersionInfo = v1\<rparr>
         = Deserializer_fromThrift ext 0 L2 obj"
proof -
  have n1: "20000 \<le> major * 10000 + minor * 100 + patch1" using assms(3-5) by simp
  have n2: "20000 \<le> major * 10000 + minor * 100 + patch2" using assms(3,4,7) by simp
  have d1: "(major * 10000 + minor * 100 + patch1) div 100 = major * 100 + minor"
    using assms(5,6) by (rule version_num_div)
  have d2: "(major * 10000 + minor * 100 + patch2) div 100 = major * 100 + minor"
    using assms(7,8) by (rule version_num_div)
  have g1: "getVersion ext L1 = Inr \<lparr>interpreterVersion = ver1,
      bytecodeVersion = ''LuaJIT:'' @ sformat_04d (major * 100 + minor)\<rparr>"
    using getVersion_LuaJIT [OF assms(1) n1] d1 by simp
  have g2: "getVersion ext L2 = Inr \<lparr>interpreterVersion = ver2,
      bytecodeVersion = ''LuaJIT:'' @ sformat_04d (major * 100 + minor)\<rparr>"
    using getVersion_LuaJIT [OF assms(2) n2] d2 by simp
  show ?thesis
    using g1 g2 by (simp add: doDeserialize_def)
qed

theorem bytecodeVersion_ignores_patch_level_witness:
  "runs_LuaJIT sample_extern (sample_State (sample_jit ''LuaJIT 2.0.3'' 20003) []) ''LuaJIT 2.0.3''
     (2 * 10000 + 0 * 100 + 3)
   \<and> runs_LuaJIT sample_extern (sample_State (sample_jit ''LuaJIT 2.0.4'' 20004) []) ''LuaJIT 2.0.4''
     (2 * 10000 + 0 * 100 + 4)
   \<and> (2 :: int) \<le> 2 \<and> (0 :: int) \<le> 0 \<and> (0 :: int) \<le> 3 \<and> (3 :: int) < 100
   \<and> (0 :: int) \<le> 4 \<and> (4 :: int) < 100
   \<and> sformat_04d (2 * 100 + 0) = ''0200''
   \<and> (\<exists>v1 v2. getVersion sample_extern (sample_State (sample_jit ''LuaJIT 2.0.3'' 20003) []) = Inr v1
        \<and> getVersion sample_extern (sample_State (sample_jit ''LuaJIT 2.0.4'' 20004) []) = Inr v2
        \<and> bytecodeVersion v1 = ''LuaJIT:'' @ sformat_04d (2 * 100 + 0)
        \<and> bytecodeVersion v2 = bytecodeVersion v1
        \<and> doDeserialize sample_extern (sample_State (sample_jit ''LuaJIT 2.0.4'' 20004) [])
             \<lparr>outputObject = [tag_nil], luaVersionInfo = v1\<rparr>
           = Deserializer_fromThrift sample_extern 0
               (sample_State (sample_jit ''LuaJIT 2.0.4'' 20004) []) [tag_nil])"
proof -
  have h1: "runs_LuaJIT sample_extern (sample_State (sample_jit ''LuaJIT 2.0.3'' 20003) []) ''LuaJIT 2.0.3''
     (2 * 10000 + 0 * 100 + 3)"
    by (simp add: runs_LuaJIT_def sample_State_def sample_jit_def lua_getglobal_def startsWith_def
          lua_tointeger_def)
  have h2: "runs_LuaJIT sample_extern (sample_State (sample_jit ''LuaJIT 2.0.4'' 20004) []) ''LuaJIT 2.0.4''
     (2 * 10000 + 0 * 100 + 4)"
    by (simp add: runs_LuaJIT_def sample_State_def sample_jit_def lua_getglobal_def startsWith_def
          lua_tointeger_def)
  have h3: "(2 :: int) \<le> 2" "(0 :: int) \<le> 0" "(0 :: int) \<le> 3" "(3 :: int) < 100"
    "(0 :: int) \<le> 4" "(4 :: int) < 100" by simp_all
  have h4: "sformat_04d (2 * 100 + 0) = ''0200''" by (simp add: sformat_0200)
  show ?thesis
    using h1 h2 h3 h4 bytecodeVersion_ignores_patch_level [OF h1 h2 h3, of "[tag_nil]"]
    by blast
qed

section \<open>The round trip of a value graph\<close>

lemma value_okD:
  assumes "value_ok ext hs hk u obj x"
    and "serialize ext hs (m, n) x = Inr ((m', n'), bs)"
    and "graph_in obj P x" and "opaque_free x" and "refs_inv obj u P m n d"
    and "length bs \<le> f"
  shows "\<exists>w d'. deserialize f ext hk u (n, d) (bs @ rest) = Inr (w, (n', d'), rest)
                \<and> erase_identity w = erase_identity (mark_bytecode u x)
                \<and> refs_inv obj u P m' n' d' \<and> m \<subseteq>\<^sub>m m'"
  using assms unfolding value_ok_def by blast

lemma list_okD:
  assumes "list_ok ext hs hk u obj xs"
    and "serialize_list ext hs (m, n) xs = Inr ((m', n'), bs)"
    and "\<forall>x \<in> set xs. graph_in obj P x \<and> opaque_free x"
    and "refs_inv obj u P m n d" and "length bs < f"
  shows "\<exists>ws d'. deserialize_list f ext hk u (n, d) (length xs) (bs @ rest)
                    = Inr (ws, (n', d'), rest)
                \<and> map erase_identity ws = map (\<lambda>x. erase_identity (mark_bytecode u x)) xs
                \<and> refs_inv obj u P m' n' d' \<and> m \<subseteq>\<^sub>m m'"
  using assms unfolding list_ok_def by blast

lemma map_okD:
  assumes "map_ok ext hs hk u obj kv"
    and "serialize_map ext hs (m, n) kv = Inr ((m', n'), bs)"
    and "\<forall>(k, v) \<in> set kv. graph_in obj P k \<and> opaque_free k
                            \<and> graph_in obj P v \<and> opaque_free v"
    and "refs_inv obj u P m n d" and "length bs < f"
  shows "\<exists>ws d'. deserialize_map f ext hk u (n, d) (length kv) (bs @ rest)
                    = Inr (ws, (n', d'), rest)
                \<and> map (\<lambda>(k, v). (erase_identity k, erase_identity v)) ws
                    = map (\<lambda>(k, v). (erase_identity (mark_bytecode u k),
                                      erase_identity (mark_bytecode u v))) kv
                \<and> refs_inv obj u P m' n' d' \<and> m \<subseteq>\<^sub>m m'"
  using assms unfolding map_ok_def by blast

lemma serialize_nonempty: "serialize ext hs r x = Inr (r', bs) \<Longrightarrow> bs \<noteq> []"
  by (cases x; cases r)
     (auto split: option.splits sum.splits Value.splits prod.splits)

lemma list_ok_Nil: "list_ok ext hs hk u obj []"
  by (simp add: list_ok_def)

lemma list_ok_Cons:
  assumes x: "value_ok ext hs hk u obj x" and xs: "list_ok ext hs hk u obj xs"
  shows "list_ok ext hs hk u obj (x # xs)"
  unfolding list_ok_def
proof (intro allI impI)
  fix m n d P f rest m' n' bs
  assume ser: "serialize_list ext hs (m, n) (x # xs) = Inr ((m', n'), bs)"
    and wf: "\<forall>y \<in> set (x # xs). graph_in obj P y \<and> opaque_free y"
    and inv: "refs_inv obj u P m n d"
    and len: "length bs < f"
  from ser obtain m1 n1 bs1 bs2 where
    s1: "serialize ext hs (m, n) x = Inr ((m1, n1), bs1)"
    and s2: "serialize_list ext hs (m1, n1) xs = Inr ((m', n'), bs2)"
    and bs: "bs = bs1 @ bs2"
    by (auto split: sum.splits prod.splits)
  from len obtain f' where f: "f = Suc f'" by (cases f) auto
  have ne: "bs1 \<noteq> []" using s1 by (rule serialize_nonempty)
  have l1: "length bs1 \<le> f'" using len bs f by simp
  have l2: "length bs2 < f'" using len bs f ne by (cases bs1) auto
  from wf have wx: "graph_in obj P x" "opaque_free x" by auto
  from value_okD [OF x s1 wx(1) wx(2) inv l1, of "bs2 @ rest"]
  obtain w d1 where
    d1: "deserialize f' ext hk u (n, d) (bs1 @ bs2 @ rest) = Inr (w, (n1, d1), bs2 @ rest)"
    and e1: "erase_identity w = erase_identity (mark_bytecode u x)"
    and i1: "refs_inv obj u P m1 n1 d1" and le1: "m \<subseteq>\<^sub>m m1"
    by auto
  from wf have wxs: "\<forall>y \<in> set xs. graph_in obj P y \<and> opaque_free y"
    by auto
  from list_okD [OF xs s2 wxs i1 l2, of rest]
  obtain ws d2 where
    d2: "deserialize_list f' ext hk u (n1, d1) (length xs) (bs2 @ rest) = Inr (ws, (n', d2), rest)"
    and e2: "map erase_identity ws = map (\<lambda>x. erase_identity (mark_bytecode u x)) xs"
    and i2: "refs_inv obj u P m' n' d2" and le2: "m1 \<subseteq>\<^sub>m m'"
    by auto
  have "deserialize_list f ext hk u (n, d) (length (x # xs)) (bs @ rest)
          = Inr (w # ws, (n', d2), rest)"
    using d1 d2 by (simp add: f bs)
  moreover have "map erase_identity (w # ws)
                   = map (\<lambda>x. erase_identity (mark_bytecode u x)) (x # xs)"
    using e1 e2 by simp
  moreover have "m \<subseteq>\<^sub>m m'" using le1 le2 by (rule map_le_trans)
  ultimately show "\<exists>ws d'. deserialize_list f ext hk u (n, d) (length (x # xs)) (bs @ rest)
                    = Inr (ws, (n', d'), rest)
                \<and> map erase_identity ws = map (\<lambda>x. erase_identity (mark_bytecode u x)) (x # xs)
                \<and> refs_inv obj u P m' n' d' \<and> m \<subseteq>\<^sub>m m'"
    using i2 by blast
qed

lemma list_ok_all: "(\<And>x. x \<in> set xs \<Longrightarrow> value_ok ext hs hk u obj x) \<Longrightarrow> list_ok ext hs hk u obj xs"
  by (induction xs) (simp_all add: list_ok_Nil list_ok_Cons)


lemma map_ok_Nil: "map_ok ext hs hk u obj []"
  by (simp add: map_ok_def)

lemma map_ok_Cons:
  assumes k: "value_ok ext hs hk u obj k" and v: "value_ok ext hs hk u obj v"
    and kv: "map_ok ext hs hk u obj kv"
  shows "map_ok ext hs hk u obj ((k, v) # kv)"
  unfolding map_ok_def
proof (intro allI impI)
  fix m n d P f rest m' n' bs
  assume ser: "serialize_map ext hs (m, n) ((k, v) # kv) = Inr ((m', n'), bs)"
    and wf: "\<forall>(k, v) \<in> set ((k, v) # kv).
               graph_in obj P k \<and> opaque_free k \<and> graph_in obj P v \<and> opaque_free v"
    and inv: "refs_inv obj u P m n d"
    and len: "length bs < f"
  from ser obtain m1 n1 bs1 m2 n2 bs2 bs3 where
    s1: "serialize ext hs (m, n) k = Inr ((m1, n1), bs1)"
    and s2: "serialize ext hs (m1, n1) v = Inr ((m2, n2), bs2)"
    and s3: "serialize_map ext hs (m2, n2) kv = Inr ((m', n'), bs3)"
    and bs: "bs = bs1 @ bs2 @ bs3"
    by (auto split: sum.splits prod.splits)
  from len obtain f' where f: "f = Suc f'" by (cases f) auto
  have ne1: "bs1 \<noteq> []" using s1 by (rule serialize_nonempty)
  have l1: "length bs1 \<le> f'" using len bs f by simp
  have l2: "length bs2 \<le> f'" using len bs f by simp
  have l3: "length bs3 < f'" using len bs f ne1 by (cases bs1) auto
  from wf have wk: "graph_in obj P k" "opaque_free k"
    and wv: "graph_in obj P v" "opaque_free v"
    by auto
  from value_okD [OF k s1 wk(1) wk(2) inv l1, of "bs2 @ bs3 @ rest"]
  obtain w1 d1 where
    d1: "deserialize f' ext hk u (n, d) (bs1 @ bs2 @ bs3 @ rest)
           = Inr (w1, (n1, d1), bs2 @ bs3 @ rest)"
    and e1: "erase_identity w1 = erase_identity (mark_bytecode u k)"
    and i1: "refs_inv obj u P m1 n1 d1" and le1: "m \<subseteq>\<^sub>m m1"
    by auto
  from value_okD [OF v s2 wv(1) wv(2) i1 l2, of "bs3 @ rest"]
  obtain w2 d2 where
    d2: "deserialize f' ext hk u (n1, d1) (bs2 @ bs3 @ rest) = Inr (w2, (n2, d2), bs3 @ rest)"
    and e2: "erase_identity w2 = erase_identity (mark_bytecode u v)"
    and i2: "refs_inv obj u P m2 n2 d2" and le2: "m1 \<subseteq>\<^sub>m m2"
    by auto
  from wf have wkv: "\<forall>(k, v) \<in> set kv.
               graph_in obj P k \<and> opaque_free k \<and> graph_in obj P v \<and> opaque_free v"
    by auto
  from map_okD [OF kv s3 wkv i2 l3, of rest]
  obtain ws d3 where
    d3: "deserialize_map f' ext hk u (n2, d2) (length kv) (bs3 @ rest) = Inr (ws, (n', d3), rest)"
    and e3: "map (\<lambda>(k, v). (erase_identity k, erase_identity v)) ws
               = map (\<lambda>(k, v). (erase_identity (mark_bytecode u k),
                                 erase_identity (mark_bytecode u v))) kv"
    and i3: "refs_inv obj u P m' n' d3" and le3: "m2 \<subseteq>\<^sub>m m'"
    by auto
  have "deserialize_map f ext hk u (n, d) (length ((k, v) # kv)) (bs @ rest)
          = Inr ((w1, w2) # ws, (n', d3), rest)"
    using d1 d2 d3 by (simp add: f bs)
  moreover have "map (\<lambda>(k, v). (erase_identity k, erase_identity v)) ((w1, w2) # ws)
               = map (\<lambda>(k, v). (erase_identity (mark_bytecode u k),
                                 erase_identity (mark_bytecode u v))) ((k, v) # kv)"
    using e1 e2 e3 by simp
  moreover have "m \<subseteq>\<^sub>m m'" using le1 le2 le3 by (blast intro: map_le_trans)
  ultimately show "\<exists>ws d'. deserialize_map f ext hk u (n, d) (length ((k, v) # kv)) (bs @ rest)
                    = Inr (ws, (n', d'), rest)
                \<and> map (\<lambda>(k, v). (erase_identity k, erase_identity v)) ws
                    = map (\<lambda>(k, v). (erase_identity (mark_bytecode u k),
                                      erase_identity (mark_bytecode u v))) ((k, v) # kv)
                \<and> refs_inv obj u P m' n' d' \<and> m \<subseteq>\<^sub>m m'"
    using i3 by blast
qed

lemma map_ok_all:
  "(\<And>k v. (k, v) \<in> set kv \<Longrightarrow> value_ok ext hs hk u obj k \<and> value_ok ext hs hk u obj v)
   \<Longrightarrow> map_ok ext hs hk u obj kv"
proof (induction kv)
  case Nil
  show ?case by (rule map_ok_Nil)
next
  case (Cons p kv)
  obtain k v where p: "p = (k, v)" by (cases p)
  have "value_ok ext hs hk u obj k" "value_ok ext hs hk u obj v"
    using Cons.prems [of k v] p by simp_all
  moreover have "map_ok ext hs hk u obj kv"
    by (rule Cons.IH) (use Cons.prems in auto)
  ultimately show ?case unfolding p by (rule map_ok_Cons)
qed

lemmas tag_defs = tag_nil_def tag_bool_def tag_int_def tag_float_def tag_string_def
  tag_table_def tag_function_def tag_backref_def tag_opaque_def

lemma value_ok_VNil: "value_ok ext hs hk u obj VNil"
  unfolding value_ok_def
proof (intro allI impI)
  fix m n d P f rest m' n' bs
  assume ser: "serialize ext hs (m, n) VNil = Inr ((m', n'), bs)"
    and inv: "refs_inv obj u P m n d" and len: "length bs \<le> f"
  from ser have eq: "m' = m" "n' = n" "bs = [tag_nil]" by auto
  from len eq obtain f' where f: "f = Suc f'" by (cases f) auto
  show "\<exists>w d'. deserialize f ext hk u (n, d) (bs @ rest) = Inr (w, (n', d'), rest)
          \<and> erase_identity w = erase_identity (mark_bytecode u VNil)
          \<and> refs_inv obj u P m' n' d' \<and> m \<subseteq>\<^sub>m m'"
    using inv by (simp add: eq f)
qed

lemma value_ok_VBool: "value_ok ext hs hk u obj (VBool b)"
  unfolding value_ok_def
proof (intro allI impI)
  fix m n d P f rest m' n' bs
  assume ser: "serialize ext hs (m, n) (VBool b) = Inr ((m', n'), bs)"
    and inv: "refs_inv obj u P m n d" and len: "length bs \<le> f"
  from ser have eq: "m' = m" "n' = n" "bs = [tag_bool, if b then CHR 0x01 else CHR 0x00]" by auto
  from len eq obtain f' where f: "f = Suc f'" by (cases f) auto
  show "\<exists>w d'. deserialize f ext hk u (n, d) (bs @ rest) = Inr (w, (n', d'), rest)
          \<and> erase_identity w = erase_identity (mark_bytecode u (VBool b))
          \<and> refs_inv obj u P m' n' d' \<and> m \<subseteq>\<^sub>m m'"
    using inv by (simp add: eq f tag_defs)
qed

lemma value_ok_VInt: "value_ok ext hs hk u obj (VInt i)"
  unfolding value_ok_def
proof (intro allI impI)
  fix m n d P f rest m' n' bs
  assume ser: "serialize ext hs (m, n) (VInt i) = Inr ((m', n'), bs)"
    and inv: "refs_inv obj u P m n d" and len: "length bs \<le> f"
  from ser have eq: "m' = m" "n' = n" "bs = tag_int # put_varint (zigzag i)" by auto
  from len eq obtain f' where f: "f = Suc f'" by (cases f) auto
  show "\<exists>w d'. deserialize f ext hk u (n, d) (bs @ rest) = Inr (w, (n', d'), rest)
          \<and> erase_identity w = erase_identity (mark_bytecode u (VInt i))
          \<and> refs_inv obj u P m' n' d' \<and> m \<subseteq>\<^sub>m m'"
    using inv by (simp add: eq f tag_defs get_put_varint unzigzag_zigzag)
qed

lemma value_ok_VFloat: "value_ok ext hs hk u obj (VFloat x)"
  unfolding value_ok_def
proof (intro allI impI)
  fix m n d P f rest m' n' bs
  assume ser: "serialize ext hs (m, n) (VFloat x) = Inr ((m', n'), bs)"
    and inv: "refs_inv obj u P m n d" and len: "length bs \<le> f"
  from ser have eq: "m' = m" "n' = n" "bs = tag_float # put_varint (unat x)" by auto
  from len eq obtain f' where f: "f = Suc f'" by (cases f) auto
  show "\<exists>w d'. deserialize f ext hk u (n, d) (bs @ rest) = Inr (w, (n', d'), rest)
          \<and> erase_identity w = erase_identity (mark_bytecode u (VFloat x))
          \<and> refs_inv obj u P m' n' d' \<and> m \<subseteq>\<^sub>m m'"
    using inv by (simp add: eq f tag_defs get_put_varint)
qed

lemma value_ok_VByteString: "value_ok ext hs hk u obj (VByteString s)"
  unfolding value_ok_def
proof (intro allI impI)
  fix m n d P f rest m' n' bs
  assume ser: "serialize ext hs (m, n) (VByteString s) = Inr ((m', n'), bs)"
    and inv: "refs_inv obj u P m n d" and len: "length bs \<le> f"
  from ser have eq: "m' = m" "n' = n" "bs = tag_string # put_string s" by auto
  from len eq obtain f' where f: "f = Suc f'" by (cases f) auto
  show "\<exists>w d'. deserialize f ext hk u (n, d) (bs @ rest) = Inr (w, (n', d'), rest)
          \<and> erase_identity w = erase_identity (mark_bytecode u (VByteString s))
          \<and> refs_inv obj u P m' n' d' \<and> m \<subseteq>\<^sub>m m'"
    using inv by (simp add: eq f tag_defs get_put_string)
qed

lemma value_ok_VOpaque: "value_ok ext hs hk u obj (VOpaque h)"
  by (simp add: value_ok_def)




lemma refs_inv_enter:
  assumes inv: "refs_inv obj u P m n d" and a: "m a = None" and x: "obj a = Some x"
    and e: "erase_identity w = erase_identity (mark_bytecode u (shell x))"
  shows "refs_inv obj u (insert a P) (m(a \<mapsto> n)) (Suc n) (d(n \<mapsto> w))"
  unfolding refs_inv_def
proof (intro conjI allI impI)
  fix b i assume "(m(a \<mapsto> n)) b = Some i"
  then show "i < Suc n"
    using inv by (auto simp: refs_inv_def less_Suc_eq split: if_splits)
next
  fix b c i assume "(m(a \<mapsto> n)) b = Some i" and "(m(a \<mapsto> n)) c = Some i"
  then show "b = c"
    using inv unfolding refs_inv_def
    by (cases "b = a"; cases "c = a") (auto dest: less_irrefl_nat)
next
  show "insert a P \<subseteq> dom (m(a \<mapsto> n))"
    using inv unfolding refs_inv_def by auto
next
  fix b i assume b: "(m(a \<mapsto> n)) b = Some i"
  show "\<exists>x w'. obj b = Some x \<and> (d(n \<mapsto> w)) i = Some w'
               \<and> erase_identity w'
                   = erase_identity (mark_bytecode u (if b \<in> insert a P then shell x else x))"
  proof (cases "b = a")
    case True
    then have "i = n" using b by simp
    then show ?thesis using True x e by simp
  next
    case False
    then have mb: "m b = Some i" using b by simp
    then have "i < n" using inv unfolding refs_inv_def by blast
    then have ne: "i \<noteq> n" by simp
    have "\<exists>x w'. obj b = Some x \<and> d i = Some w'
               \<and> erase_identity w' = erase_identity (mark_bytecode u (if b \<in> P then shell x else x))"
      using inv mb unfolding refs_inv_def by blast
    then show ?thesis using ne False by simp
  qed
qed

lemma refs_inv_leave:
  assumes inv: "refs_inv obj u (insert a P) m n d" and a: "m a = Some i"
    and x: "obj a = Some x" and e: "erase_identity w = erase_identity (mark_bytecode u x)"
    and P: "a \<notin> P"
  shows "refs_inv obj u P m n (d(i \<mapsto> w))"
  unfolding refs_inv_def
proof (intro conjI allI impI)
  fix b j assume "m b = Some j"
  then show "j < n" using inv by (auto simp: refs_inv_def)
next
  fix b c j assume "m b = Some j" and "m c = Some j"
  then show "b = c" using inv unfolding refs_inv_def by blast
next
  show "P \<subseteq> dom m" using inv unfolding refs_inv_def by auto
next
  fix b j assume b: "m b = Some j"
  show "\<exists>x w'. obj b = Some x \<and> (d(i \<mapsto> w)) j = Some w'
               \<and> erase_identity w'
                   = erase_identity (mark_bytecode u (if b \<in> P then shell x else x))"
  proof (cases "b = a")
    case True
    then have "j = i" using a b by simp
    then show ?thesis using True x e P by simp
  next
    case False
    then have "j \<noteq> i" using a b inv unfolding refs_inv_def by blast
    moreover have "\<exists>x w'. obj b = Some x \<and> d j = Some w'
               \<and> erase_identity w'
                   = erase_identity (mark_bytecode u (if b \<in> insert a P then shell x else x))"
      using inv b unfolding refs_inv_def by blast
    ultimately show ?thesis using False by simp
  qed
qed

lemma map_le_upd_fresh:
  assumes "m(a \<mapsto> n) \<subseteq>\<^sub>m m'" and "m a = None"
  shows "m \<subseteq>\<^sub>m m'"
  unfolding map_le_def
proof
  fix b assume b: "b \<in> dom m"
  then have ne: "b \<noteq> a" using assms(2) by auto
  then have "b \<in> dom (m(a \<mapsto> n))" using b by simp
  with assms(1) have "(m(a \<mapsto> n)) b = m' b" unfolding map_le_def by blast
  then show "m b = m' b" using ne by simp
qed

lemma value_ok_backref:
  assumes x: "x = VTable a arr kv \<or> x = VFunction a fl bc ups"
    and m: "m a = Some i" and wf: "graph_in obj P x" and inv: "refs_inv obj u P m n d"
    and f: "f = Suc f'"
  shows "\<exists>w. deserialize f ext hk u (n, d) ((tag_backref # put_varint i) @ rest)
               = Inr (w, (n, d), rest)
             \<and> erase_identity w = erase_identity (mark_bytecode u x)"
proof -
  obtain x' w where o: "obj a = Some x'" and dw: "d i = Some w"
    and e: "erase_identity w
              = erase_identity (mark_bytecode u (if a \<in> P then shell x' else x'))"
    using inv m unfolding refs_inv_def by blast
  have "(if a \<in> P then shell x' else x') = x"
    using x wf o by (auto split: if_splits)
  then show ?thesis using dw e by (simp add: f tag_defs get_put_varint)
qed

lemma value_ok_VTable:
  assumes arr: "list_ok ext hs hk u obj arr" and kv: "map_ok ext hs hk u obj kv"
  shows "value_ok ext hs hk u obj (VTable a arr kv)"
  unfolding value_ok_def
proof (intro allI impI)
  fix m n d P f rest m' n' bs
  assume ser: "serialize ext hs (m, n) (VTable a arr kv) = Inr ((m', n'), bs)"
    and wf: "graph_in obj P (VTable a arr kv)" and of: "opaque_free (VTable a arr kv)"
    and inv: "refs_inv obj u P m n d"
    and len: "length bs \<le> f"
  have ne: "bs \<noteq> []" using ser by (rule serialize_nonempty)
  with len obtain f' where f: "f = Suc f'" by (cases f) auto
  show "\<exists>w d'. deserialize f ext hk u (n, d) (bs @ rest) = Inr (w, (n', d'), rest)
          \<and> erase_identity w = erase_identity (mark_bytecode u (VTable a arr kv))
          \<and> refs_inv obj u P m' n' d' \<and> m \<subseteq>\<^sub>m m'"
  proof (cases "m a")
    case (Some i)
    with ser have eq: "m' = m" "n' = n" "bs = tag_backref # put_varint i" by auto
    from value_ok_backref [OF disjI1 [OF refl] Some wf inv f, of ext hk rest]
    show ?thesis using inv by (auto simp: eq)
  next
    case None
    then have aP: "a \<notin> P" using inv unfolding refs_inv_def by auto
    with ser None obtain m1 n1 bs1 bs2 where
      s1: "serialize_list ext hs (m(a \<mapsto> n), Suc n) arr = Inr ((m1, n1), bs1)"
      and s2: "serialize_map ext hs (m1, n1) kv = Inr ((m', n'), bs2)"
      and bs: "bs = tag_table # put_varint (length arr) @ bs1 @ put_varint (length kv) @ bs2"
      by (auto split: sum.splits prod.splits)
    have lb: "length bs = 1 + length (put_varint (length arr)) + length bs1
                + length (put_varint (length kv)) + length bs2"
      by (simp add: bs)
    have l1: "length bs1 < f'" and l2: "length bs2 < f'"
      using len f lb length_put_varint [of "length arr"] length_put_varint [of "length kv"]
      by linarith+
    have oa: "obj a = Some (VTable a arr kv)" using wf aP by simp
    have inv0: "refs_inv obj u (insert a P) (m(a \<mapsto> n)) (Suc n) (d(n \<mapsto> VTable n [] []))"
      using inv None oa by (rule refs_inv_enter) simp
    have w1: "\<forall>x \<in> set arr. graph_in obj (insert a P) x \<and> opaque_free x"
      using wf of aP by auto
    have w2: "\<forall>(k, v) \<in> set kv.
                graph_in obj (insert a P) k \<and> opaque_free k
                \<and> graph_in obj (insert a P) v \<and> opaque_free v"
      using wf of aP by fastforce
    from list_okD [OF arr s1 w1 inv0 l1, of "put_varint (length kv) @ bs2 @ rest"]
    obtain ws d1 where
      d1: "deserialize_list f' ext hk u (Suc n, d(n \<mapsto> VTable n [] [])) (length arr)
             (bs1 @ put_varint (length kv) @ bs2 @ rest)
             = Inr (ws, (n1, d1), put_varint (length kv) @ bs2 @ rest)"
      and e1: "map erase_identity ws = map (\<lambda>x. erase_identity (mark_bytecode u x)) arr"
      and i1: "refs_inv obj u (insert a P) m1 n1 d1" and le1: "m(a \<mapsto> n) \<subseteq>\<^sub>m m1"
      by auto
    from map_okD [OF kv s2 w2 i1 l2, of rest]
    obtain kvs d2 where
      d2: "deserialize_map f' ext hk u (n1, d1) (length kv) (bs2 @ rest)
             = Inr (kvs, (n', d2), rest)"
      and e2: "map (\<lambda>(k, v). (erase_identity k, erase_identity v)) kvs
                 = map (\<lambda>(k, v). (erase_identity (mark_bytecode u k),
                                   erase_identity (mark_bytecode u v))) kv"
      and i2: "refs_inv obj u (insert a P) m' n' d2" and le2: "m1 \<subseteq>\<^sub>m m'"
      by auto
    let ?w = "VTable n ws kvs"
    have dec: "deserialize f ext hk u (n, d) (bs @ rest) = Inr (?w, (n', d2(n \<mapsto> ?w)), rest)"
      using d1 d2 by (simp add: f bs tag_defs get_put_varint)
    have er: "erase_identity ?w = erase_identity (mark_bytecode u (VTable a arr kv))"
      using e1 e2 by (simp add: comp_def case_prod_unfold)
    have "m(a \<mapsto> n) \<subseteq>\<^sub>m m'" using le1 le2 by (rule map_le_trans)
    then have ma: "m' a = Some n" by (auto simp: map_le_def)
    have mm: "m \<subseteq>\<^sub>m m'"
      using \<open>m(a \<mapsto> n) \<subseteq>\<^sub>m m'\<close> None by (rule map_le_upd_fresh)
    have "refs_inv obj u P m' n' (d2(n \<mapsto> ?w))"
      using i2 ma oa er aP by (rule refs_inv_leave)
    then show ?thesis using dec er mm by blast
  qed
qed

lemma value_ok_VFunction:
  assumes ups: "list_ok ext hs hk u obj ups"
  shows "value_ok ext hs hk u obj (VFunction a fl bc ups)"
  unfolding value_ok_def
proof (intro allI impI)
  fix m n d P f rest m' n' bs
  assume ser: "serialize ext hs (m, n) (VFunction a fl bc ups) = Inr ((m', n'), bs)"
    and wf: "graph_in obj P (VFunction a fl bc ups)" and of: "opaque_free (VFunction a fl bc ups)"
    and inv: "refs_inv obj u P m n d"
    and len: "length bs \<le> f"
  have ne: "bs \<noteq> []" using ser by (rule serialize_nonempty)
  with len obtain f' where f: "f = Suc f'" by (cases f) auto
  show "\<exists>w d'. deserialize f ext hk u (n, d) (bs @ rest) = Inr (w, (n', d'), rest)
          \<and> erase_identity w = erase_identity (mark_bytecode u (VFunction a fl bc ups))
          \<and> refs_inv obj u P m' n' d' \<and> m \<subseteq>\<^sub>m m'"
  proof (cases "m a")
    case (Some i)
    with ser have eq: "m' = m" "n' = n" "bs = tag_backref # put_varint i" by auto
    from value_ok_backref [OF disjI2 [OF refl] Some wf inv f, of ext hk rest]
    show ?thesis using inv by (auto simp: eq)
  next
    case None
    then have aP: "a \<notin> P" using inv unfolding refs_inv_def by auto
    with ser None obtain bs1 where
      s1: "serialize_list ext hs (m(a \<mapsto> n), Suc n) ups = Inr ((m', n'), bs1)"
      and bs: "bs = tag_function # put_string bc @ put_varint (length ups) @ bs1"
      by (auto split: sum.splits prod.splits)
    have lb: "length bs = 1 + length (put_string bc) + length (put_varint (length ups))
                + length bs1"
      by (simp add: bs)
    have l1: "length bs1 < f'"
      using len f lb length_put_varint [of "length ups"] by linarith
    have oa: "obj a = Some (VFunction a fl bc ups)" using wf aP by simp
    have inv0: "refs_inv obj u (insert a P) (m(a \<mapsto> n)) (Suc n) (d(n \<mapsto> VFunction n u bc []))"
      using inv None oa by (rule refs_inv_enter) simp
    have w1: "\<forall>x \<in> set ups. graph_in obj (insert a P) x \<and> opaque_free x"
      using wf of aP by auto
    from list_okD [OF ups s1 w1 inv0 l1, of rest]
    obtain ws d1 where
      d1: "deserialize_list f' ext hk u (Suc n, d(n \<mapsto> VFunction n u bc [])) (length ups)
             (bs1 @ rest) = Inr (ws, (n', d1), rest)"
      and e1: "map erase_identity ws = map (\<lambda>x. erase_identity (mark_bytecode u x)) ups"
      and i1: "refs_inv obj u (insert a P) m' n' d1" and le1: "m(a \<mapsto> n) \<subseteq>\<^sub>m m'"
      by auto
    let ?w = "VFunction n u bc ws"
    have dec: "deserialize f ext hk u (n, d) (bs @ rest) = Inr (?w, (n', d1(n \<mapsto> ?w)), rest)"
      using d1 by (simp add: f bs tag_defs get_put_varint get_put_string)
    have er: "erase_identity ?w = erase_identity (mark_bytecode u (VFunction a fl bc ups))"
      using e1 by (simp add: comp_def)
    have ma: "m' a = Some n" using le1 by (auto simp: map_le_def)
    have mm: "m \<subseteq>\<^sub>m m'" using le1 None by (rule map_le_upd_fresh)
    have "refs_inv obj u P m' n' (d1(n \<mapsto> ?w))"
      using i1 ma oa er aP by (rule refs_inv_leave)
    then show ?thesis using dec er mm by blast
  qed
qed

lemma value_ok_all: "value_ok ext hs hk u obj x"
proof (induction x)
  case (VTable a arr kv)
  have "list_ok ext hs hk u obj arr"
    by (rule list_ok_all) (rule VTable.IH(1))
  moreover have "map_ok ext hs hk u obj kv"
  proof (rule map_ok_all)
    fix k v assume kv: "(k, v) \<in> set kv"
    show "value_ok ext hs hk u obj k \<and> value_ok ext hs hk u obj v"
      using VTable.IH(2) [OF kv, of k] VTable.IH(3) [OF kv, of v] by simp
  qed
  ultimately show ?case by (rule value_ok_VTable)
next
  case (VFunction a fl bc ups)
  have "list_ok ext hs hk u obj ups"
    by (rule list_ok_all) (rule VFunction.IH)
  then show ?case by (rule value_ok_VFunction)
qed (simp_all add: value_ok_VNil value_ok_VBool value_ok_VInt value_ok_VFloat
       value_ok_VByteString value_ok_VOpaque)

lemma serialize_succeeds:
  "opaque_free x \<Longrightarrow> \<exists>r' bs. serialize ext hs r x = Inr (r', bs)"
  and serialize_list_succeeds:
  "\<forall>x \<in> set xs. opaque_free x \<Longrightarrow> \<exists>r' bs. serialize_list ext hs r xs = Inr (r', bs)"
  and serialize_map_succeeds:
  "\<forall>(k, v) \<in> set kv. opaque_free k \<and> opaque_free v
     \<Longrightarrow> \<exists>r' bs. serialize_map ext hs r kv = Inr (r', bs)"
proof (induction ext hs r x and ext hs r xs and ext hs r kv
       rule: serialize_serialize_list_serialize_map.induct)
  case (6 ext hook m n a arr kv)
  show ?case
  proof (cases "m a")
    case (Some i)
    then show ?thesis by simp
  next
    case None
    from 6(1) [OF None] 6(3) obtain r1 bs1 where
      s1: "serialize_list ext hook (m(a \<mapsto> n), Suc n) arr = Inr (r1, bs1)" by auto
    from 6(2) [OF None s1 refl] 6(3) obtain r2 bs2 where
      "serialize_map ext hook r1 kv = Inr (r2, bs2)" by auto
    then show ?thesis using None s1 by (auto split: prod.splits)
  qed
next
  case (7 ext hook m n a u bc ups)
  show ?case
  proof (cases "m a")
    case (Some i)
    then show ?thesis by simp
  next
    case None
    from 7(1) [OF None] 7(2) obtain r1 bs1 where
      "serialize_list ext hook (m(a \<mapsto> n), Suc n) ups = Inr (r1, bs1)" by auto
    then show ?thesis using None by (auto split: prod.splits)
  qed
next
  case (10 ext hook r x xs)
  from 10(1) 10(3) obtain r1 bs1 where s1: "serialize ext hook r x = Inr (r1, bs1)" by auto
  from 10(2) [OF s1 refl] 10(3) obtain r2 bs2 where
    "serialize_list ext hook r1 xs = Inr (r2, bs2)" by auto
  then show ?case using s1 by (auto split: prod.splits)
next
  case (12 ext hook r k v kv)
  from 12(1) 12(4) obtain r1 bs1 where s1: "serialize ext hook r k = Inr (r1, bs1)" by auto
  from 12(2) [OF s1 refl] 12(4) obtain r2 bs2 where
    s2: "serialize ext hook r1 v = Inr (r2, bs2)" by auto
  from 12(3) [OF s1 refl s2 refl] 12(4) obtain r3 bs3 where
    "serialize_map ext hook r2 kv = Inr (r3, bs3)" by auto
  then show ?case using s1 s2 by (auto split: prod.splits)
qed simp_all


lemma refs_inv_empty: "refs_inv obj u {} Map.empty 0 Map.empty"
  by (simp add: refs_inv_def)

lemma graph_in_wf_in:
  "wf_in obj v \<Longrightarrow> A \<inter> set (idents v) = {} \<Longrightarrow> graph_in obj A v"
proof (induction v arbitrary: A)
  case (VTable a arr kv)
  have a: "a \<notin> A" using VTable.prems(2) by auto
  have "graph_in obj (insert a A) x" if x: "x \<in> set arr" for x
    using VTable.IH(1) [OF x, of "insert a A"] VTable.prems x by auto
  moreover have "graph_in obj (insert a A) k \<and> graph_in obj (insert a A) w"
    if p: "(k, w) \<in> set kv" for k w
  proof -
    have "wf_in obj k" "wf_in obj w" "a \<notin> set (idents k)" "a \<notin> set (idents w)"
      using VTable.prems(1) p by auto
    moreover have "A \<inter> set (idents k) = {}" "A \<inter> set (idents w) = {}"
      using VTable.prems(2) p by fastforce+
    ultimately show ?thesis
      using VTable.IH(2) [OF p, of k "insert a A"] VTable.IH(3) [OF p, of w "insert a A"]
      by auto
  qed
  ultimately show ?case using a VTable.prems(1) by auto
next
  case (VFunction a fl bc ups)
  have a: "a \<notin> A" using VFunction.prems(2) by auto
  have "graph_in obj (insert a A) x" if x: "x \<in> set ups" for x
    using VFunction.IH [OF x, of "insert a A"] VFunction.prems x by auto
  then show ?case using a VFunction.prems(1) by auto
qed simp_all

lemma acyclic_value_graph: "acyclic_graph v \<Longrightarrow> value_graph v"
  unfolding acyclic_graph_def value_graph_def by (rule graph_in_wf_in) simp_all

lemma deserialize_serialize:
  assumes wf: "value_graph v" and of: "opaque_free v"
    and ser: "serialize ext hs (Map.empty, 0) v = Inr (r, bs)"
  shows "\<exists>w r'. deserialize (length bs) ext hk u (0, Map.empty) bs = Inr (w, r', [])
           \<and> erase_identity w = erase_identity (mark_bytecode u v)"
proof -
  obtain m' n' where r: "r = (m', n')" by (cases r)
  have ok: "value_ok ext hs hk u (map_of (objects v)) v" by (rule value_ok_all)
  from value_okD [OF ok ser [unfolded r] wf [unfolded value_graph_def] of refs_inv_empty,
      of "length bs" "[]"]
  show ?thesis by auto
qed

lemma fromThrift_serialize:
  assumes "value_graph v" and "opaque_free v"
    and "serialize ext hs (Map.empty, 0) v = Inr (r, obj)"
  shows "\<exists>w. Deserializer_fromThrift ext options L obj = Inr w
           \<and> erase_identity w = erase_identity (mark_bytecode (options AND NO_BYTECODE = 0) v)"
  using deserialize_serialize [OF assms, of "deserializationCallback L" "options AND NO_BYTECODE = 0"]
  by (auto simp: Deserializer_fromThrift_def)

lemma min_kFormatVersion: "min kFormatVersion kAnyVersion = kFormatVersion"
  by (simp add: kFormatVersion_def kAnyVersion_def)

lemma encode_StringWriter:
  assumes "getCodec ext cid = Returns cdc"
  shows "encode ext obj cid ver StringWriter kAnyVersion lim =
    Inr (StringWriter\<lparr>sink := put_envelope
           \<lparr>magic = kMagic, formatVersion = kFormatVersion, producer = ver, codecId = cid,
            chunkSizeLimit = lim,
            chunks = map (compress cdc) (split_chunks (unat lim) obj)\<rparr>\<rparr>)"
  using assms by (simp add: encode_def StringWriter_def min_kFormatVersion)

lemma decode_put_envelope:
  assumes g: "getCodec ext cid = Returns cdc"
    and sym: "\<forall>bs. uncompress cdc (compress cdc bs) = Some bs"
  shows "decode ext (put_envelope
           \<lparr>magic = kMagic, formatVersion = kFormatVersion, producer = ver, codecId = cid,
            chunkSizeLimit = lim,
            chunks = map (compress cdc) (split_chunks (unat lim) obj)\<rparr>)
         = Inr (\<lparr>outputObject = obj, luaVersionInfo = ver\<rparr>, [])"
proof -
  let ?e = "\<lparr>magic = kMagic, formatVersion = kFormatVersion, producer = ver, codecId = cid,
            chunkSizeLimit = lim,
            chunks = map (compress cdc) (split_chunks (unat lim) obj)\<rparr>"
  have "get_envelope ext (put_envelope ?e @ []) = Inr (?e, cdc, [])"
    by (rule get_put_envelope) (simp_all add: g kFormatVersion_def)
  then have ge: "get_envelope ext (put_envelope ?e) = Inr (?e, cdc, [])" by simp
  have "uncompress_all cdc (map (compress cdc) (split_chunks (unat lim) obj))
          = Some (split_chunks (unat lim) obj)"
    by (rule uncompress_all_compress) (simp add: sym)
  then show ?thesis
    by (simp add: decode_def ge concat_split_chunks)
qed

lemma payload_decodes:
  assumes wf: "value_graph v" and of: "opaque_free v"
    and ser: "serialize ext hs (Map.empty, 0) v = Inr (r, obj)"
    and g: "getCodec ext cid = Returns cdc"
    and sym: "\<forall>bs. uncompress cdc (compress cdc bs) = Some bs"
    and cv: "getVersion ext Lc = Inr cv"
    and arg: "lua_index Lc 1 = Some (VByteString (put_envelope
           \<lparr>magic = kMagic, formatVersion = kFormatVersion, producer = pv, codecId = cid,
            chunkSizeLimit = lim,
            chunks = map (compress cdc) (split_chunks (unat lim) obj)\<rparr>))"
  shows "\<exists>w. deserializeFromString ext Lc = Inr w
           \<and> erase_identity w = erase_identity
               (mark_bytecode (bytecodeVersion pv \<noteq> [] \<and> bytecodeVersion pv = bytecodeVersion cv) v)"
proof -
  let ?mis = "bytecodeVersion pv = [] \<or> bytecodeVersion pv \<noteq> bytecodeVersion cv"
  let ?opts = "if ?mis then (0 :: 32 word) OR NO_BYTECODE else 0"
  have u: "(?opts AND NO_BYTECODE = 0)
             = (bytecodeVersion pv \<noteq> [] \<and> bytecodeVersion pv = bytecodeVersion cv)"
    by (auto simp: NO_BYTECODE_def)
  have dd: "deserializeFromString ext Lc = Deserializer_fromThrift ext ?opts Lc obj"
    using arg cv decode_put_envelope [OF g sym, of pv lim obj]
    by (simp add: deserializeFromString_def doDeserialize_def Let_def)
  from fromThrift_serialize [OF wf of ser, of ?opts Lc]
  obtain w where "Deserializer_fromThrift ext ?opts Lc obj = Inr w"
    and "erase_identity w = erase_identity (mark_bytecode (?opts AND NO_BYTECODE = 0) v)"
    by blast
  then show ?thesis unfolding u dd by auto
qed

lemma getVersion_stack [simp]: "getVersion ext (L\<lparr>stack := s\<rparr>) = getVersion ext L"
  by (simp add: getVersion_def lua_getglobal_def)

lemma mark_bytecode_function_free: "function_free v \<Longrightarrow> mark_bytecode u v = v"
proof (induction v)
  case (VTable a arr kv)
  have "map (mark_bytecode u) arr = arr"
    using VTable by (auto intro: map_idI)
  moreover have "map (\<lambda>(k, v). (mark_bytecode u k, mark_bytecode u v)) kv = kv"
  proof (rule map_idI)
    fix p assume p: "p \<in> set kv"
    obtain k v where kv: "p = (k, v)" by (cases p)
    have "mark_bytecode u k = k" "mark_bytecode u v = v"
      using VTable.IH(2) [OF p, of k] VTable.IH(3) [OF p, of v] VTable.prems p kv by auto
    then show "(case p of (k, v) \<Rightarrow> (mark_bytecode u k, mark_bytecode u v)) = p"
      by (simp add: kv)
  qed
  ultimately show ?case by simp
qed simp_all

lemma toThrift_cases:
  "Serializer_toThrift ext L idx = Inr obj \<Longrightarrow>
   \<exists>v r. lua_index L idx = Some v \<and> serialize ext (serializationCallback L) (Map.empty, 0) v = Inr (r, obj)"
  by (auto simp: Serializer_toThrift_def split: option.splits sum.splits)

lemma toThrift_nonempty: "Serializer_toThrift ext L idx = Inr obj \<Longrightarrow> obj \<noteq> []"
  using toThrift_cases [of ext L idx obj] serialize_nonempty by blast

lemma toThrift_succeeds:
  "lua_index L idx = Some v \<Longrightarrow> opaque_free v \<Longrightarrow>
   \<exists>r obj. serialize ext (serializationCallback L) (Map.empty, 0) v = Inr (r, obj)
          \<and> Serializer_toThrift ext L idx = Inr obj"
  using serialize_succeeds [of v ext "serializationCallback L" "(Map.empty, 0)"]
  by (auto simp: Serializer_toThrift_def)

lemma serializeToString_explicit_codec:
  assumes st: "stack L = v # VInt c # args"
    and obj: "Serializer_toThrift ext L 1 = Inr obj"
    and ver: "getVersion ext L = Inr ver"
    and g: "getCodec ext (static_cast_CodecType c) = Returns cdc"
  shows "serializeToString ext L = Inr (put_envelope
           \<lparr>magic = kMagic, formatVersion = kFormatVersion, producer = ver,
            codecId = static_cast_CodecType c,
            chunkSizeLimit = (case luaGetNumber ext (lua_index L 3) of None \<Rightarrow> - 1 | Some k \<Rightarrow> k),
            chunks = map (compress cdc)
              (split_chunks (unat (case luaGetNumber ext (lua_index L 3) of None \<Rightarrow> - 1 | Some k \<Rightarrow> k))
                 obj)\<rparr>)"
proof -
  have t: "lua_index L 2 = Some (VInt c)" using st by (simp add: lua_index_def)
  show ?thesis
    using t obj ver encode_StringWriter [OF g]
    by (simp add: serializeToString_def lua_type_def luaL_checkinteger_def Let_def finish_def)
qed

lemma getVersion_bytecode_nonempty:
  "getVersion ext L = Inr ver \<Longrightarrow> bytecodeVersion ver \<noteq> []"
  by (auto simp: getVersion_def Let_def split: if_splits sum.splits)

lemma doDeserialize_NO_BYTECODE:
  assumes "getVersion ext L = Inr cv"
    and "bytecodeVersion (luaVersionInfo d) = []
         \<or> bytecodeVersion (luaVersionInfo d) \<noteq> bytecodeVersion cv"
  shows "doDeserialize ext L d = Deserializer_fromThrift ext NO_BYTECODE L (outputObject d)"
  using assms by (auto simp: doDeserialize_def Let_def)

text \<open>
  Claim C1. Let \<open>v\<close> be an acyclic value graph without functions and opaque values, let
  the interpreter be a LuaJIT whose version can be determined, and let the codec argument
  name a codec that the library provides and that decompresses what it compresses. Then
  for every chunk size argument (any list of further arguments: none, a number such as
  1, 16 or 4096, or anything else) \<^verbatim>\<open>serializeToString\<close> returns a string, and
  \<^verbatim>\<open>deserializeFromString\<close> of that string returns a value equal to \<open>v\<close>, the identities of
  the tables apart (they are fresh in the consumer).
\<close>

theorem roundtrip_string:
  assumes "function_free v" and "opaque_free v" and "acyclic_graph v"
    and "getVersion ext L = Inr ver"
    and "getCodec ext (static_cast_CodecType c) = Returns cdc"
    and "\<forall>bs. uncompress cdc (compress cdc bs) = Some bs"
  shows "\<exists>s w. serializeToString ext (L\<lparr>stack := v # VInt c # chunkSize\<rparr>) = Inr s
     \<and> deserializeFromString ext (L\<lparr>stack := [VByteString s]\<rparr>) = Inr w
     \<and> erase_identity w = erase_identity v"
proof -
  let ?Lp = "L\<lparr>stack := v # VInt c # chunkSize\<rparr>"
  have i1: "lua_index ?Lp 1 = Some v" by (simp add: lua_index_def)
  from toThrift_succeeds [OF i1 assms(2), of ext] obtain r obj where
    ser: "serialize ext (serializationCallback L) (Map.empty, 0) v = Inr (r, obj)"
    and tt: "Serializer_toThrift ext ?Lp 1 = Inr obj" by auto
  have gp: "getVersion ext ?Lp = Inr ver" using assms(4) by simp
  define lim where "lim = (case luaGetNumber ext (lua_index ?Lp 3) of None \<Rightarrow> - 1 | Some k \<Rightarrow> k)"
  let ?s = "put_envelope
           \<lparr>magic = kMagic, formatVersion = kFormatVersion, producer = ver,
            codecId = static_cast_CodecType c, chunkSizeLimit = lim,
            chunks = map (compress cdc) (split_chunks (unat lim) obj)\<rparr>"
  from serializeToString_explicit_codec [OF _ tt gp assms(5), of v chunkSize]
  have s: "serializeToString ext ?Lp = Inr ?s" by (simp add: lim_def)
  let ?Lc = "L\<lparr>stack := [VByteString ?s]\<rparr>"
  have gc: "getVersion ext ?Lc = Inr ver" using assms(4) by simp
  have ic: "lua_index ?Lc 1 = Some (VByteString ?s)" by (simp add: lua_index_def)
  have ne: "bytecodeVersion ver \<noteq> []" using assms(4) by (rule getVersion_bytecode_nonempty)
  from payload_decodes [OF acyclic_value_graph [OF assms(3)] assms(2) ser assms(5) assms(6) gc ic]
  obtain w where d: "deserializeFromString ext ?Lc = Inr w"
    and e: "erase_identity w = erase_identity (mark_bytecode True v)"
    using ne by auto
  have "mark_bytecode True v = v" using assms(1) by (rule mark_bytecode_function_free)
  then show ?thesis using s d e by auto
qed

theorem roundtrip_string_witness:
  "function_free sample_value \<and> opaque_free sample_value \<and> acyclic_graph sample_value
   \<and> getVersion sample_extern (sample_LuaJIT_20 [])
       = Inr \<lparr>interpreterVersion = ''LuaJIT 2.0.3'', bytecodeVersion = ''LuaJIT:0200''\<rparr>
   \<and> getCodec sample_extern (static_cast_CodecType 4)
       = Returns \<lparr>compress = rev, uncompress = (\<lambda>bs. Some (rev bs))\<rparr>
   \<and> (\<forall>bs. uncompress \<lparr>compress = rev, uncompress = (\<lambda>bs. Some (rev bs))\<rparr>
              (compress \<lparr>compress = rev, uncompress = (\<lambda>bs. Some (rev bs))\<rparr> bs) = Some bs)
   \<and> (\<exists>s w. serializeToString sample_extern
               ((sample_LuaJIT_20 [])\<lparr>stack := sample_value # VInt 4 # [VInt 16]\<rparr>) = Inr s
          \<and> deserializeFromString sample_extern
               ((sample_LuaJIT_20 [])\<lparr>stack := [VByteString s]\<rparr>) = Inr w
          \<and> erase_identity w = erase_identity sample_value)"
proof -
  have h1: "function_free sample_value" by (simp add: sample_value_def)
  have h2: "opaque_free sample_value" by (simp add: sample_value_def)
  have h3: "acyclic_graph sample_value" by (simp add: sample_value_def acyclic_graph_def)
  note h4 = getVersion_sample_20 [of "[]"]
  note h5 = sample_codec_ZLIB
  have h6: "\<forall>bs. uncompress \<lparr>compress = rev, uncompress = (\<lambda>bs. Some (rev bs))\<rparr>
              (compress \<lparr>compress = rev, uncompress = (\<lambda>bs. Some (rev bs))\<rparr> bs) = Some bs"
    by simp
  show ?thesis
    using h1 h2 h3 h4 h5 h6 roundtrip_string [OF h1 h2 h3 h4 h5 h6, of "[VInt 16]"]
    by blast
qed

section \<open>The bytecode flag\<close>

text \<open>
  The flag decides no branch of the replay: two runs over one token stream that differ
  in the flag only fail with the same error or return the same value, flags apart. With
  no hook installed, every function that a run without usable bytecode returns is
  flagged. A table that holds itself is rebuilt as a table that holds itself.
\<close>

lemma flags_off_upd:
  "flags_off d = flags_off d' \<Longrightarrow> mark_bytecode False w = mark_bytecode False w'
   \<Longrightarrow> flags_off (d(n \<mapsto> w)) = flags_off (d'(n \<mapsto> w'))"
  by (auto simp: flags_off_def fun_eq_iff)

lemma flags_off_lookup:
  "flags_off d = flags_off d' \<Longrightarrow>
   (d i = None \<and> d' i = None)
   \<or> (\<exists>w w'. d i = Some w \<and> d' i = Some w' \<and> mark_bytecode False w = mark_bytecode False w')"
  by (cases "d i"; cases "d' i") (auto simp: flags_off_def fun_eq_iff dest: spec [of _ i])

lemma outcome_cases:
  assumes "outcome r = outcome r'"
  obtains e where "r = Inl e" "r' = Inl e"
  | w w' n d d' rest where "r = Inr (w, (n, d), rest)" "r' = Inr (w', (n, d'), rest)"
      "mark_bytecode False w = mark_bytecode False w'" "flags_off d = flags_off d'"
  using assms by (cases r; cases r') (auto simp: outcome_def split: prod.splits)

lemma outcome_list_cases:
  assumes "outcome_list r = outcome_list r'"
  obtains e where "r = Inl e" "r' = Inl e"
  | ws ws' n d d' rest where "r = Inr (ws, (n, d), rest)" "r' = Inr (ws', (n, d'), rest)"
      "map (mark_bytecode False) ws = map (mark_bytecode False) ws'" "flags_off d = flags_off d'"
  using assms by (cases r; cases r') (auto simp: outcome_list_def split: prod.splits)

lemma outcome_map_cases:
  assumes "outcome_map r = outcome_map r'"
  obtains e where "r = Inl e" "r' = Inl e"
  | kv kv' n d d' rest where "r = Inr (kv, (n, d), rest)" "r' = Inr (kv', (n, d'), rest)"
      "map (\<lambda>(k, v). (mark_bytecode False k, mark_bytecode False v)) kv
         = map (\<lambda>(k, v). (mark_bytecode False k, mark_bytecode False v)) kv'"
      "flags_off d = flags_off d'"
  using assms by (cases r; cases r') (auto simp: outcome_map_def split: prod.splits)

lemma deserialize_Suc_flags:
  assumes L: "\<And>u u' n d d' k bs. flags_off d = flags_off d' \<Longrightarrow>
            outcome_list (deserialize_list f ext hk u (n, d) k bs)
              = outcome_list (deserialize_list f ext hk u' (n, d') k bs)"
    and M: "\<And>u u' n d d' k bs. flags_off d = flags_off d' \<Longrightarrow>
            outcome_map (deserialize_map f ext hk u (n, d) k bs)
              = outcome_map (deserialize_map f ext hk u' (n, d') k bs)"
    and d: "flags_off d = flags_off d'"
  shows "outcome (deserialize (Suc f) ext hk u (n, d) bs)
           = outcome (deserialize (Suc f) ext hk u' (n, d') bs)"
proof (cases bs)
  case Nil
  then show ?thesis by simp
next
  case (Cons t bs')
  consider (tbl) "t = tag_table" | (fn) "t = tag_function" | (bref) "t = tag_backref"
    | (other) "t \<noteq> tag_table" "t \<noteq> tag_function" "t \<noteq> tag_backref" by blast
  then show ?thesis
  proof cases
    case tbl
    show ?thesis
    proof (cases "get_varint bs'")
      case None
      then show ?thesis by (simp add: Cons tbl tag_defs)
    next
      case (Some p)
      obtain k1 rest1 where p: "p = (k1, rest1)" by (cases p)
      have d0: "flags_off (d(n \<mapsto> VTable n [] [])) = flags_off (d'(n \<mapsto> VTable n [] []))"
        using d by (rule flags_off_upd) simp
      from L [OF d0, of u "Suc n" k1 rest1 u'] show ?thesis
      proof (cases rule: outcome_list_cases)
        case (1 e)
        then show ?thesis by (simp add: Cons tbl tag_defs Some p outcome_def)
      next
        case (2 ws ws' n2 d2 d2' rest2)
        show ?thesis
        proof (cases "get_varint rest2")
          case None
          then show ?thesis using 2 by (simp add: Cons tbl tag_defs Some p outcome_def)
        next
          case (Some q)
          obtain k2 rest3 where q: "q = (k2, rest3)" by (cases q)
          from M [OF 2(4), of u n2 k2 rest3 u'] show ?thesis
          proof (cases rule: outcome_map_cases)
            case (1 e)
            then show ?thesis
              using 2 by (simp add: Cons tbl tag_defs \<open>get_varint bs' = Some p\<close> p Some q outcome_def)
          next
            case (2 kv kv' n4 d4 d4' rest4)
            have "flags_off (d4(n \<mapsto> VTable n ws kv)) = flags_off (d4'(n \<mapsto> VTable n ws' kv'))"
              using 2(4) by (rule flags_off_upd) (simp add: \<open>map (mark_bytecode False) ws = map (mark_bytecode False) ws'\<close> 2(3))
            then show ?thesis
              using 2 \<open>deserialize_list f ext hk u (Suc n, d(n \<mapsto> VTable n [] [])) k1 rest1 = Inr (ws, (n2, d2), rest2)\<close>
                \<open>deserialize_list f ext hk u' (Suc n, d'(n \<mapsto> VTable n [] [])) k1 rest1 = Inr (ws', (n2, d2'), rest2)\<close>
                \<open>map (mark_bytecode False) ws = map (mark_bytecode False) ws'\<close>
              by (simp add: Cons tbl tag_defs \<open>get_varint bs' = Some p\<close> p Some q outcome_def)
          qed
        qed
      qed
    qed
  next
    case fn
    show ?thesis
    proof (cases "get_string bs'")
      case None
      then show ?thesis by (simp add: Cons fn tag_defs)
    next
      case (Some p)
      obtain bc rest1 where p: "p = (bc, rest1)" by (cases p)
      show ?thesis
      proof (cases "get_varint rest1")
        case None
        then show ?thesis by (simp add: Cons fn tag_defs Some p)
      next
        case gv: (Some q)
        obtain k rest2 where q: "q = (k, rest2)" by (cases q)
        have d0: "flags_off (d(n \<mapsto> VFunction n u bc [])) = flags_off (d'(n \<mapsto> VFunction n u' bc []))"
          using d by (rule flags_off_upd) simp
        from L [OF d0, of u "Suc n" k rest2 u'] show ?thesis
        proof (cases rule: outcome_list_cases)
          case (1 e)
          then show ?thesis by (simp add: Cons fn tag_defs Some p gv q outcome_def)
        next
          case (2 ws ws' n3 d3 d3' rest3)
          have "flags_off (d3(n \<mapsto> VFunction n u bc ws)) = flags_off (d3'(n \<mapsto> VFunction n u' bc ws'))"
            using 2(4) by (rule flags_off_upd) (simp add: 2(3))
          then show ?thesis
            using 2 by (simp add: Cons fn tag_defs Some p gv q outcome_def)
        qed
      qed
    qed
  next
    case bref
    show ?thesis
    proof (cases "get_varint bs'")
      case None
      then show ?thesis by (simp add: Cons bref tag_defs)
    next
      case (Some p)
      obtain i rest where p: "p = (i, rest)" by (cases p)
      from flags_off_lookup [OF d, of i] show ?thesis
        using d by (auto simp: Cons bref tag_defs Some p outcome_def)
    qed
  next
    case other
    then show ?thesis
      using d
      by (auto simp: Cons outcome_def split: option.splits sum.splits list.splits)
  qed
qed


lemma deserialize_flags:
  "(\<forall>u u' n d d' bs. flags_off d = flags_off d' \<longrightarrow>
      outcome (deserialize f ext hk u (n, d) bs) = outcome (deserialize f ext hk u' (n, d') bs))
   \<and> (\<forall>u u' n d d' k bs. flags_off d = flags_off d' \<longrightarrow>
      outcome_list (deserialize_list f ext hk u (n, d) k bs)
        = outcome_list (deserialize_list f ext hk u' (n, d') k bs))
   \<and> (\<forall>u u' n d d' k bs. flags_off d = flags_off d' \<longrightarrow>
      outcome_map (deserialize_map f ext hk u (n, d) k bs)
        = outcome_map (deserialize_map f ext hk u' (n, d') k bs))"
proof (induction f)
  case 0
  have "outcome_list (deserialize_list 0 ext hk u (n, d) k bs)
          = outcome_list (deserialize_list 0 ext hk u' (n, d') k bs)"
    if "flags_off d = flags_off d'" for u u' n d d' k bs
    using that by (cases k) (simp_all add: outcome_list_def)
  moreover have "outcome_map (deserialize_map 0 ext hk u (n, d) k bs)
          = outcome_map (deserialize_map 0 ext hk u' (n, d') k bs)"
    if "flags_off d = flags_off d'" for u u' n d d' k bs
    using that by (cases k) (simp_all add: outcome_map_def)
  ultimately show ?case by simp
next
  case (Suc f)
  have V: "outcome (deserialize f ext hk u (n, d) bs) = outcome (deserialize f ext hk u' (n, d') bs)"
    if "flags_off d = flags_off d'" for u u' n d d' bs
    using Suc that by blast
  have L: "outcome_list (deserialize_list f ext hk u (n, d) k bs)
             = outcome_list (deserialize_list f ext hk u' (n, d') k bs)"
    if "flags_off d = flags_off d'" for u u' n d d' k bs
    using Suc that by blast
  have M: "outcome_map (deserialize_map f ext hk u (n, d) k bs)
             = outcome_map (deserialize_map f ext hk u' (n, d') k bs)"
    if "flags_off d = flags_off d'" for u u' n d d' k bs
    using Suc that by blast
  have V': "outcome (deserialize (Suc f) ext hk u (n, d) bs)
              = outcome (deserialize (Suc f) ext hk u' (n, d') bs)"
    if "flags_off d = flags_off d'" for u u' n d d' bs
    using L M that by (rule deserialize_Suc_flags)
  have L': "outcome_list (deserialize_list (Suc f) ext hk u (n, d) k bs)
              = outcome_list (deserialize_list (Suc f) ext hk u' (n, d') k bs)"
    if d: "flags_off d = flags_off d'" for u u' n d d' k bs
  proof (cases k)
    case 0
    then show ?thesis using d by (simp add: outcome_list_def)
  next
    case (Suc k')
    from V [OF d, of u n bs u'] show ?thesis
    proof (cases rule: outcome_cases)
      case (1 e)
      then show ?thesis by (simp add: Suc outcome_list_def)
    next
      case (2 w w' n1 d1 d1' rest1)
      from L [OF 2(4), of u n1 k' rest1 u'] show ?thesis
      proof (cases rule: outcome_list_cases)
        case (1 e)
        then show ?thesis using 2 by (simp add: Suc outcome_list_def)
      next
        case (2 ws ws' n2 d2 d2' rest2)
        then show ?thesis
          using \<open>deserialize f ext hk u (n, d) bs = Inr (w, (n1, d1), rest1)\<close>
            \<open>deserialize f ext hk u' (n, d') bs = Inr (w', (n1, d1'), rest1)\<close>
            \<open>mark_bytecode False w = mark_bytecode False w'\<close>
          by (simp add: Suc outcome_list_def)
      qed
    qed
  qed
  have M': "outcome_map (deserialize_map (Suc f) ext hk u (n, d) k bs)
              = outcome_map (deserialize_map (Suc f) ext hk u' (n, d') k bs)"
    if d: "flags_off d = flags_off d'" for u u' n d d' k bs
  proof (cases k)
    case 0
    then show ?thesis using d by (simp add: outcome_map_def)
  next
    case (Suc k')
    from V [OF d, of u n bs u'] show ?thesis
    proof (cases rule: outcome_cases)
      case (1 e)
      then show ?thesis by (simp add: Suc outcome_map_def)
    next
      case a: (2 w1 w1' n1 d1 d1' rest1)
      from V [OF a(4), of u n1 rest1 u'] show ?thesis
      proof (cases rule: outcome_cases)
        case (1 e)
        then show ?thesis using a by (simp add: Suc outcome_map_def)
      next
        case b: (2 w2 w2' n2 d2 d2' rest2)
        from M [OF b(4), of u n2 k' rest2 u'] show ?thesis
        proof (cases rule: outcome_map_cases)
          case (1 e)
          then show ?thesis using a b by (simp add: Suc outcome_map_def)
        next
          case (2 kv kv' n3 d3 d3' rest3)
          then show ?thesis using a b by (simp add: Suc outcome_map_def)
        qed
      qed
    qed
  qed
  show ?case using V' L' M' by blast
qed

lemma fromThrift_flags:
  "(case Deserializer_fromThrift ext 0 L obj of
      Inl e \<Rightarrow> Deserializer_fromThrift ext NO_BYTECODE L obj = Inl e
    | Inr w' \<Rightarrow> (\<exists>w. Deserializer_fromThrift ext NO_BYTECODE L obj = Inr w
                    \<and> mark_bytecode False w = mark_bytecode False w'))"
proof -
  have "outcome (deserialize (length obj) ext (deserializationCallback L) False (0, Map.empty) obj)
          = outcome (deserialize (length obj) ext (deserializationCallback L) True (0, Map.empty) obj)"
    using deserialize_flags [of "length obj" ext "deserializationCallback L"] by blast
  then show ?thesis
    by (cases rule: outcome_cases) (simp_all add: Deserializer_fromThrift_def NO_BYTECODE_def)
qed


lemma flags_off_fix_upd:
  "flags_off d = d \<Longrightarrow> mark_bytecode False w = w \<Longrightarrow> flags_off (d(n \<mapsto> w)) = d(n \<mapsto> w)"
  by (auto simp: flags_off_def fun_eq_iff)

lemma flags_off_fix_lookup:
  "flags_off d = d \<Longrightarrow> d i = Some w \<Longrightarrow> mark_bytecode False w = w"
  by (auto simp: flags_off_def fun_eq_iff dest: spec [of _ i])

lemma outcome_fix_cases:
  assumes "outcome r = r"
  obtains e where "r = Inl e"
  | w n d rest where "r = Inr (w, (n, d), rest)" "mark_bytecode False w = w" "flags_off d = d"
  using assms by (cases r) (auto simp: outcome_def split: prod.splits)

lemma outcome_list_fix_cases:
  assumes "outcome_list r = r"
  obtains e where "r = Inl e"
  | ws n d rest where "r = Inr (ws, (n, d), rest)" "map (mark_bytecode False) ws = ws"
      "flags_off d = d"
  using assms by (cases r) (auto simp: outcome_list_def split: prod.splits)

lemma outcome_map_fix_cases:
  assumes "outcome_map r = r"
  obtains e where "r = Inl e"
  | kv n d rest where "r = Inr (kv, (n, d), rest)"
      "map (\<lambda>(k, v). (mark_bytecode False k, mark_bytecode False v)) kv = kv" "flags_off d = d"
  using assms by (cases r) (auto simp: outcome_map_def split: prod.splits)

lemma deserialize_Suc_flagged:
  assumes L: "\<And>n d k bs. flags_off d = d \<Longrightarrow>
            outcome_list (deserialize_list f ext None False (n, d) k bs)
              = deserialize_list f ext None False (n, d) k bs"
    and M: "\<And>n d k bs. flags_off d = d \<Longrightarrow>
            outcome_map (deserialize_map f ext None False (n, d) k bs)
              = deserialize_map f ext None False (n, d) k bs"
    and d: "flags_off d = d"
  shows "outcome (deserialize (Suc f) ext None False (n, d) bs)
           = deserialize (Suc f) ext None False (n, d) bs"
proof (cases bs)
  case Nil
  then show ?thesis by (simp add: outcome_def)
next
  case (Cons t bs')
  consider (tbl) "t = tag_table" | (fn) "t = tag_function" | (bref) "t = tag_backref"
    | (other) "t \<noteq> tag_table" "t \<noteq> tag_function" "t \<noteq> tag_backref" by blast
  then show ?thesis
  proof cases
    case tbl
    show ?thesis
    proof (cases "get_varint bs'")
      case None
      then show ?thesis by (simp add: Cons tbl tag_defs outcome_def)
    next
      case gv1: (Some p)
      obtain k1 rest1 where p: "p = (k1, rest1)" by (cases p)
      have d0: "flags_off (d(n \<mapsto> VTable n [] [])) = d(n \<mapsto> VTable n [] [])"
        using d by (rule flags_off_fix_upd) simp
      from L [OF d0, of "Suc n" k1 rest1] show ?thesis
      proof (cases rule: outcome_list_fix_cases)
        case (1 e)
        then show ?thesis by (simp add: Cons tbl tag_defs gv1 p outcome_def)
      next
        case a: (2 ws n2 d2 rest2)
        show ?thesis
        proof (cases "get_varint rest2")
          case None
          then show ?thesis using a by (simp add: Cons tbl tag_defs gv1 p outcome_def)
        next
          case gv2: (Some q)
          obtain k2 rest3 where q: "q = (k2, rest3)" by (cases q)
          from M [OF a(3), of n2 k2 rest3] show ?thesis
          proof (cases rule: outcome_map_fix_cases)
            case (1 e)
            then show ?thesis using a by (simp add: Cons tbl tag_defs gv1 p gv2 q outcome_def)
          next
            case b: (2 kv n4 d4 rest4)
            have "flags_off (d4(n \<mapsto> VTable n ws kv)) = d4(n \<mapsto> VTable n ws kv)"
              using b(3) by (rule flags_off_fix_upd) (simp add: a(2) b(2))
            then show ?thesis
              using a b by (simp add: Cons tbl tag_defs gv1 p gv2 q outcome_def)
          qed
        qed
      qed
    qed
  next
    case fn
    show ?thesis
    proof (cases "get_string bs'")
      case None
      then show ?thesis by (simp add: Cons fn tag_defs outcome_def)
    next
      case gs: (Some p)
      obtain bc rest1 where p: "p = (bc, rest1)" by (cases p)
      show ?thesis
      proof (cases "get_varint rest1")
        case None
        then show ?thesis by (simp add: Cons fn tag_defs gs p outcome_def)
      next
        case gv: (Some q)
        obtain k rest2 where q: "q = (k, rest2)" by (cases q)
        have d0: "flags_off (d(n \<mapsto> VFunction n False bc [])) = d(n \<mapsto> VFunction n False bc [])"
          using d by (rule flags_off_fix_upd) simp
        from L [OF d0, of "Suc n" k rest2] show ?thesis
        proof (cases rule: outcome_list_fix_cases)
          case (1 e)
          then show ?thesis by (simp add: Cons fn tag_defs gs p gv q outcome_def)
        next
          case a: (2 ws n3 d3 rest3)
          have "flags_off (d3(n \<mapsto> VFunction n False bc ws)) = d3(n \<mapsto> VFunction n False bc ws)"
            using a(3) by (rule flags_off_fix_upd) (simp add: a(2))
          then show ?thesis
            using a by (simp add: Cons fn tag_defs gs p gv q outcome_def)
        qed
      qed
    qed
  next
    case bref
    show ?thesis
    proof (cases "get_varint bs'")
      case None
      then show ?thesis by (simp add: Cons bref tag_defs outcome_def)
    next
      case (Some p)
      obtain i rest where p: "p = (i, rest)" by (cases p)
      show ?thesis
        using d flags_off_fix_lookup [OF d, of i]
        by (cases "d i") (simp_all add: Cons bref tag_defs Some p outcome_def)
    qed
  next
    case other
    then show ?thesis
      using d
      by (auto simp: Cons outcome_def split: option.splits sum.splits list.splits)
  qed
qed

lemma deserialize_flagged:
  "(\<forall>n d bs. flags_off d = d \<longrightarrow>
      outcome (deserialize f ext None False (n, d) bs) = deserialize f ext None False (n, d) bs)
   \<and> (\<forall>n d k bs. flags_off d = d \<longrightarrow>
      outcome_list (deserialize_list f ext None False (n, d) k bs)
        = deserialize_list f ext None False (n, d) k bs)
   \<and> (\<forall>n d k bs. flags_off d = d \<longrightarrow>
      outcome_map (deserialize_map f ext None False (n, d) k bs)
        = deserialize_map f ext None False (n, d) k bs)"
proof (induction f)
  case 0
  have "outcome_list (deserialize_list 0 ext None False (n, d) k bs)
          = deserialize_list 0 ext None False (n, d) k bs"
    if "flags_off d = d" for n d k bs
    using that by (cases k) (simp_all add: outcome_list_def)
  moreover have "outcome_map (deserialize_map 0 ext None False (n, d) k bs)
          = deserialize_map 0 ext None False (n, d) k bs"
    if "flags_off d = d" for n d k bs
    using that by (cases k) (simp_all add: outcome_map_def)
  ultimately show ?case by (simp add: outcome_def)
next
  case (Suc f)
  have V: "outcome (deserialize f ext None False (n, d) bs) = deserialize f ext None False (n, d) bs"
    if "flags_off d = d" for n d bs
    using Suc that by blast
  have L: "outcome_list (deserialize_list f ext None False (n, d) k bs)
             = deserialize_list f ext None False (n, d) k bs"
    if "flags_off d = d" for n d k bs
    using Suc that by blast
  have M: "outcome_map (deserialize_map f ext None False (n, d) k bs)
             = deserialize_map f ext None False (n, d) k bs"
    if "flags_off d = d" for n d k bs
    using Suc that by blast
  have V': "outcome (deserialize (Suc f) ext None False (n, d) bs)
              = deserialize (Suc f) ext None False (n, d) bs"
    if "flags_off d = d" for n d bs
    using L M that by (rule deserialize_Suc_flagged)
  have L': "outcome_list (deserialize_list (Suc f) ext None False (n, d) k bs)
              = deserialize_list (Suc f) ext None False (n, d) k bs"
    if d: "flags_off d = d" for n d k bs
  proof (cases k)
    case 0
    then show ?thesis using d by (simp add: outcome_list_def)
  next
    case (Suc k')
    from V [OF d, of n bs] show ?thesis
    proof (cases rule: outcome_fix_cases)
      case (1 e)
      then show ?thesis by (simp add: Suc outcome_list_def)
    next
      case a: (2 w n1 d1 rest1)
      from L [OF a(3), of n1 k' rest1] show ?thesis
      proof (cases rule: outcome_list_fix_cases)
        case (1 e)
        then show ?thesis using a by (simp add: Suc outcome_list_def)
      next
        case (2 ws n2 d2 rest2)
        then show ?thesis using a by (simp add: Suc outcome_list_def)
      qed
    qed
  qed
  have M': "outcome_map (deserialize_map (Suc f) ext None False (n, d) k bs)
              = deserialize_map (Suc f) ext None False (n, d) k bs"
    if d: "flags_off d = d" for n d k bs
  proof (cases k)
    case 0
    then show ?thesis using d by (simp add: outcome_map_def)
  next
    case (Suc k')
    from V [OF d, of n bs] show ?thesis
    proof (cases rule: outcome_fix_cases)
      case (1 e)
      then show ?thesis by (simp add: Suc outcome_map_def)
    next
      case a: (2 w1 n1 d1 rest1)
      from V [OF a(3), of n1 rest1] show ?thesis
      proof (cases rule: outcome_fix_cases)
        case (1 e)
        then show ?thesis using a by (simp add: Suc outcome_map_def)
      next
        case b: (2 w2 n2 d2 rest2)
        from M [OF b(3), of n2 k' rest2] show ?thesis
        proof (cases rule: outcome_map_fix_cases)
          case (1 e)
          then show ?thesis using a b by (simp add: Suc outcome_map_def)
        next
          case (2 kv n3 d3 rest3)
          then show ?thesis using a b by (simp add: Suc outcome_map_def)
        qed
      qed
    qed
  qed
  show ?case using V' L' M' by blast
qed

lemma fromThrift_flagged:
  assumes "deserializationCallback L = None"
    and "Deserializer_fromThrift ext NO_BYTECODE L obj = Inr w"
  shows "mark_bytecode False w = w"
proof -
  have e: "flags_off Map.empty = Map.empty" by (simp add: flags_off_def)
  have "outcome (deserialize (length obj) ext None False (0, Map.empty) obj)
          = deserialize (length obj) ext None False (0, Map.empty) obj"
    using deserialize_flagged [of "length obj" ext] e by blast
  then show ?thesis
    using assms
    by (cases rule: outcome_fix_cases)
       (simp_all add: Deserializer_fromThrift_def NO_BYTECODE_def)
qed

lemma doDeserialize_match:
  assumes "getVersion ext L = Inr cv"
  shows "doDeserialize ext L (d\<lparr>luaVersionInfo := cv\<rparr>)
           = Deserializer_fromThrift ext 0 L (outputObject d)"
  using assms getVersion_bytecode_nonempty [OF assms]
  by (simp add: doDeserialize_def Let_def)

lemma NO_BYTECODE_outcome:
  "(case Deserializer_fromThrift ext 0 L obj of
      Inl e \<Rightarrow> Deserializer_fromThrift ext NO_BYTECODE L obj = Inl e
    | Inr w' \<Rightarrow> (\<exists>w. Deserializer_fromThrift ext NO_BYTECODE L obj = Inr w
                    \<and> mark_bytecode False w = mark_bytecode False w'
                    \<and> (deserializationCallback L = None \<longrightarrow> w = mark_bytecode False w')))"
  using fromThrift_flags [of ext L obj] fromThrift_flagged [of L ext obj]
  by (auto split: sum.splits)

lemma table_holding_itself:
  "\<exists>r obj. serialize ext hs (Map.empty, 0) (VTable a [VTable a [] []] []) = Inr (r, obj)
     \<and> Deserializer_fromThrift ext options L obj = Inr (VTable 0 [VTable 0 [] []] [])"
proof -
  have "serialize ext hs (Map.empty, 0) (VTable a [VTable a [] []] [])
     = Inr ((Map.empty(a \<mapsto> 0), 1),
            tag_table # put_varint 1 @ (tag_backref # put_varint 0) @ put_varint 0)"
    by simp
  moreover have "Deserializer_fromThrift ext options L
     (tag_table # put_varint 1 @ (tag_backref # put_varint 0) @ put_varint 0)
   = Inr (VTable 0 [VTable 0 [] []] [])"
    by code_simp
  ultimately show ?thesis by blast
qed

lemma value_graph_sample_cycle: "value_graph sample_cycle"
  by (simp add: sample_cycle_def value_graph_def)

lemma serialize_sample_cycle:
  "\<exists>r. serialize ext hs (Map.empty, 0) sample_cycle = Inr (r, sample_tokens)"
  by (simp add: sample_cycle_def sample_tokens_def numeral_3_eq_3)

lemma erase_sample_cycle:
  "erase_identity (mark_bytecode False sample_cycle)
     = VTable 0 [VTable 0 [] [], VFunction 0 False ''bytecode'' [VTable 0 [] []], VInt 1] []"
  by (simp add: sample_cycle_def)

lemma sample_payload_match:
  "doDeserialize sample_extern (sample_LuaJIT_21 [])
     ((sample_payload bv)\<lparr>luaVersionInfo :=
        \<lparr>interpreterVersion = ''LuaJIT 2.1.0'', bytecodeVersion = ''LuaJIT:0201''\<rparr>\<rparr>)
   = Inr (VTable 0 [VTable 0 [] [], VFunction 1 True ''bytecode'' [VTable 0 [] []], VInt 1] [])"
proof -
  have "Deserializer_fromThrift sample_extern 0 (sample_LuaJIT_21 []) sample_tokens
     = Inr (VTable 0 [VTable 0 [] [], VFunction 1 True ''bytecode'' [VTable 0 [] []], VInt 1] [])"
    by code_simp
  then show ?thesis
    using doDeserialize_match [OF getVersion_sample_21 [of "[]"], of "sample_payload bv"]
    by (simp add: sample_payload_def)
qed

lemma sample_no_hook: "deserializationCallback (sample_LuaJIT_21 []) = None"
  by (simp add: sample_LuaJIT_21_def sample_State_def)

text \<open>
  Claim C2. Let the bytecode version of the consumer be \<open>Y\<close>. Every decoded payload whose
  producer bytecode version \<open>X\<close> differs from \<open>Y\<close> is deserialized with the option
  \<^verbatim>\<open>NO_BYTECODE\<close>, and the difference is not an error: \<^verbatim>\<open>doDeserialize\<close> raises only the
  error that the same token stream raises when it comes under the consumer's own
  version, and otherwise returns the value returned there, the bytecode flags apart (with
  no deserialization hook installed: that value with every function flagged as not
  executable). In particular, for a payload that \<^verbatim>\<open>serializeToString\<close> made under a producer
  of version \<open>X\<close> of a value graph (\<open>value_graph\<close>: shared objects and cycles allowed) without
  opaque values, with a codec that the library provides and that decompresses what it
  compresses, \<^verbatim>\<open>deserializeFromString\<close> succeeds and returns the value encoded with every
  function flagged as not executable: for a value without functions, the value encoded
  (the identities of the objects apart: they are fresh in the consumer).
\<close>

theorem version_mismatch_degrades:
  assumes "getVersion ext Lc = Inr cv"
  shows "(bytecodeVersion (luaVersionInfo dobj) \<noteq> bytecodeVersion cv \<longrightarrow>
       doDeserialize ext Lc dobj
         = Deserializer_fromThrift ext NO_BYTECODE Lc (outputObject dobj)
       \<and> (case doDeserialize ext Lc (dobj\<lparr>luaVersionInfo := cv\<rparr>) of
            Inl e \<Rightarrow> doDeserialize ext Lc dobj = Inl e
          | Inr w' \<Rightarrow>
              (\<exists>w. doDeserialize ext Lc dobj = Inr w
                 \<and> mark_bytecode False w = mark_bytecode False w'
                 \<and> (deserializationCallback Lc = None \<longrightarrow> w = mark_bytecode False w'))))
   \<and> (getVersion ext Lp = Inr pv \<and> bytecodeVersion pv \<noteq> bytecodeVersion cv
       \<and> value_graph v \<and> opaque_free v
       \<and> getCodec ext (static_cast_CodecType c) = Returns cdc
       \<and> (\<forall>bs. uncompress cdc (compress cdc bs) = Some bs) \<longrightarrow>
       (\<exists>s d w. serializeToString ext (Lp\<lparr>stack := v # VInt c # chunkSize\<rparr>) = Inr s
          \<and> decode ext s = Inr (d, [])
          \<and> luaVersionInfo d = pv
          \<and> doDeserialize ext Lc d = Deserializer_fromThrift ext NO_BYTECODE Lc (outputObject d)
          \<and> deserializeFromString ext (Lc\<lparr>stack := [VByteString s]\<rparr>) = Inr w
          \<and> erase_identity w = erase_identity (mark_bytecode False v)
          \<and> (function_free v \<longrightarrow> erase_identity w = erase_identity v)))"
proof (intro conjI impI)
  assume mis: "bytecodeVersion (luaVersionInfo dobj) \<noteq> bytecodeVersion cv"
  show nb: "doDeserialize ext Lc dobj
         = Deserializer_fromThrift ext NO_BYTECODE Lc (outputObject dobj)"
    by (rule doDeserialize_NO_BYTECODE [OF assms]) (simp add: mis)
  show "(case doDeserialize ext Lc (dobj\<lparr>luaVersionInfo := cv\<rparr>) of
            Inl e \<Rightarrow> doDeserialize ext Lc dobj = Inl e
          | Inr w' \<Rightarrow>
              (\<exists>w. doDeserialize ext Lc dobj = Inr w
                 \<and> mark_bytecode False w = mark_bytecode False w'
                 \<and> (deserializationCallback Lc = None \<longrightarrow> w = mark_bytecode False w')))"
    unfolding nb doDeserialize_match [OF assms] by (rule NO_BYTECODE_outcome)
next
  assume h: "getVersion ext Lp = Inr pv \<and> bytecodeVersion pv \<noteq> bytecodeVersion cv
       \<and> value_graph v \<and> opaque_free v
       \<and> getCodec ext (static_cast_CodecType c) = Returns cdc
       \<and> (\<forall>bs. uncompress cdc (compress cdc bs) = Some bs)"
  then have pv: "getVersion ext Lp = Inr pv" and mis: "bytecodeVersion pv \<noteq> bytecodeVersion cv"
    and wf: "value_graph v" and of: "opaque_free v"
    and g: "getCodec ext (static_cast_CodecType c) = Returns cdc"
    and sym: "\<forall>bs. uncompress cdc (compress cdc bs) = Some bs"
    by simp_all
  let ?Lp = "Lp\<lparr>stack := v # VInt c # chunkSize\<rparr>"
  have i1: "lua_index ?Lp 1 = Some v" by (simp add: lua_index_def)
  from toThrift_succeeds [OF i1 of, of ext] obtain r obj where
    ser: "serialize ext (serializationCallback Lp) (Map.empty, 0) v = Inr (r, obj)"
    and tt: "Serializer_toThrift ext ?Lp 1 = Inr obj" by auto
  have gp: "getVersion ext ?Lp = Inr pv" using pv by simp
  define lim where "lim = (case luaGetNumber ext (lua_index ?Lp 3) of None \<Rightarrow> - 1 | Some k \<Rightarrow> k)"
  let ?s = "put_envelope
           \<lparr>magic = kMagic, formatVersion = kFormatVersion, producer = pv,
            codecId = static_cast_CodecType c, chunkSizeLimit = lim,
            chunks = map (compress cdc) (split_chunks (unat lim) obj)\<rparr>"
  from serializeToString_explicit_codec [OF _ tt gp g, of v chunkSize]
  have s: "serializeToString ext ?Lp = Inr ?s" by (simp add: lim_def)
  have dec: "decode ext ?s = Inr (\<lparr>outputObject = obj, luaVersionInfo = pv\<rparr>, [])"
    using g sym by (rule decode_put_envelope)
  have dd: "doDeserialize ext Lc \<lparr>outputObject = obj, luaVersionInfo = pv\<rparr>
              = Deserializer_fromThrift ext NO_BYTECODE Lc
                  (outputObject \<lparr>outputObject = obj, luaVersionInfo = pv\<rparr>)"
    by (rule doDeserialize_NO_BYTECODE [OF assms]) (simp add: mis)
  let ?Lc = "Lc\<lparr>stack := [VByteString ?s]\<rparr>"
  have gc: "getVersion ext ?Lc = Inr cv" using assms by simp
  have ic: "lua_index ?Lc 1 = Some (VByteString ?s)" by (simp add: lua_index_def)
  from payload_decodes [OF wf of ser g sym gc ic]
  obtain w where d: "deserializeFromString ext ?Lc = Inr w"
    and e: "erase_identity w = erase_identity (mark_bytecode False v)"
    using mis by auto
  have "function_free v \<longrightarrow> erase_identity w = erase_identity v"
    using e by (simp add: mark_bytecode_function_free)
  then show "\<exists>s d w. serializeToString ext ?Lp = Inr s
          \<and> decode ext s = Inr (d, [])
          \<and> luaVersionInfo d = pv
          \<and> doDeserialize ext Lc d = Deserializer_fromThrift ext NO_BYTECODE Lc (outputObject d)
          \<and> deserializeFromString ext (Lc\<lparr>stack := [VByteString s]\<rparr>) = Inr w
          \<and> erase_identity w = erase_identity (mark_bytecode False v)
          \<and> (function_free v \<longrightarrow> erase_identity w = erase_identity v)"
    using s dec dd d e by simp
qed

theorem version_mismatch_degrades_witness:
  "getVersion sample_extern (sample_LuaJIT_21 [])
       = Inr \<lparr>interpreterVersion = ''LuaJIT 2.1.0'', bytecodeVersion = ''LuaJIT:0201''\<rparr>
   \<and> bytecodeVersion (luaVersionInfo (sample_payload ''LuaJIT:0200'')) \<noteq> ''LuaJIT:0201''
   \<and> doDeserialize sample_extern (sample_LuaJIT_21 []) (sample_payload ''LuaJIT:0200'')
       = Deserializer_fromThrift sample_extern NO_BYTECODE (sample_LuaJIT_21 [])
           (outputObject (sample_payload ''LuaJIT:0200''))
   \<and> doDeserialize sample_extern (sample_LuaJIT_21 [])
         ((sample_payload ''LuaJIT:0200'')\<lparr>luaVersionInfo :=
            \<lparr>interpreterVersion = ''LuaJIT 2.1.0'', bytecodeVersion = ''LuaJIT:0201''\<rparr>\<rparr>)
       = Inr (VTable 0 [VTable 0 [] [], VFunction 1 True ''bytecode'' [VTable 0 [] []], VInt 1] [])
   \<and> deserializationCallback (sample_LuaJIT_21 []) = None
   \<and> doDeserialize sample_extern (sample_LuaJIT_21 []) (sample_payload ''LuaJIT:0200'')
       = Inr (VTable 0 [VTable 0 [] [], VFunction 1 False ''bytecode'' [VTable 0 [] []], VInt 1] [])
   \<and> getVersion sample_extern (sample_LuaJIT_20 [])
       = Inr \<lparr>interpreterVersion = ''LuaJIT 2.0.3'', bytecodeVersion = ''LuaJIT:0200''\<rparr>
   \<and> ''LuaJIT:0200'' \<noteq> ''LuaJIT:0201''
   \<and> value_graph sample_cycle \<and> opaque_free sample_cycle
   \<and> getCodec sample_extern (static_cast_CodecType 4)
       = Returns \<lparr>compress = rev, uncompress = (\<lambda>bs. Some (rev bs))\<rparr>
   \<and> (\<forall>bs. uncompress \<lparr>compress = rev, uncompress = (\<lambda>bs. Some (rev bs))\<rparr>
              (compress \<lparr>compress = rev, uncompress = (\<lambda>bs. Some (rev bs))\<rparr> bs) = Some bs)
   \<and> (\<exists>s d w. serializeToString sample_extern
                 ((sample_LuaJIT_20 [])\<lparr>stack := sample_cycle # VInt 4 # []\<rparr>) = Inr s
        \<and> decode sample_extern s = Inr (d, [])
        \<and> luaVersionInfo d
            = \<lparr>interpreterVersion = ''LuaJIT 2.0.3'', bytecodeVersion = ''LuaJIT:0200''\<rparr>
        \<and> deserializeFromString sample_extern
             ((sample_LuaJIT_21 [])\<lparr>stack := [VByteString s]\<rparr>) = Inr w
        \<and> erase_identity w
            = VTable 0 [VTable 0 [] [], VFunction 0 False ''bytecode'' [VTable 0 [] []], VInt 1] [])"
proof -
  note h1 = getVersion_sample_21 [of "[]"]
  have h2: "bytecodeVersion (luaVersionInfo (sample_payload ''LuaJIT:0200''))
     \<noteq> bytecodeVersion \<lparr>interpreterVersion = ''LuaJIT 2.1.0'', bytecodeVersion = ''LuaJIT:0201''\<rparr>"
    by (simp add: sample_payload_def)
  note h3 = sample_payload_match [of "''LuaJIT:0200''"]
  note h4 = sample_no_hook
  note h5 = getVersion_sample_20 [of "[]"]
  have h6: "bytecodeVersion \<lparr>interpreterVersion = ''LuaJIT 2.0.3'', bytecodeVersion = ''LuaJIT:0200''\<rparr>
     \<noteq> bytecodeVersion \<lparr>interpreterVersion = ''LuaJIT 2.1.0'', bytecodeVersion = ''LuaJIT:0201''\<rparr>"
    by simp
  note h7 = value_graph_sample_cycle
  have h8: "opaque_free sample_cycle" by (simp add: sample_cycle_def)
  note h9 = sample_codec_ZLIB
  have h10: "\<forall>bs. uncompress \<lparr>compress = rev, uncompress = (\<lambda>bs. Some (rev bs))\<rparr>
              (compress \<lparr>compress = rev, uncompress = (\<lambda>bs. Some (rev bs))\<rparr> bs) = Some bs"
    by simp
  note t = version_mismatch_degrades [OF h1, of "sample_payload ''LuaJIT:0200''"
      "sample_LuaJIT_20 []" "\<lparr>interpreterVersion = ''LuaJIT 2.0.3'', bytecodeVersion = ''LuaJIT:0200''\<rparr>"
      sample_cycle 4 "\<lparr>compress = rev, uncompress = (\<lambda>bs. Some (rev bs))\<rparr>" "[]"]
  from t h2 have a1: "doDeserialize sample_extern (sample_LuaJIT_21 []) (sample_payload ''LuaJIT:0200'')
       = Deserializer_fromThrift sample_extern NO_BYTECODE (sample_LuaJIT_21 [])
           (outputObject (sample_payload ''LuaJIT:0200''))"
    by blast
  from t h2 have "case doDeserialize sample_extern (sample_LuaJIT_21 [])
         ((sample_payload ''LuaJIT:0200'')\<lparr>luaVersionInfo :=
            \<lparr>interpreterVersion = ''LuaJIT 2.1.0'', bytecodeVersion = ''LuaJIT:0201''\<rparr>\<rparr>) of
            Inl e \<Rightarrow> doDeserialize sample_extern (sample_LuaJIT_21 []) (sample_payload ''LuaJIT:0200'') = Inl e
          | Inr w' \<Rightarrow>
              (\<exists>w. doDeserialize sample_extern (sample_LuaJIT_21 []) (sample_payload ''LuaJIT:0200'') = Inr w
                 \<and> mark_bytecode False w = mark_bytecode False w'
                 \<and> (deserializationCallback (sample_LuaJIT_21 []) = None \<longrightarrow> w = mark_bytecode False w'))"
    by blast
  then have a2: "doDeserialize sample_extern (sample_LuaJIT_21 []) (sample_payload ''LuaJIT:0200'')
       = Inr (VTable 0 [VTable 0 [] [], VFunction 1 False ''bytecode'' [VTable 0 [] []], VInt 1] [])"
    unfolding h3 using h4 by auto
  from t h5 h6 h7 h8 h9 h10 have a3: "\<exists>s d w. serializeToString sample_extern
                 ((sample_LuaJIT_20 [])\<lparr>stack := sample_cycle # VInt 4 # []\<rparr>) = Inr s
        \<and> decode sample_extern s = Inr (d, [])
        \<and> luaVersionInfo d
            = \<lparr>interpreterVersion = ''LuaJIT 2.0.3'', bytecodeVersion = ''LuaJIT:0200''\<rparr>
        \<and> deserializeFromString sample_extern
             ((sample_LuaJIT_21 [])\<lparr>stack := [VByteString s]\<rparr>) = Inr w
        \<and> erase_identity w
            = VTable 0 [VTable 0 [] [], VFunction 0 False ''bytecode'' [VTable 0 [] []], VInt 1] []"
    unfolding erase_sample_cycle by blast
  show ?thesis
    using h1 h2 h3 h4 h5 h7 h8 h9 h10 a1 a2 a3 by simp
qed

text \<open>
  Claim C8. Every decoded payload whose producer bytecode version is empty is
  deserialized with the option \<^verbatim>\<open>NO_BYTECODE\<close>, exactly as the same payload under any producer
  version that differs from the consumer's, and the empty version is not an error:
  \<^verbatim>\<open>doDeserialize\<close> raises only the error that the same token stream raises when it comes
  under the consumer's own version, and otherwise returns the value returned there, the
  bytecode flags apart (with no deserialization hook installed: that value with every
  function flagged as not executable). In particular, an envelope with an empty producer
  bytecode version that carries the token stream of a value graph (\<open>value_graph\<close>: shared
  objects and cycles allowed) without opaque values, written with a codec that the
  library provides and that decompresses what it compresses, is decoded successfully by
  \<^verbatim>\<open>deserializeFromString\<close>, to the value encoded with every function flagged as not
  executable (the identities of the objects apart: they are fresh in the consumer).
\<close>

theorem empty_bytecodeVersion_unusable:
  assumes "getVersion ext L = Inr cv" and "bytecodeVersion (luaVersionInfo dobj) = []"
  shows "doDeserialize ext L dobj = Deserializer_fromThrift ext NO_BYTECODE L (outputObject dobj)
     \<and> (bytecodeVersion pv \<noteq> bytecodeVersion cv \<longrightarrow>
          doDeserialize ext L (dobj\<lparr>luaVersionInfo := pv\<rparr>) = doDeserialize ext L dobj)
     \<and> (case doDeserialize ext L (dobj\<lparr>luaVersionInfo := cv\<rparr>) of
          Inl e \<Rightarrow> doDeserialize ext L dobj = Inl e
        | Inr w' \<Rightarrow>
            (\<exists>w. doDeserialize ext L dobj = Inr w
               \<and> mark_bytecode False w = mark_bytecode False w'
               \<and> (deserializationCallback L = None \<longrightarrow> w = mark_bytecode False w')))
     \<and> (lua_index Lp 1 = Some v \<and> value_graph v \<and> opaque_free v
         \<and> getCodec ext cid = Returns cdc
         \<and> (\<forall>bs. uncompress cdc (compress cdc bs) = Some bs) \<longrightarrow>
         (\<exists>obj writer d w.
             Serializer_toThrift ext Lp 1 = Inr obj
           \<and> encode ext obj cid \<lparr>interpreterVersion = iv, bytecodeVersion = []\<rparr> StringWriter
               kAnyVersion lim = Inr writer
           \<and> decode ext (finish writer) = Inr (d, [])
           \<and> bytecodeVersion (luaVersionInfo d) = []
           \<and> deserializeFromString ext (L\<lparr>stack := [VByteString (finish writer)]\<rparr>) = Inr w
           \<and> erase_identity w = erase_identity (mark_bytecode False v)))"
proof (intro conjI impI)
  show nb: "doDeserialize ext L dobj
              = Deserializer_fromThrift ext NO_BYTECODE L (outputObject dobj)"
    by (rule doDeserialize_NO_BYTECODE [OF assms(1)]) (simp add: assms(2))
  show "(case doDeserialize ext L (dobj\<lparr>luaVersionInfo := cv\<rparr>) of
          Inl e \<Rightarrow> doDeserialize ext L dobj = Inl e
        | Inr w' \<Rightarrow>
            (\<exists>w. doDeserialize ext L dobj = Inr w
               \<and> mark_bytecode False w = mark_bytecode False w'
               \<and> (deserializationCallback L = None \<longrightarrow> w = mark_bytecode False w')))"
    unfolding nb doDeserialize_match [OF assms(1)] by (rule NO_BYTECODE_outcome)
  assume "bytecodeVersion pv \<noteq> bytecodeVersion cv"
  then show "doDeserialize ext L (dobj\<lparr>luaVersionInfo := pv\<rparr>) = doDeserialize ext L dobj"
    using doDeserialize_NO_BYTECODE [OF assms(1), of "dobj\<lparr>luaVersionInfo := pv\<rparr>"] nb
    by simp
next
  assume h: "lua_index Lp 1 = Some v \<and> value_graph v \<and> opaque_free v
         \<and> getCodec ext cid = Returns cdc
         \<and> (\<forall>bs. uncompress cdc (compress cdc bs) = Some bs)"
  then have i1: "lua_index Lp 1 = Some v" and wf: "value_graph v" and of: "opaque_free v"
    and g: "getCodec ext cid = Returns cdc"
    and sym: "\<forall>bs. uncompress cdc (compress cdc bs) = Some bs"
    by simp_all
  from toThrift_succeeds [OF i1 of, of ext] obtain r obj where
    ser: "serialize ext (serializationCallback Lp) (Map.empty, 0) v = Inr (r, obj)"
    and tt: "Serializer_toThrift ext Lp 1 = Inr obj" by auto
  let ?pv = "\<lparr>interpreterVersion = iv, bytecodeVersion = []\<rparr>"
  let ?s = "put_envelope
           \<lparr>magic = kMagic, formatVersion = kFormatVersion, producer = ?pv,
            codecId = cid, chunkSizeLimit = lim,
            chunks = map (compress cdc) (split_chunks (unat lim) obj)\<rparr>"
  let ?d = "\<lparr>outputObject = obj, luaVersionInfo = ?pv\<rparr>"
  have en: "encode ext obj cid ?pv StringWriter kAnyVersion lim = Inr (StringWriter\<lparr>sink := ?s\<rparr>)"
    using g by (rule encode_StringWriter)
  have fin: "finish (StringWriter\<lparr>sink := ?s\<rparr>) = ?s" by (simp add: finish_def)
  have dec: "decode ext ?s = Inr (?d, [])"
    using g sym by (rule decode_put_envelope)
  let ?Lc = "L\<lparr>stack := [VByteString ?s]\<rparr>"
  have gc: "getVersion ext ?Lc = Inr cv" using assms(1) by simp
  have ic: "lua_index ?Lc 1 = Some (VByteString ?s)" by (simp add: lua_index_def)
  from payload_decodes [OF wf of ser g sym gc ic]
  obtain w where d: "deserializeFromString ext ?Lc = Inr w"
    and e: "erase_identity w = erase_identity (mark_bytecode False v)"
    by auto
  show "\<exists>obj writer d w.
             Serializer_toThrift ext Lp 1 = Inr obj
           \<and> encode ext obj cid \<lparr>interpreterVersion = iv, bytecodeVersion = []\<rparr> StringWriter
               kAnyVersion lim = Inr writer
           \<and> decode ext (finish writer) = Inr (d, [])
           \<and> bytecodeVersion (luaVersionInfo d) = []
           \<and> deserializeFromString ext (L\<lparr>stack := [VByteString (finish writer)]\<rparr>) = Inr w
           \<and> erase_identity w = erase_identity (mark_bytecode False v)"
    using tt en fin dec d e
    by (intro exI [of _ obj] exI [of _ "StringWriter\<lparr>sink := ?s\<rparr>"] exI [of _ ?d] exI [of _ w])
       simp
qed

theorem empty_bytecodeVersion_unusable_witness:
  "getVersion sample_extern (sample_LuaJIT_21 [])
       = Inr \<lparr>interpreterVersion = ''LuaJIT 2.1.0'', bytecodeVersion = ''LuaJIT:0201''\<rparr>
   \<and> bytecodeVersion (luaVersionInfo (sample_payload [])) = []
   \<and> doDeserialize sample_extern (sample_LuaJIT_21 []) (sample_payload [])
       = Deserializer_fromThrift sample_extern NO_BYTECODE (sample_LuaJIT_21 [])
           (outputObject (sample_payload []))
   \<and> ''LuaJIT:0200'' \<noteq> ''LuaJIT:0201''
   \<and> doDeserialize sample_extern (sample_LuaJIT_21 [])
         ((sample_payload [])\<lparr>luaVersionInfo :=
            \<lparr>interpreterVersion = ''LuaJIT 2.0.3'', bytecodeVersion = ''LuaJIT:0200''\<rparr>\<rparr>)
       = doDeserialize sample_extern (sample_LuaJIT_21 []) (sample_payload [])
   \<and> doDeserialize sample_extern (sample_LuaJIT_21 [])
         ((sample_payload [])\<lparr>luaVersionInfo :=
            \<lparr>interpreterVersion = ''LuaJIT 2.1.0'', bytecodeVersion = ''LuaJIT:0201''\<rparr>\<rparr>)
       = Inr (VTable 0 [VTable 0 [] [], VFunction 1 True ''bytecode'' [VTable 0 [] []], VInt 1] [])
   \<and> deserializationCallback (sample_LuaJIT_21 []) = None
   \<and> doDeserialize sample_extern (sample_LuaJIT_21 []) (sample_payload [])
       = Inr (VTable 0 [VTable 0 [] [], VFunction 1 False ''bytecode'' [VTable 0 [] []], VInt 1] [])
   \<and> lua_index (sample_LuaJIT_20 [sample_cycle]) 1 = Some sample_cycle
   \<and> value_graph sample_cycle \<and> opaque_free sample_cycle
   \<and> getCodec sample_extern 1 = Returns NoCompressionCodec
   \<and> (\<forall>bs. uncompress NoCompressionCodec (compress NoCompressionCodec bs) = Some bs)
   \<and> (\<exists>obj writer d w.
       Serializer_toThrift sample_extern (sample_LuaJIT_20 [sample_cycle]) 1 = Inr obj
     \<and> encode sample_extern obj 1 \<lparr>interpreterVersion = ''python'', bytecodeVersion = []\<rparr>
          StringWriter kAnyVersion 16 = Inr writer
     \<and> decode sample_extern (finish writer) = Inr (d, [])
     \<and> bytecodeVersion (luaVersionInfo d) = []
     \<and> deserializeFromString sample_extern
          ((sample_LuaJIT_21 [])\<lparr>stack := [VByteString (finish writer)]\<rparr>) = Inr w
     \<and> erase_identity w
         = VTable 0 [VTable 0 [] [], VFunction 0 False ''bytecode'' [VTable 0 [] []], VInt 1] [])"
proof -
  note h1 = getVersion_sample_21 [of "[]"]
  have h2: "bytecodeVersion (luaVersionInfo (sample_payload [])) = []"
    by (simp add: sample_payload_def)
  have h3: "bytecodeVersion \<lparr>interpreterVersion = ''LuaJIT 2.0.3'', bytecodeVersion = ''LuaJIT:0200''\<rparr>
     \<noteq> bytecodeVersion \<lparr>interpreterVersion = ''LuaJIT 2.1.0'', bytecodeVersion = ''LuaJIT:0201''\<rparr>"
    by simp
  note h4 = sample_payload_match [of "[]"]
  note h5 = sample_no_hook
  have h6: "lua_index (sample_LuaJIT_20 [sample_cycle]) 1 = Some sample_cycle"
    by (simp add: lua_index_def sample_LuaJIT_20_def sample_State_def)
  note h7 = value_graph_sample_cycle
  have h8: "opaque_free sample_cycle" by (simp add: sample_cycle_def)
  have h9: "getCodec sample_extern 1 = Returns NoCompressionCodec"
    by (simp add: getCodec_def sample_extern_def)
  have h10: "\<forall>bs. uncompress NoCompressionCodec (compress NoCompressionCodec bs) = Some bs"
    by (simp add: NoCompressionCodec_def)
  note t = empty_bytecodeVersion_unusable [OF h1 h2, of
      "\<lparr>interpreterVersion = ''LuaJIT 2.0.3'', bytecodeVersion = ''LuaJIT:0200''\<rparr>"
      "sample_LuaJIT_20 [sample_cycle]" sample_cycle 1 NoCompressionCodec "''python''" 16]
  from t have a1: "doDeserialize sample_extern (sample_LuaJIT_21 []) (sample_payload [])
       = Deserializer_fromThrift sample_extern NO_BYTECODE (sample_LuaJIT_21 [])
           (outputObject (sample_payload []))"
    by blast
  from t h3 have a2: "doDeserialize sample_extern (sample_LuaJIT_21 [])
         ((sample_payload [])\<lparr>luaVersionInfo :=
            \<lparr>interpreterVersion = ''LuaJIT 2.0.3'', bytecodeVersion = ''LuaJIT:0200''\<rparr>\<rparr>)
       = doDeserialize sample_extern (sample_LuaJIT_21 []) (sample_payload [])"
    by blast
  from t have "case doDeserialize sample_extern (sample_LuaJIT_21 [])
         ((sample_payload [])\<lparr>luaVersionInfo :=
            \<lparr>interpreterVersion = ''LuaJIT 2.1.0'', bytecodeVersion = ''LuaJIT:0201''\<rparr>\<rparr>) of
            Inl e \<Rightarrow> doDeserialize sample_extern (sample_LuaJIT_21 []) (sample_payload []) = Inl e
          | Inr w' \<Rightarrow>
              (\<exists>w. doDeserialize sample_extern (sample_LuaJIT_21 []) (sample_payload []) = Inr w
                 \<and> mark_bytecode False w = mark_bytecode False w'
                 \<and> (deserializationCallback (sample_LuaJIT_21 []) = None \<longrightarrow> w = mark_bytecode False w'))"
    by blast
  then have a3: "doDeserialize sample_extern (sample_LuaJIT_21 []) (sample_payload [])
       = Inr (VTable 0 [VTable 0 [] [], VFunction 1 False ''bytecode'' [VTable 0 [] []], VInt 1] [])"
    unfolding h4 using h5 by auto
  from t h6 h7 h8 h9 h10 have a4: "\<exists>obj writer d w.
       Serializer_toThrift sample_extern (sample_LuaJIT_20 [sample_cycle]) 1 = Inr obj
     \<and> encode sample_extern obj 1 \<lparr>interpreterVersion = ''python'', bytecodeVersion = []\<rparr>
          StringWriter kAnyVersion 16 = Inr writer
     \<and> decode sample_extern (finish writer) = Inr (d, [])
     \<and> bytecodeVersion (luaVersionInfo d) = []
     \<and> deserializeFromString sample_extern
          ((sample_LuaJIT_21 [])\<lparr>stack := [VByteString (finish writer)]\<rparr>) = Inr w
     \<and> erase_identity w
         = VTable 0 [VTable 0 [] [], VFunction 0 False ''bytecode'' [VTable 0 [] []], VInt 1] []"
    unfolding erase_sample_cycle by blast
  show ?thesis
    using h1 h2 h4 h5 h6 h7 h8 h9 h10 a1 a2 a3 a4 by simp
qed

section \<open>The defaults of the encode entry points\<close>

lemma getCodec_NO_COMPRESSION: "getCodec ext (NO_COMPRESSION ext) = Returns NoCompressionCodec"
  by (simp add: getCodec_def)

lemma compress_NoCompressionCodec: "map (compress NoCompressionCodec) segs = segs"
  by (simp add: NoCompressionCodec_def)

lemma encode_FILEWriter:
  assumes "getCodec ext cid = Returns cdc"
  shows "encode ext obj cid ver (FILEWriter fp fs) kAnyVersion lim =
    (case fs fp of
       None \<Rightarrow> Inl InvalidFilePointer
     | Some f \<Rightarrow>
         Inr ((FILEWriter fp fs)\<lparr>sink := fs(fp \<mapsto> fwrite f (put_envelope
           \<lparr>magic = kMagic, formatVersion = kFormatVersion, producer = ver, codecId = cid,
            chunkSizeLimit = lim,
            chunks = map (compress cdc) (split_chunks (unat lim) obj)\<rparr>))\<rparr>))"
  using assms by (simp add: encode_def FILEWriter_def min_kFormatVersion split: option.splits)

lemma unat_max_uint64: "unat (- 1 :: 64 word) = 2 ^ 64 - 1"
  by (simp add: unsigned_minus_1_eq_mask mask_eq_exp_minus_1)

lemma luaGetNumber_omitted:
  "lua_typeof a = LUA_TNIL \<or> lua_typeof a = LUA_TNONE \<Longrightarrow> luaGetNumber ext a = None"
  by (cases a; cases "the a") auto

lemma encode_cases:
  "encode ext obj cid ver writer maxVersion lim = Inr w \<Longrightarrow> \<exists>cdc. getCodec ext cid = Returns cdc"
  by (auto simp: encode_def split: getCodec_result.splits)

lemma toThrift_sample_int:
  "Serializer_toThrift sample_extern (sample_LuaJIT_20 (VInt 5 # args)) 1 = Inr (tag_int # put_varint 10)"
  by (simp add: Serializer_toThrift_def lua_index_def sample_LuaJIT_20_def sample_State_def zigzag_def)

lemma toThrift_sample_file_int:
  "Serializer_toThrift sample_extern (sample_file_State (VInt 5 # args)) 1
     = Inr (tag_int # put_varint 10)"
  by (simp add: Serializer_toThrift_def lua_index_def sample_file_State_def sample_LuaJIT_20_def
        sample_State_def zigzag_def)

lemma getVersion_sample_file:
  "getVersion sample_extern (sample_file_State args)
     = Inr \<lparr>interpreterVersion = ''LuaJIT 2.0.3'', bytecodeVersion = ''LuaJIT:0200''\<rparr>"
  by (simp add: sample_file_State_def getVersion_sample_20)

lemma getFP_sample_file:
  "getFP sample_extern (sample_file_State [VInt 5, VByteString sample_fp]) 2 = Inr sample_fp"
  by (simp add: getFP_def lua_index_def sample_file_State_def sample_LuaJIT_20_def
        sample_State_def sample_fp_def sizeof_voidp_def memcpy_def)

lemma split_chunks_sample:
  "split_chunks (unat (- 1 :: 64 word)) (tag_int # put_varint 10) = [tag_int # put_varint 10]"
  by (rule split_chunks_single) (simp_all add: unat_max_uint64 put_varint.simps)

lemma serializeToString_sample:
  "serializeToString sample_extern (sample_LuaJIT_20 [VInt 5]) = Inr sample_envelope"
proof -
  have t: "lua_type (sample_LuaJIT_20 [VInt 5]) 2 = LUA_TNONE"
    by (simp add: lua_type_def lua_index_def sample_LuaJIT_20_def sample_State_def)
  have n: "luaGetNumber sample_extern (lua_index (sample_LuaJIT_20 [VInt 5]) 3) = None"
    by (simp add: lua_index_def sample_LuaJIT_20_def sample_State_def)
  show ?thesis
    unfolding serializeToString_def t n toThrift_sample_int getVersion_sample_20
    by (simp add: encode_StringWriter [OF getCodec_NO_COMPRESSION] finish_def
          compress_NoCompressionCodec split_chunks_sample sample_envelope_def)
qed

lemma serializeToFile_sample:
  "serializeToFile sample_extern (sample_file_State [VInt 5, VByteString sample_fp])
     = (Inr 0, (sample_file_State [VInt 5, VByteString sample_fp])
          \<lparr>files := [sample_fp \<mapsto> fwrite \<lparr>contents = [], position = 0\<rparr> sample_envelope]\<rparr>)"
proof -
  have t: "lua_type (sample_file_State [VInt 5, VByteString sample_fp]) 3 = LUA_TNONE"
    by (simp add: lua_type_def lua_index_def sample_file_State_def sample_LuaJIT_20_def
          sample_State_def)
  have n: "luaGetNumber sample_extern
              (lua_index (sample_file_State [VInt 5, VByteString sample_fp]) 4) = None"
    by (simp add: lua_index_def sample_file_State_def sample_LuaJIT_20_def sample_State_def)
  have f: "files (sample_file_State [VInt 5, VByteString sample_fp])
             = [sample_fp \<mapsto> \<lparr>contents = [], position = 0\<rparr>]"
    by (simp add: sample_file_State_def)
  show ?thesis
    unfolding serializeToFile_def t n toThrift_sample_file_int getVersion_sample_file
      getFP_sample_file
    by (simp add: encode_FILEWriter [OF getCodec_NO_COMPRESSION] f
          compress_NoCompressionCodec split_chunks_sample sample_envelope_def)
qed

text \<open>
  Claim C5. When the codec argument is nil or missing, \<^verbatim>\<open>serializeToString\<close> (argument 2)
  and \<^verbatim>\<open>serializeToFile\<close> (argument 3) encode with \<^verbatim>\<open>NO_COMPRESSION\<close>: unless an earlier
  step raises, the envelope returned or written to the stream carries the codec id
  \<^verbatim>\<open>NO_COMPRESSION\<close> and its chunks are the segments of the token stream, uncompressed.
\<close>

theorem omitted_codec_is_NO_COMPRESSION:
  "(lua_type L 2 = LUA_TNIL \<or> lua_type L 2 = LUA_TNONE \<longrightarrow>
      serializeToString ext L =
        (case Serializer_toThrift ext L 1 of
           Inl e \<Rightarrow> Inl e
         | Inr obj \<Rightarrow>
             (case getVersion ext L of
                Inl e \<Rightarrow> Inl e
              | Inr ver \<Rightarrow>
                  Inr (put_envelope
                    \<lparr>magic = kMagic, formatVersion = kFormatVersion, producer = ver,
                     codecId = NO_COMPRESSION ext,
                     chunkSizeLimit =
                       (case luaGetNumber ext (lua_index L 3) of None \<Rightarrow> - 1 | Some k \<Rightarrow> k),
                     chunks = split_chunks
                       (unat (case luaGetNumber ext (lua_index L 3) of None \<Rightarrow> - 1 | Some k \<Rightarrow> k))
                       obj\<rparr>))))
   \<and> (lua_type L 3 = LUA_TNIL \<or> lua_type L 3 = LUA_TNONE \<longrightarrow>
      serializeToFile ext L =
        (case getFP ext L 2 of
           Inl e \<Rightarrow> (Inl e, L)
         | Inr fp \<Rightarrow>
             (case Serializer_toThrift ext L 1 of
                Inl e \<Rightarrow> (Inl e, L)
              | Inr obj \<Rightarrow>
                  (case getVersion ext L of
                     Inl e \<Rightarrow> (Inl e, L)
                   | Inr ver \<Rightarrow>
                       (case files L fp of
                          None \<Rightarrow> (Inl InvalidFilePointer, L)
                        | Some f \<Rightarrow>
                            (Inr 0, L\<lparr>files := (files L)(fp \<mapsto> fwrite f (put_envelope
                               \<lparr>magic = kMagic, formatVersion = kFormatVersion, producer = ver,
                                codecId = NO_COMPRESSION ext,
                                chunkSizeLimit =
                                  (case luaGetNumber ext (lua_index L 4) of
                                     None \<Rightarrow> - 1 | Some k \<Rightarrow> k),
                                chunks = split_chunks
                                  (unat (case luaGetNumber ext (lua_index L 4) of
                                           None \<Rightarrow> - 1 | Some k \<Rightarrow> k))
                                  obj\<rparr>))\<rparr>))))))"
proof (intro conjI impI)
  assume "lua_type L 2 = LUA_TNIL \<or> lua_type L 2 = LUA_TNONE"
  then show "serializeToString ext L =
        (case Serializer_toThrift ext L 1 of
           Inl e \<Rightarrow> Inl e
         | Inr obj \<Rightarrow>
             (case getVersion ext L of
                Inl e \<Rightarrow> Inl e
              | Inr ver \<Rightarrow>
                  Inr (put_envelope
                    \<lparr>magic = kMagic, formatVersion = kFormatVersion, producer = ver,
                     codecId = NO_COMPRESSION ext,
                     chunkSizeLimit =
                       (case luaGetNumber ext (lua_index L 3) of None \<Rightarrow> - 1 | Some k \<Rightarrow> k),
                     chunks = split_chunks
                       (unat (case luaGetNumber ext (lua_index L 3) of None \<Rightarrow> - 1 | Some k \<Rightarrow> k))
                       obj\<rparr>)))"
    by (auto simp: serializeToString_def Let_def finish_def compress_NoCompressionCodec
          encode_StringWriter [OF getCodec_NO_COMPRESSION] split: sum.splits)
next
  assume "lua_type L 3 = LUA_TNIL \<or> lua_type L 3 = LUA_TNONE"
  then show "serializeToFile ext L =
        (case getFP ext L 2 of
           Inl e \<Rightarrow> (Inl e, L)
         | Inr fp \<Rightarrow>
             (case Serializer_toThrift ext L 1 of
                Inl e \<Rightarrow> (Inl e, L)
              | Inr obj \<Rightarrow>
                  (case getVersion ext L of
                     Inl e \<Rightarrow> (Inl e, L)
                   | Inr ver \<Rightarrow>
                       (case files L fp of
                          None \<Rightarrow> (Inl InvalidFilePointer, L)
                        | Some f \<Rightarrow>
                            (Inr 0, L\<lparr>files := (files L)(fp \<mapsto> fwrite f (put_envelope
                               \<lparr>magic = kMagic, formatVersion = kFormatVersion, producer = ver,
                                codecId = NO_COMPRESSION ext,
                                chunkSizeLimit =
                                  (case luaGetNumber ext (lua_index L 4) of
                                     None \<Rightarrow> - 1 | Some k \<Rightarrow> k),
                                chunks = split_chunks
                                  (unat (case luaGetNumber ext (lua_index L 4) of
                                           None \<Rightarrow> - 1 | Some k \<Rightarrow> k))
                                  obj\<rparr>))\<rparr>)))))"
    by (auto simp: serializeToFile_def Let_def compress_NoCompressionCodec
          encode_FILEWriter [OF getCodec_NO_COMPRESSION] split: sum.splits option.splits)
qed

theorem omitted_codec_is_NO_COMPRESSION_witness:
  "lua_type (sample_LuaJIT_20 [VInt 5]) 2 = LUA_TNONE
   \<and> serializeToString sample_extern (sample_LuaJIT_20 [VInt 5])
       = Inr (put_envelope
           \<lparr>magic = kMagic, formatVersion = kFormatVersion,
            producer = \<lparr>interpreterVersion = ''LuaJIT 2.0.3'', bytecodeVersion = ''LuaJIT:0200''\<rparr>,
            codecId = NO_COMPRESSION sample_extern, chunkSizeLimit = - 1,
            chunks = [tag_int # put_varint 10]\<rparr>)
   \<and> lua_type (sample_file_State [VInt 5, VByteString sample_fp]) 3 = LUA_TNONE
   \<and> serializeToFile sample_extern (sample_file_State [VInt 5, VByteString sample_fp])
       = (Inr 0, (sample_file_State [VInt 5, VByteString sample_fp])
            \<lparr>files := [sample_fp \<mapsto> fwrite \<lparr>contents = [], position = 0\<rparr>
               (put_envelope
                 \<lparr>magic = kMagic, formatVersion = kFormatVersion,
                  producer = \<lparr>interpreterVersion = ''LuaJIT 2.0.3'',
                              bytecodeVersion = ''LuaJIT:0200''\<rparr>,
                  codecId = NO_COMPRESSION sample_extern, chunkSizeLimit = - 1,
                  chunks = [tag_int # put_varint 10]\<rparr>)]\<rparr>)"
proof -
  have t1: "lua_type (sample_LuaJIT_20 [VInt 5]) 2 = LUA_TNONE"
    by (simp add: lua_type_def lua_index_def sample_LuaJIT_20_def sample_State_def)
  have n1: "luaGetNumber sample_extern (lua_index (sample_LuaJIT_20 [VInt 5]) 3) = None"
    by (simp add: lua_index_def sample_LuaJIT_20_def sample_State_def)
  have t2: "lua_type (sample_file_State [VInt 5, VByteString sample_fp]) 3 = LUA_TNONE"
    by (simp add: lua_type_def lua_index_def sample_file_State_def sample_LuaJIT_20_def
          sample_State_def)
  have n2: "luaGetNumber sample_extern
              (lua_index (sample_file_State [VInt 5, VByteString sample_fp]) 4) = None"
    by (simp add: lua_index_def sample_file_State_def sample_LuaJIT_20_def sample_State_def)
  have f: "files (sample_file_State [VInt 5, VByteString sample_fp])
             = [sample_fp \<mapsto> \<lparr>contents = [], position = 0\<rparr>]"
    by (simp add: sample_file_State_def)
  have c: "split_chunks (unat (- 1 :: 64 word)) (tag_int # put_varint 10) = [tag_int # put_varint 10]"
    by (rule split_chunks_single) (simp_all add: unat_max_uint64 put_varint.simps)
  have e1: "serializeToString sample_extern (sample_LuaJIT_20 [VInt 5])
       = Inr (put_envelope
           \<lparr>magic = kMagic, formatVersion = kFormatVersion,
            producer = \<lparr>interpreterVersion = ''LuaJIT 2.0.3'', bytecodeVersion = ''LuaJIT:0200''\<rparr>,
            codecId = NO_COMPRESSION sample_extern, chunkSizeLimit = - 1,
            chunks = [tag_int # put_varint 10]\<rparr>)"
    using omitted_codec_is_NO_COMPRESSION [of "sample_LuaJIT_20 [VInt 5]" sample_extern] t1
    unfolding toThrift_sample_int getVersion_sample_20 n1
    by (simp add: c)
  have e2: "serializeToFile sample_extern (sample_file_State [VInt 5, VByteString sample_fp])
       = (Inr 0, (sample_file_State [VInt 5, VByteString sample_fp])
            \<lparr>files := [sample_fp \<mapsto> fwrite \<lparr>contents = [], position = 0\<rparr>
               (put_envelope
                 \<lparr>magic = kMagic, formatVersion = kFormatVersion,
                  producer = \<lparr>interpreterVersion = ''LuaJIT 2.0.3'',
                              bytecodeVersion = ''LuaJIT:0200''\<rparr>,
                  codecId = NO_COMPRESSION sample_extern, chunkSizeLimit = - 1,
                  chunks = [tag_int # put_varint 10]\<rparr>)]\<rparr>)"
    using omitted_codec_is_NO_COMPRESSION [of "sample_file_State [VInt 5, VByteString sample_fp]"
        sample_extern] t2
    unfolding toThrift_sample_file_int getVersion_sample_file getFP_sample_file n2 f
    by (simp add: c)
  show ?thesis using t1 t2 e1 e2 by simp
qed

text \<open>
  Claim C6. When the chunk size argument is nil or missing, \<^verbatim>\<open>serializeToString\<close>
  (argument 3) and \<^verbatim>\<open>serializeToFile\<close> (argument 4) encode with the largest \<^verbatim>\<open>uint64_t\<close>
  as chunk size limit, \<open>2 ^ 64 - 1\<close>: the envelope carries that limit, and a token stream
  shorter than \<open>2 ^ 64\<close> bytes is written as a single chunk.
\<close>

theorem omitted_chunkSizeLimit_is_unbounded:
  "(lua_type L 3 = LUA_TNIL \<or> lua_type L 3 = LUA_TNONE \<longrightarrow>
    serializeToString ext L = Inr s \<longrightarrow>
      (\<exists>obj ver cid cdc.
         Serializer_toThrift ext L 1 = Inr obj \<and> getVersion ext L = Inr ver
         \<and> getCodec ext cid = Returns cdc
         \<and> s = put_envelope
             \<lparr>magic = kMagic, formatVersion = kFormatVersion, producer = ver, codecId = cid,
              chunkSizeLimit = - 1,
              chunks = map (compress cdc) (split_chunks (2 ^ 64 - 1) obj)\<rparr>
         \<and> (length obj < 2 ^ 64 \<longrightarrow> split_chunks (2 ^ 64 - 1) obj = [obj])))
   \<and> (lua_type L 4 = LUA_TNIL \<or> lua_type L 4 = LUA_TNONE \<longrightarrow>
    serializeToFile ext L = (Inr n, L') \<longrightarrow>
      (\<exists>fp f obj ver cid cdc.
         getFP ext L 2 = Inr fp \<and> files L fp = Some f
         \<and> Serializer_toThrift ext L 1 = Inr obj \<and> getVersion ext L = Inr ver
         \<and> getCodec ext cid = Returns cdc
         \<and> L' = L\<lparr>files := (files L)(fp \<mapsto> fwrite f (put_envelope
             \<lparr>magic = kMagic, formatVersion = kFormatVersion, producer = ver, codecId = cid,
              chunkSizeLimit = - 1,
              chunks = map (compress cdc) (split_chunks (2 ^ 64 - 1) obj)\<rparr>))\<rparr>
         \<and> (length obj < 2 ^ 64 \<longrightarrow> split_chunks (2 ^ 64 - 1) obj = [obj])))
   \<and> unat (- 1 :: 64 word) = 2 ^ 64 - 1"
proof (intro conjI impI)
  assume om: "lua_type L 3 = LUA_TNIL \<or> lua_type L 3 = LUA_TNONE"
    and s: "serializeToString ext L = Inr s"
  have n: "luaGetNumber ext (lua_index L 3) = None"
    using om by (simp add: luaGetNumber_omitted lua_type_def)
  from s obtain cid obj ver w where
    tt: "Serializer_toThrift ext L 1 = Inr obj" and gv: "getVersion ext L = Inr ver"
    and en: "encode ext obj cid ver StringWriter kAnyVersion (- 1) = Inr w"
    and fw: "s = finish w"
    by (auto simp: serializeToString_def Let_def n split: sum.splits if_splits)
  from encode_cases [OF en] obtain cdc where g: "getCodec ext cid = Returns cdc" by auto
  have single: "length obj < 2 ^ 64 \<longrightarrow> split_chunks (2 ^ 64 - 1) obj = [obj]"
    using toThrift_nonempty [OF tt] by (auto intro: split_chunks_single)
  have "s = put_envelope
             \<lparr>magic = kMagic, formatVersion = kFormatVersion, producer = ver, codecId = cid,
              chunkSizeLimit = - 1,
              chunks = map (compress cdc) (split_chunks (2 ^ 64 - 1) obj)\<rparr>"
    using en fw by (auto simp: encode_StringWriter [OF g] finish_def unat_max_uint64)
  then show "\<exists>obj ver cid cdc.
         Serializer_toThrift ext L 1 = Inr obj \<and> getVersion ext L = Inr ver
         \<and> getCodec ext cid = Returns cdc
         \<and> s = put_envelope
             \<lparr>magic = kMagic, formatVersion = kFormatVersion, producer = ver, codecId = cid,
              chunkSizeLimit = - 1,
              chunks = map (compress cdc) (split_chunks (2 ^ 64 - 1) obj)\<rparr>
         \<and> (length obj < 2 ^ 64 \<longrightarrow> split_chunks (2 ^ 64 - 1) obj = [obj])"
    using tt gv g single by blast
next
  assume om: "lua_type L 4 = LUA_TNIL \<or> lua_type L 4 = LUA_TNONE"
    and s: "serializeToFile ext L = (Inr n, L')"
  have n: "luaGetNumber ext (lua_index L 4) = None"
    using om by (simp add: luaGetNumber_omitted lua_type_def)
  from s obtain cid fp obj ver w where
    fp: "getFP ext L 2 = Inr fp"
    and tt: "Serializer_toThrift ext L 1 = Inr obj" and gv: "getVersion ext L = Inr ver"
    and en: "encode ext obj cid ver (FILEWriter fp (files L)) kAnyVersion (- 1) = Inr w"
    and fw: "L' = L\<lparr>files := sink w\<rparr>"
    by (auto simp: serializeToFile_def Let_def n split: sum.splits if_splits)
  from encode_cases [OF en] obtain cdc where g: "getCodec ext cid = Returns cdc" by auto
  have single: "length obj < 2 ^ 64 \<longrightarrow> split_chunks (2 ^ 64 - 1) obj = [obj]"
    using toThrift_nonempty [OF tt] by (auto intro: split_chunks_single)
  from en obtain f where f: "files L fp = Some f"
    by (auto simp: encode_FILEWriter [OF g] split: option.splits)
  have "L' = L\<lparr>files := (files L)(fp \<mapsto> fwrite f (put_envelope
             \<lparr>magic = kMagic, formatVersion = kFormatVersion, producer = ver, codecId = cid,
              chunkSizeLimit = - 1,
              chunks = map (compress cdc) (split_chunks (2 ^ 64 - 1) obj)\<rparr>))\<rparr>"
    using en fw f by (auto simp: encode_FILEWriter [OF g] unat_max_uint64)
  then show "\<exists>fp f obj ver cid cdc.
         getFP ext L 2 = Inr fp \<and> files L fp = Some f
         \<and> Serializer_toThrift ext L 1 = Inr obj \<and> getVersion ext L = Inr ver
         \<and> getCodec ext cid = Returns cdc
         \<and> L' = L\<lparr>files := (files L)(fp \<mapsto> fwrite f (put_envelope
             \<lparr>magic = kMagic, formatVersion = kFormatVersion, producer = ver, codecId = cid,
              chunkSizeLimit = - 1,
              chunks = map (compress cdc) (split_chunks (2 ^ 64 - 1) obj)\<rparr>))\<rparr>
         \<and> (length obj < 2 ^ 64 \<longrightarrow> split_chunks (2 ^ 64 - 1) obj = [obj])"
    using fp f tt gv g single by blast
next
  show "unat (- 1 :: 64 word) = 2 ^ 64 - 1" by (rule unat_max_uint64)
qed

theorem omitted_chunkSizeLimit_is_unbounded_witness:
  "lua_type (sample_LuaJIT_20 [VInt 5]) 3 = LUA_TNONE
   \<and> serializeToString sample_extern (sample_LuaJIT_20 [VInt 5]) = Inr sample_envelope
   \<and> (\<exists>obj ver cid cdc.
         Serializer_toThrift sample_extern (sample_LuaJIT_20 [VInt 5]) 1 = Inr obj
         \<and> getVersion sample_extern (sample_LuaJIT_20 [VInt 5]) = Inr ver
         \<and> getCodec sample_extern cid = Returns cdc
         \<and> sample_envelope = put_envelope
             \<lparr>magic = kMagic, formatVersion = kFormatVersion, producer = ver, codecId = cid,
              chunkSizeLimit = - 1,
              chunks = map (compress cdc) (split_chunks (2 ^ 64 - 1) obj)\<rparr>
         \<and> length obj < 2 ^ 64 \<and> split_chunks (2 ^ 64 - 1) obj = [obj])
   \<and> lua_type (sample_file_State [VInt 5, VByteString sample_fp]) 4 = LUA_TNONE
   \<and> serializeToFile sample_extern (sample_file_State [VInt 5, VByteString sample_fp])
       = (Inr 0, (sample_file_State [VInt 5, VByteString sample_fp])
            \<lparr>files := [sample_fp \<mapsto> fwrite \<lparr>contents = [], position = 0\<rparr> sample_envelope]\<rparr>)
   \<and> (\<exists>fp f obj ver cid cdc.
         getFP sample_extern (sample_file_State [VInt 5, VByteString sample_fp]) 2 = Inr fp
         \<and> files (sample_file_State [VInt 5, VByteString sample_fp]) fp = Some f
         \<and> Serializer_toThrift sample_extern
             (sample_file_State [VInt 5, VByteString sample_fp]) 1 = Inr obj
         \<and> getVersion sample_extern (sample_file_State [VInt 5, VByteString sample_fp]) = Inr ver
         \<and> getCodec sample_extern cid = Returns cdc
         \<and> (sample_file_State [VInt 5, VByteString sample_fp])
              \<lparr>files := [sample_fp \<mapsto> fwrite \<lparr>contents = [], position = 0\<rparr> sample_envelope]\<rparr>
            = (sample_file_State [VInt 5, VByteString sample_fp])
              \<lparr>files := (files (sample_file_State [VInt 5, VByteString sample_fp]))
                 (fp \<mapsto> fwrite f (put_envelope
                   \<lparr>magic = kMagic, formatVersion = kFormatVersion, producer = ver, codecId = cid,
                    chunkSizeLimit = - 1,
                    chunks = map (compress cdc) (split_chunks (2 ^ 64 - 1) obj)\<rparr>))\<rparr>
         \<and> length obj < 2 ^ 64 \<and> split_chunks (2 ^ 64 - 1) obj = [obj])
   \<and> unat (- 1 :: 64 word) = 2 ^ 64 - 1"
proof -
  have t1: "lua_type (sample_LuaJIT_20 [VInt 5]) 3 = LUA_TNIL
            \<or> lua_type (sample_LuaJIT_20 [VInt 5]) 3 = LUA_TNONE"
    by (simp add: lua_type_def lua_index_def sample_LuaJIT_20_def sample_State_def)
  have t2: "lua_type (sample_file_State [VInt 5, VByteString sample_fp]) 4 = LUA_TNIL
            \<or> lua_type (sample_file_State [VInt 5, VByteString sample_fp]) 4 = LUA_TNONE"
    by (simp add: lua_type_def lua_index_def sample_file_State_def sample_LuaJIT_20_def
          sample_State_def)
  have l: "length (tag_int # put_varint 10) < 2 ^ 64"
    by (simp add: put_varint.simps)
  have a: "\<exists>obj ver cid cdc.
         Serializer_toThrift sample_extern (sample_LuaJIT_20 [VInt 5]) 1 = Inr obj
         \<and> getVersion sample_extern (sample_LuaJIT_20 [VInt 5]) = Inr ver
         \<and> getCodec sample_extern cid = Returns cdc
         \<and> sample_envelope = put_envelope
             \<lparr>magic = kMagic, formatVersion = kFormatVersion, producer = ver, codecId = cid,
              chunkSizeLimit = - 1,
              chunks = map (compress cdc) (split_chunks (2 ^ 64 - 1) obj)\<rparr>
         \<and> length obj < 2 ^ 64 \<and> split_chunks (2 ^ 64 - 1) obj = [obj]"
    using omitted_chunkSizeLimit_is_unbounded
        [of "sample_LuaJIT_20 [VInt 5]" sample_extern sample_envelope] t1
      serializeToString_sample l
    unfolding toThrift_sample_int
    by auto
  have b: "\<exists>fp f obj ver cid cdc.
         getFP sample_extern (sample_file_State [VInt 5, VByteString sample_fp]) 2 = Inr fp
         \<and> files (sample_file_State [VInt 5, VByteString sample_fp]) fp = Some f
         \<and> Serializer_toThrift sample_extern
             (sample_file_State [VInt 5, VByteString sample_fp]) 1 = Inr obj
         \<and> getVersion sample_extern (sample_file_State [VInt 5, VByteString sample_fp]) = Inr ver
         \<and> getCodec sample_extern cid = Returns cdc
         \<and> (sample_file_State [VInt 5, VByteString sample_fp])
              \<lparr>files := [sample_fp \<mapsto> fwrite \<lparr>contents = [], position = 0\<rparr> sample_envelope]\<rparr>
            = (sample_file_State [VInt 5, VByteString sample_fp])
              \<lparr>files := (files (sample_file_State [VInt 5, VByteString sample_fp]))
                 (fp \<mapsto> fwrite f (put_envelope
                   \<lparr>magic = kMagic, formatVersion = kFormatVersion, producer = ver, codecId = cid,
                    chunkSizeLimit = - 1,
                    chunks = map (compress cdc) (split_chunks (2 ^ 64 - 1) obj)\<rparr>))\<rparr>
         \<and> length obj < 2 ^ 64 \<and> split_chunks (2 ^ 64 - 1) obj = [obj]"
    using omitted_chunkSizeLimit_is_unbounded
        [of "sample_file_State [VInt 5, VByteString sample_fp]" sample_extern _ 0
           "(sample_file_State [VInt 5, VByteString sample_fp])
              \<lparr>files := [sample_fp \<mapsto> fwrite \<lparr>contents = [], position = 0\<rparr> sample_envelope]\<rparr>"]
      t2 serializeToFile_sample l
    unfolding toThrift_sample_file_int
    by auto
  show ?thesis
    using t1 t2 serializeToString_sample serializeToFile_sample a b unat_max_uint64
    by (simp add: lua_type_def lua_index_def sample_file_State_def sample_LuaJIT_20_def
          sample_State_def)
qed

end
